(* ===== verification/Prelude.thy ===== *)
theory Prelude imports Main "HOL-Library.Word" "HOL-Library.AList" begin

text \<open>
  Shared vocabulary of the development.

  A Go \<open>string\<close> and a Go \<open>[]byte\<close> are both byte sequences and both are modelled as the
  HOL type \<open>string\<close>, whose characters are the 256 byte values, so \<open>length\<close> is \<open>len\<close>. A
  \<open>uint64\<close> is a \<open>64 word\<close>. A Go \<open>error\<close> is a value of \<open>gerr\<close>: a sentinel or an
  \<open>errors.New\<close> text, and \<open>%w\<close> wrapping; \<open>errors.Is\<close> walks the chain. A fallible call
  returns \<open>gerr + 'a\<close>. A Go map is an association list with distinct keys, because the
  order in which a \<open>range\<close> visits it is then an explicit part of the state.
\<close>

section \<open>Collections of facts\<close>

named_theorems go_map_laws \<open>lookup laws of the association-list model of Go maps\<close>
named_theorems err_simps \<open>evaluation of error inspection\<close>

section \<open>Bytes and words\<close>

type_synonym u8 = "8 word"
type_synonym u32 = "32 word"
type_synonym u64 = "64 word"

definition byte_of :: "char \<Rightarrow> u8" where
  "byte_of c = word_of_nat (of_char c)"

section \<open>Package strings\<close>

definition HasPrefix :: "string \<Rightarrow> string \<Rightarrow> bool" where
  "HasPrefix s p \<longleftrightarrow> take (length p) s = p"

definition HasSuffix :: "string \<Rightarrow> string \<Rightarrow> bool" where
  "HasSuffix s p \<longleftrightarrow> HasPrefix (rev s) (rev p)"

definition CutPrefix :: "string \<Rightarrow> string \<Rightarrow> string \<times> bool" where
  "CutPrefix s p = (if HasPrefix s p then (drop (length p) s, True) else (s, False))"

definition TrimPrefix :: "string \<Rightarrow> string \<Rightarrow> string" where
  "TrimPrefix s p = fst (CutPrefix s p)"

definition TrimSuffix :: "string \<Rightarrow> string \<Rightarrow> string" where
  "TrimSuffix s p = (if HasSuffix s p then take (length s - length p) s else s)"

text \<open>\<open>strings.Cut\<close> at the first occurrence of a single byte.\<close>

fun cut_at :: "char \<Rightarrow> string \<Rightarrow> (string \<times> string) option" where
  "cut_at c [] = None"
| "cut_at c (x # xs) =
     (if x = c then Some ([], xs)
      else map_option (\<lambda>(a, b). (x # a, b)) (cut_at c xs))"

fun join_with :: "string \<Rightarrow> string list \<Rightarrow> string" where
  "join_with sep [] = []"
| "join_with sep [x] = x"
| "join_with sep (x # y # ys) = x @ sep @ join_with sep (y # ys)"

fun split_on :: "char \<Rightarrow> string \<Rightarrow> string list" where
  "split_on c [] = [[]]"
| "split_on c (x # xs) =
     (if x = c then [] # split_on c xs
      else (case split_on c xs of [] \<Rightarrow> [[x]] | w # ws \<Rightarrow> (x # w) # ws))"

fun contains_str :: "string \<Rightarrow> string \<Rightarrow> bool" where
  "contains_str [] p = (p = [])"
| "contains_str (x # xs) p = (HasPrefix (x # xs) p \<or> contains_str xs p)"

text \<open>
  \<open>strings.TrimSpace\<close>: the code points of \<open>unicode.IsSpace\<close>, by their UTF-8 encodings.
\<close>

definition space_encodings :: "string list" where
  "space_encodings =
     [[CHR 0x09], [CHR 0x0A], [CHR 0x0B], [CHR 0x0C], [CHR 0x0D], [CHR 0x20],
      [CHR 0xC2, CHR 0x85], [CHR 0xC2, CHR 0xA0], [CHR 0xE1, CHR 0x9A, CHR 0x80],
      [CHR 0xE2, CHR 0x80, CHR 0x80], [CHR 0xE2, CHR 0x80, CHR 0x81], [CHR 0xE2, CHR 0x80, CHR 0x82],
      [CHR 0xE2, CHR 0x80, CHR 0x83], [CHR 0xE2, CHR 0x80, CHR 0x84], [CHR 0xE2, CHR 0x80, CHR 0x85],
      [CHR 0xE2, CHR 0x80, CHR 0x86], [CHR 0xE2, CHR 0x80, CHR 0x87], [CHR 0xE2, CHR 0x80, CHR 0x88],
      [CHR 0xE2, CHR 0x80, CHR 0x89], [CHR 0xE2, CHR 0x80, CHR 0x8A], [CHR 0xE2, CHR 0x80, CHR 0xA8],
      [CHR 0xE2, CHR 0x80, CHR 0xA9], [CHR 0xE2, CHR 0x80, CHR 0xAF], [CHR 0xE2, CHR 0x81, CHR 0x9F],
      [CHR 0xE3, CHR 0x80, CHR 0x80]]"

function trim_front :: "string list \<Rightarrow> string \<Rightarrow> string" where
  "trim_front seps s =
     (case find (\<lambda>e. e \<noteq> [] \<and> HasPrefix s e) seps of
        None \<Rightarrow> s
      | Some e \<Rightarrow> trim_front seps (drop (length e) s))"
  by pat_completeness auto
termination
proof (relation "measure (\<lambda>(seps, s). length s)", goal_cases)
  case (2 seps s e)
  then have "e \<noteq> []" and "HasPrefix s e"
    by (auto simp: find_Some_iff)
  then have "s \<noteq> []"
    by (auto simp: HasPrefix_def)
  with \<open>e \<noteq> []\<close> show ?case by simp
qed simp

declare trim_front.simps [simp del]

definition TrimSpace :: "string \<Rightarrow> string" where
  "TrimSpace s =
     rev (trim_front (map rev space_encodings) (rev (trim_front space_encodings s)))"

section \<open>Package strconv\<close>

fun show_nat :: "nat \<Rightarrow> string" where
  "show_nat n =
     (if n < 10 then [char_of (48 + n)]
      else show_nat (n div 10) @ [char_of (48 + n mod 10)])"

declare show_nat.simps [simp del]

definition show_int :: "int \<Rightarrow> string" where
  "show_int i = (if i < 0 then CHR ''-'' # show_nat (nat (- i)) else show_nat (nat i))"

definition digit_val :: "char \<Rightarrow> nat option" where
  "digit_val c = (let n = of_char c in if 48 \<le> n \<and> n \<le> (57::nat) then Some (n - 48) else None)"

fun digits_val :: "nat \<Rightarrow> string \<Rightarrow> nat option" where
  "digits_val acc [] = Some acc"
| "digits_val acc (c # cs) =
     (case digit_val c of None \<Rightarrow> None | Some d \<Rightarrow> digits_val (10 * acc + d) cs)"

text \<open>\<open>strconv.ParseUint(s, 10, bits)\<close>: digits only, not empty, and in range.\<close>

definition ParseUint :: "string \<Rightarrow> nat \<Rightarrow> nat option" where
  "ParseUint s bits =
     (if s = [] then None
      else case digits_val 0 s of
             None \<Rightarrow> None
           | Some n \<Rightarrow> if n < 2 ^ bits then Some n else None)"

section \<open>Errors\<close>

datatype gerr =
    Sentinel string            \<comment> \<open>a package-level \<open>errors.New\<close>, compared by identity\<close>
  | Plain string               \<comment> \<open>\<open>errors.New\<close> or \<open>fmt.Errorf\<close> without \<open>%w\<close>\<close>
  | Wrap string gerr string    \<comment> \<open>\<open>fmt.Errorf("pre%wpost", err)\<close>\<close>

type_synonym 'a res = "gerr + 'a"

fun errors_is :: "gerr \<Rightarrow> gerr \<Rightarrow> bool" where
  "errors_is (Wrap pre e post) t = errors_is e t"
| "errors_is (Sentinel s) t = (t = Sentinel s)"
| "errors_is (Plain s) t = False"

fun err_text :: "gerr \<Rightarrow> string" where
  "err_text (Sentinel s) = s"
| "err_text (Plain s) = s"
| "err_text (Wrap pre e post) = pre @ err_text e @ post"

lemmas [err_simps] = errors_is.simps err_text.simps

fun is_ok :: "'a res \<Rightarrow> bool" where
  "is_ok (Inl e) = False"
| "is_ok (Inr a) = True"

section \<open>Go maps as association lists\<close>

type_synonym ('k, 'v) gomap = "('k \<times> 'v) list"

abbreviation mget :: "('k, 'v) gomap \<Rightarrow> 'k \<Rightarrow> 'v option" where
  "mget m k \<equiv> map_of m k"

abbreviation mset_key :: "'k \<Rightarrow> 'v \<Rightarrow> ('k, 'v) gomap \<Rightarrow> ('k, 'v) gomap" where
  "mset_key \<equiv> AList.update"

abbreviation mdel :: "'k \<Rightarrow> ('k, 'v) gomap \<Rightarrow> ('k, 'v) gomap" where
  "mdel \<equiv> AList.delete"

abbreviation mkeys :: "('k, 'v) gomap \<Rightarrow> 'k list" where
  "mkeys m \<equiv> map fst m"

abbreviation mwf :: "('k, 'v) gomap \<Rightarrow> bool" where
  "mwf m \<equiv> distinct (map fst m)"

lemma mget_set [go_map_laws, simp]: "mget (mset_key k v m) k' = (if k' = k then Some v else mget m k')"
  by (simp add: update_conv')

lemma mget_del [go_map_laws, simp]: "mget (mdel k m) k' = (if k' = k then None else mget m k')"
  by (simp add: delete_conv')

lemma mwf_set [go_map_laws, simp]: "mwf m \<Longrightarrow> mwf (mset_key k v m)"
  by (rule distinct_update)

lemma mwf_del [go_map_laws, simp]: "mwf m \<Longrightarrow> mwf (mdel k m)"
  by (rule distinct_delete)

lemma mget_filter [go_map_laws]:
  "mwf m \<Longrightarrow> mget (filter (\<lambda>(k, v). P v) m) k = (case mget m k of None \<Rightarrow> None | Some v \<Rightarrow> if P v then Some v else None)"
  by (induction m) (auto split: option.splits simp: map_of_eq_None_iff weak_map_of_SomeI dest: map_of_SomeD)

lemma mwf_filter [go_map_laws, simp]: "mwf m \<Longrightarrow> mwf (filter P m)"
  by (induction m) auto

lemma mget_in_set: "mget m k = Some v \<Longrightarrow> (k, v) \<in> set m"
  by (rule map_of_SomeD)

lemma in_set_mget: "mwf m \<Longrightarrow> (k, v) \<in> set m \<Longrightarrow> mget m k = Some v"
  by simp

section \<open>Lists\<close>

lemma HasPrefix_append [simp]: "HasPrefix (p @ s) p"
  by (simp add: HasPrefix_def)

lemma HasPrefixD: "HasPrefix s p \<Longrightarrow> \<exists>r. s = p @ r"
  unfolding HasPrefix_def by (metis append_take_drop_id)

lemma HasPrefix_iff: "HasPrefix s p \<longleftrightarrow> (\<exists>r. s = p @ r)"
  using HasPrefixD by auto

lemma CutPrefix_append [simp]: "CutPrefix (p @ s) p = (s, True)"
  by (simp add: CutPrefix_def)

lemma CutPrefix_True: "CutPrefix s p = (r, True) \<Longrightarrow> s = p @ r"
  by (auto simp: CutPrefix_def HasPrefix_iff split: if_splits)

lemma append_concat_take_nth:
  assumes "p @ r = concat cs"
  obtains k q where "k \<le> length cs" "p = concat (take k cs) @ q"
    and "q = [] \<or> (k < length cs \<and> (\<exists>r'. r' \<noteq> [] \<and> cs ! k = q @ r'))"
  using assms
proof (induction cs arbitrary: p thesis)
  case Nil
  then show ?case by simp
next
  case (Cons c cs)
  show ?case
  proof (cases "length p < length c")
    case True
    with Cons.prems(2) obtain r' where c: "c = p @ r'" and "r' \<noteq> []"
      by (auto simp: append_eq_append_conv2)
    then show ?thesis
      by (intro Cons.prems(1) [of 0 p]) auto
  next
    case False
    with Cons.prems(2) obtain p' where p: "p = c @ p'" "p' @ r = concat cs"
      by (auto simp: append_eq_append_conv2)
    obtain k q where "k \<le> length cs" "p' = concat (take k cs) @ q"
      and "q = [] \<or> (k < length cs \<and> (\<exists>r'. r' \<noteq> [] \<and> cs ! k = q @ r'))"
      using Cons.IH [OF _ p(2)] by blast
    with p(1) show ?thesis
      by (intro Cons.prems(1) [of "Suc k" q]) auto
  qed
qed

end
