(* ===== verification/Go_Json.thy ===== *)
theory Go_Json imports Prelude begin

text \<open>
  Package \<open>encoding/json\<close>, as far as the wire protocol uses it: the tree a struct marshals to,
  the text \<open>json.Marshal\<close> prints for it (its length decides whether a payload fits a frame),
  what a string becomes on the way (each byte that starts no well-formed UTF-8 sequence is
  replaced by U+FFFD), and reading fields back with Go's rules for absent and null fields.

  A tree carries Go string values as they were given; \<open>wire\<close> is the tree the receiving end
  parses out of the printed text.
\<close>

section \<open>UTF-8\<close>

definition byte_in :: "nat \<Rightarrow> nat \<Rightarrow> string \<Rightarrow> bool" where
  "byte_in lo hi s = (case s of [] \<Rightarrow> False | c # cs \<Rightarrow> lo \<le> of_char c \<and> of_char c \<le> hi)"

text \<open>The range of a second byte, which rules out overlong forms, surrogates and values too large.\<close>

definition second_lo :: "nat \<Rightarrow> nat" where
  "second_lo x = (if x = 0xE0 then 0xA0 else if x = 0xF0 then 0x90 else 0x80)"

definition second_hi :: "nat \<Rightarrow> nat" where
  "second_hi x = (if x = 0xED then 0x9F else if x = 0xF4 then 0x8F else 0xBF)"

text \<open>\<open>utf8.DecodeRune\<close>: the width of the sequence at the front, 0 when it is not well formed.\<close>

definition rune_len :: "string \<Rightarrow> nat" where
  "rune_len s =
     (case s of
        [] \<Rightarrow> 0
      | c # r \<Rightarrow>
          (let x = of_char c :: nat; lo = second_lo x; hi = second_hi x
           in if x < 0x80 then 1
              else if 0xC2 \<le> x \<and> x \<le> 0xDF \<and> byte_in 0x80 0xBF r then 2
              else if 0xE0 \<le> x \<and> x \<le> 0xEF \<and> byte_in lo hi r \<and> byte_in 0x80 0xBF (drop 1 r) then 3
              else if 0xF0 \<le> x \<and> x \<le> 0xF4 \<and> byte_in lo hi r \<and> byte_in 0x80 0xBF (drop 1 r)
                   \<and> byte_in 0x80 0xBF (drop 2 r) then 4
              else 0))"

lemma byte_in_len:
  "byte_in lo hi r \<Longrightarrow> 1 \<le> length r" "byte_in lo hi (drop (Suc 0) r) \<Longrightarrow> 2 \<le> length r"
  "byte_in lo hi (drop 2 r) \<Longrightarrow> 3 \<le> length r"
  by (cases r; cases "tl r"; cases "tl (tl r)"; auto simp: byte_in_def)+

lemma rune_len_le: "rune_len s \<le> length s"
  by (cases s) (auto simp: rune_len_def Let_def dest: byte_in_len)

lemma rune_len_4: "rune_len s \<le> 4"
  by (auto simp: rune_len_def Let_def split: list.splits)

definition replacement :: string where "replacement = [CHR 0xEF, CHR 0xBF, CHR 0xBD]"

function to_valid :: "string \<Rightarrow> string" where
  "to_valid s =
     (if s = [] then []
      else if rune_len s = 0 then replacement @ to_valid (tl s)
      else take (rune_len s) s @ to_valid (drop (rune_len s) s))"
  by pat_completeness auto
termination by (relation "measure length") auto

declare to_valid.simps [simp del]

function valid_utf8 :: "string \<Rightarrow> bool" where
  "valid_utf8 s = (if s = [] then True else if rune_len s = 0 then False else valid_utf8 (drop (rune_len s) s))"
  by pat_completeness auto
termination by (relation "measure length") auto

declare valid_utf8.simps [simp del]

lemma to_valid_Nil [simp]: "to_valid [] = []"
  by (simp add: to_valid.simps)

lemma to_valid_id: "valid_utf8 s \<Longrightarrow> to_valid s = s"
proof (induction s rule: to_valid.induct)
  case (1 s)
  then show ?case
    by (cases "s = []"; cases "rune_len s = 0") (simp_all add: to_valid.simps [of s] valid_utf8.simps [of s])
qed

text \<open>The sequence at the front is found again whatever follows it.\<close>

lemma byte_in_simps [simp]: "byte_in lo hi (d # x) \<longleftrightarrow> lo \<le> of_char d \<and> of_char d \<le> hi" "\<not> byte_in lo hi []"
  by (simp_all add: byte_in_def)

lemma rune_len_take:
  assumes "rune_len s \<noteq> 0" shows "rune_len (take (rune_len s) s @ v) = rune_len s"
proof -
  obtain c r where s: "s = c # r" using assms by (cases s) (auto simp: rune_len_def)
  have len: "rune_len s \<le> length s" by (rule rune_len_le)
  consider "rune_len s = 1" | "rune_len s = 2" | "rune_len s = 3" | "rune_len s = 4"
    using assms rune_len_4 [of s] by linarith
  then show ?thesis
  proof cases
    case 1
    then show ?thesis by (simp add: s rune_len_def Let_def split: if_splits)
  next
    case 2
    with len s obtain d r2 where r: "r = d # r2" by (cases r) auto
    with 2 s have "(194::nat) \<le> of_char c \<and> of_char c \<le> (223::nat) \<and> byte_in 128 191 (d # r2)"
      by (simp_all add: rune_len_def Let_def split: if_splits)
    then show ?thesis unfolding 2 by (simp add: s r rune_len_def Let_def numeral_2_eq_2)
  next
    case 3
    with len s obtain d e r2 where r: "r = d # e # r2" by (cases r; cases "tl r") auto
    with 3 s have "(224::nat) \<le> of_char c" "of_char c \<le> (239::nat)"
      "second_lo (of_char c) \<le> of_char d" "of_char d \<le> second_hi (of_char c)" "(128::nat) \<le> of_char e" "of_char e \<le> (191::nat)"
      by (simp_all add: rune_len_def Let_def split: if_splits)
    then show ?thesis unfolding 3 by (simp add: s r rune_len_def Let_def numeral_3_eq_3)
  next
    case 4
    with len s obtain d e f r2 where r: "r = d # e # f # r2" by (cases r; cases "tl r"; cases "tl (tl r)") auto
    with 4 s have "(240::nat) \<le> of_char c" "of_char c \<le> (244::nat)"
      "second_lo (of_char c) \<le> of_char d" "of_char d \<le> second_hi (of_char c)" "(128::nat) \<le> of_char e" "of_char e \<le> (191::nat)"
      "(128::nat) \<le> of_char f" "of_char f \<le> (191::nat)"
      by (simp_all add: rune_len_def Let_def split: if_splits)
    then show ?thesis unfolding 4 by (simp add: s r rune_len_def Let_def eval_nat_numeral)
  qed
qed

lemma valid_step:
  assumes "rune_len s \<noteq> 0" "valid_utf8 v"
  shows "valid_utf8 (take (rune_len s) s @ v)"
  using assms rune_len_le [of s]
  by (subst valid_utf8.simps) (simp add: rune_len_take)

lemma replacement_rune: "rune_len (replacement @ v) = 3"
  by (simp add: rune_len_def replacement_def second_lo_def second_hi_def Let_def)

lemma valid_replacement: "valid_utf8 v \<Longrightarrow> valid_utf8 (replacement @ v)"
  by (subst valid_utf8.simps) (simp add: replacement_rune, simp add: replacement_def)

lemma to_valid_valid: "valid_utf8 (to_valid s)"
proof (induction s rule: to_valid.induct)
  case (1 s)
  consider "s = []" | "s \<noteq> []" "rune_len s = 0" | "s \<noteq> []" "rune_len s \<noteq> 0" by blast
  then show ?case
  proof cases
    case 1
    then show ?thesis by (simp add: valid_utf8.simps)
  next
    case 2
    from valid_replacement [OF "1.IH"(1) [OF 2]] 2 show ?thesis by (subst to_valid.simps) simp
  next
    case 3
    from valid_step [OF 3(2) "1.IH"(2) [OF 3]] 3 show ?thesis by (subst to_valid.simps) simp
  qed
qed

section \<open>Trees and their text\<close>

datatype json =
    JNull
  | JBool bool
  | JNum int
  | JStr string
  | JArr "json list"
  | JObj "(string \<times> json) list"

definition hex_digit :: "nat \<Rightarrow> char" where
  "hex_digit n = (if n < 10 then char_of (48 + n) else char_of (87 + n))"

definition esc_byte :: "char \<Rightarrow> string" where
  "esc_byte c =
     (let n = of_char c :: nat in
      if c = CHR 0x22 then [CHR 0x5C, CHR 0x22]
      else if c = CHR 0x5C then [CHR 0x5C, CHR 0x5C]
      else if n = 8 then [CHR 0x5C, CHR ''b'']
      else if n = 9 then [CHR 0x5C, CHR ''t'']
      else if n = 10 then [CHR 0x5C, CHR ''n'']
      else if n = 12 then [CHR 0x5C, CHR ''f'']
      else if n = 13 then [CHR 0x5C, CHR ''r'']
      else if n < 32 \<or> c \<in> {CHR ''<'', CHR ''>'', CHR ''&''}
      then [CHR 0x5C, CHR ''u'', CHR ''0'', CHR ''0'', hex_digit (n div 16), hex_digit (n mod 16)]
      else [c])"

definition esc_rune :: "string \<Rightarrow> string" where
  "esc_rune r =
     (case r of
        [c] \<Rightarrow> esc_byte c
      | _ \<Rightarrow> if r = [CHR 0xE2, CHR 0x80, CHR 0xA8] then [CHR 0x5C, CHR ''u'', CHR ''2'', CHR ''0'', CHR ''2'', CHR ''8'']
             else if r = [CHR 0xE2, CHR 0x80, CHR 0xA9] then [CHR 0x5C, CHR ''u'', CHR ''2'', CHR ''0'', CHR ''2'', CHR ''9'']
             else r)"

function esc :: "string \<Rightarrow> string" where
  "esc s =
     (if s = [] then []
      else if rune_len s = 0
      then [CHR 0x5C, CHR ''u'', CHR ''f'', CHR ''f'', CHR ''f'', CHR ''d''] @ esc (tl s)
      else esc_rune (take (rune_len s) s) @ esc (drop (rune_len s) s))"
  by pat_completeness auto
termination by (relation "measure length") auto

declare esc.simps [simp del]

definition jquote :: "string \<Rightarrow> string" where
  "jquote s = CHR 0x22 # esc s @ [CHR 0x22]"

fun jprint :: "json \<Rightarrow> string" and jprint_elems :: "json list \<Rightarrow> string" and
    jprint_fields :: "(string \<times> json) list \<Rightarrow> string" where
  "jprint JNull = ''null''"
| "jprint (JBool b) = (if b then ''true'' else ''false'')"
| "jprint (JNum i) = show_int i"
| "jprint (JStr s) = jquote s"
| "jprint (JArr js) = CHR 0x5B # jprint_elems js @ [CHR 0x5D]"
| "jprint (JObj fs) = CHR 0x7B # jprint_fields fs @ [CHR 0x7D]"
| "jprint_elems [] = []"
| "jprint_elems [j] = jprint j"
| "jprint_elems (j # k # js) = jprint j @ CHR '','' # jprint_elems (k # js)"
| "jprint_fields [] = []"
| "jprint_fields [(n, j)] = jquote n @ CHR '':'' # jprint j"
| "jprint_fields ((n, j) # f # fs) = jquote n @ CHR '':'' # jprint j @ CHR '','' # jprint_fields (f # fs)"

definition jlen :: "json \<Rightarrow> nat" where
  "jlen j = length (jprint j)"

text \<open>What the peer parses out of the printed text.\<close>

fun wire :: "json \<Rightarrow> json" and wire_elems :: "json list \<Rightarrow> json list" and
    wire_fields :: "(string \<times> json) list \<Rightarrow> (string \<times> json) list" where
  "wire (JStr s) = JStr (to_valid s)"
| "wire (JArr js) = JArr (wire_elems js)"
| "wire (JObj fs) = JObj (wire_fields fs)"
| "wire j = j"
| "wire_elems [] = []"
| "wire_elems (j # js) = wire j # wire_elems js"
| "wire_fields [] = []"
| "wire_fields ((n, j) # fs) = (to_valid n, wire j) # wire_fields fs"

lemma wire_elems_map: "wire_elems js = map wire js"
  by (induction js) auto

section \<open>Bounds on the printed length\<close>

lemma esc_byte_len: "length (esc_byte c) \<le> 6" "1 \<le> length (esc_byte c)"
  by (auto simp: esc_byte_def Let_def)

lemma esc_rune_len: "r \<noteq> [] \<Longrightarrow> length (esc_rune r) \<le> 6 * length r"
  using esc_byte_len by (auto simp: esc_rune_def split: list.splits)

lemma esc_rune_len_ge: "length r \<le> length (esc_rune r)"
  using esc_byte_len by (auto simp: esc_rune_def split: list.splits)

lemma esc_len: "length (esc s) \<le> 6 * length s"
proof (induction s rule: esc.induct)
  case (1 s)
  show ?case
  proof (cases "s = [] \<or> rune_len s = 0")
    case True
    show ?thesis
    proof (cases s)
      case Nil
      then show ?thesis by (simp add: esc.simps)
    next
      case (Cons c cs)
      with True 1 show ?thesis by (subst esc.simps) simp
    qed
  next
    case False
    then have "length (esc_rune (take (rune_len s) s)) \<le> 6 * rune_len s"
      using esc_rune_len [of "take (rune_len s) s"] rune_len_le [of s] by simp
    with 1 False rune_len_le [of s] show ?thesis by (simp add: esc.simps [of s])
  qed
qed

lemma esc_len_ge: "length s \<le> length (esc s)"
proof (induction s rule: esc.induct)
  case (1 s)
  show ?case
  proof (cases "s = [] \<or> rune_len s = 0")
    case True
    show ?thesis
    proof (cases s)
      case Nil
      then show ?thesis by (simp add: esc.simps)
    next
      case (Cons c cs)
      with True 1 show ?thesis by (subst esc.simps) simp
    qed
  next
    case False
    then have "rune_len s \<le> length (esc_rune (take (rune_len s) s))"
      using esc_rune_len_ge [of "take (rune_len s) s"] rune_len_le [of s] by simp
    with 1 False rune_len_le [of s] show ?thesis by (simp add: esc.simps [of s])
  qed
qed

lemma jquote_len: "length (jquote s) \<le> 6 * length s + 2" "length s + 2 \<le> length (jquote s)"
  using esc_len [of s] esc_len_ge [of s] by (simp_all add: jquote_def)

section \<open>Reading a struct back\<close>

definition type_error :: gerr where
  "type_error = Plain ''json: cannot unmarshal value into Go struct field''"

definition fld :: "(string \<times> json) list \<Rightarrow> string \<Rightarrow> json" where
  "fld fs k = (case map_of (rev fs) k of None \<Rightarrow> JNull | Some j \<Rightarrow> j)"

definition as_obj :: "json \<Rightarrow> (string \<times> json) list res" where
  "as_obj j = (case j of JObj fs \<Rightarrow> Inr fs | JNull \<Rightarrow> Inr [] | _ \<Rightarrow> Inl type_error)"

definition as_str :: "json \<Rightarrow> string res" where
  "as_str j = (case j of JStr s \<Rightarrow> Inr s | JNull \<Rightarrow> Inr [] | _ \<Rightarrow> Inl type_error)"

definition as_int :: "json \<Rightarrow> int res" where
  "as_int j = (case j of JNum i \<Rightarrow> Inr i | JNull \<Rightarrow> Inr 0 | _ \<Rightarrow> Inl type_error)"

definition as_bool :: "json \<Rightarrow> bool res" where
  "as_bool j = (case j of JBool b \<Rightarrow> Inr b | JNull \<Rightarrow> Inr False | _ \<Rightarrow> Inl type_error)"

text \<open>A nil slice is \<open>None\<close>: it marshals to \<open>null\<close>, an empty one to \<open>[]\<close>.\<close>

fun all_ok :: "'a res list \<Rightarrow> 'a list res" where
  "all_ok [] = Inr []"
| "all_ok (r # rs) =
     (case r of Inl e \<Rightarrow> Inl e | Inr a \<Rightarrow> (case all_ok rs of Inl e \<Rightarrow> Inl e | Inr as \<Rightarrow> Inr (a # as)))"

definition as_slice :: "(json \<Rightarrow> 'a res) \<Rightarrow> json \<Rightarrow> 'a list option res" where
  "as_slice f j =
     (case j of
        JArr js \<Rightarrow> (case all_ok (map f js) of Inl e \<Rightarrow> Inl e | Inr as \<Rightarrow> Inr (Some as))
      | JNull \<Rightarrow> Inr None
      | _ \<Rightarrow> Inl type_error)"

definition of_slice :: "('a \<Rightarrow> json) \<Rightarrow> 'a list option \<Rightarrow> json" where
  "of_slice f xs = (case xs of None \<Rightarrow> JNull | Some ys \<Rightarrow> JArr (map f ys))"

definition andThen :: "'a res \<Rightarrow> ('a \<Rightarrow> 'b res) \<Rightarrow> 'b res" where
  "andThen r f = (case r of Inl e \<Rightarrow> Inl e | Inr a \<Rightarrow> f a)"

lemma andThen_simps [simp]: "andThen (Inl e) f = Inl e" "andThen (Inr a) f = f a"
  by (simp_all add: andThen_def)

lemma as_simps [simp]:
  "as_obj (JObj fs) = Inr fs" "as_str (JStr s) = Inr s" "as_int (JNum i) = Inr i" "as_bool (JBool b) = Inr b"
  "as_str JNull = Inr []" "as_int JNull = Inr 0" "as_bool JNull = Inr False" "as_obj JNull = Inr []"
  by (simp_all add: as_obj_def as_str_def as_int_def as_bool_def)

lemma all_ok_map: "(\<And>x. x \<in> set xs \<Longrightarrow> f (g x) = Inr (h x)) \<Longrightarrow> all_ok (map (\<lambda>x. f (g x)) xs) = Inr (map h xs)"
  by (induction xs) auto

lemma as_slice_of_slice:
  assumes "\<And>x. f (wire (g x)) = Inr (h x)"
  shows "as_slice f (wire (of_slice g xs)) = Inr (map_option (map h) xs)"
  using all_ok_map [of _ f "\<lambda>x. wire (g x)" h] assms
  by (cases xs) (simp_all add: as_slice_def of_slice_def wire_elems_map comp_def)

end
