(* ===== verification/Stream_Ring.thy ===== *)
theory Stream_Ring imports Prelude begin

text \<open>
  Package \<open>internal/stream\<close>, files \<open>event.go\<close> and \<open>ringbuffer.go\<close>: the event vocabulary and
  the bounded per-sandbox retention buffer.

  The abstract specification of a retention buffer is the list of every event it was ever
  given (its history), with sequence numbers \<open>1, 2, 3, ...\<close>. The locale \<open>retention\<close> states what
  a client may rely on; \<open>ring\<close> is proved to provide it. Sequence numbers are 64-bit words, and
  the laws hold for histories shorter than \<open>2^64 - 1\<close>.
\<close>

section \<open>event.go\<close>

type_synonym EventKind = string

definition EventStarted :: EventKind where "EventStarted = ''started''"
definition EventStdout :: EventKind where "EventStdout = ''stdout''"
definition EventStderr :: EventKind where "EventStderr = ''stderr''"
definition EventFinished :: EventKind where "EventFinished = ''finished''"
definition EventKilled :: EventKind where "EventKilled = ''killed''"
definition EventBlocked :: EventKind where "EventBlocked = ''blocked''"
definition EventReleased :: EventKind where "EventReleased = ''released''"
definition EventGap :: EventKind where "EventGap = ''gap''"

lemmas event_kind_defs = EventStarted_def EventStdout_def EventStderr_def EventFinished_def
  EventKilled_def EventBlocked_def EventReleased_def EventGap_def

record Event =
  Seq :: u64
  SandboxID :: string
  Kind :: EventKind
  At :: int
  ExecID :: string
  Data :: string
  Command :: string
  WorkDir :: string
  ExitCode :: int
  DurationMs :: int
  Truncated :: bool
  ByActor :: string
  Reason :: string
  MissedEvents :: u64

text \<open>Go's zero value, which an event literal starts from.\<close>

definition zeroEvent :: Event where
  "zeroEvent = \<lparr>Seq = 0, SandboxID = [], Kind = [], At = 0, ExecID = [], Data = [], Command = [],
     WorkDir = [], ExitCode = 0, DurationMs = 0, Truncated = False, ByActor = [], Reason = [],
     MissedEvents = 0\<rparr>"

definition event_size :: "Event \<Rightarrow> nat" where
  "event_size e = length (Data e) + length (Command e) + length (WorkDir e) + length (Reason e) + 256"

section \<open>ringbuffer.go\<close>

definition DefaultStreamBufferBytes :: int where
  "DefaultStreamBufferBytes = 256 * 1024"

record ring =
  limitBytes :: int
  bytes :: nat
  events :: "Event list"
  nextSeq :: u64

definition newRing :: "int \<Rightarrow> ring" where
  "newRing lim =
     \<lparr>limitBytes = (if lim \<le> 0 then DefaultStreamBufferBytes else lim), bytes = 0, events = [], nextSeq = 1\<rparr>"

text \<open>The eviction loop of \<open>append\<close>: at least one event stays, whatever its size.\<close>

fun evict :: "int \<Rightarrow> nat \<Rightarrow> Event list \<Rightarrow> nat \<times> Event list" where
  "evict lim b (e1 # e2 # es) =
     (if lim < int b then evict lim (b - event_size e1) (e2 # es) else (b, e1 # e2 # es))"
| "evict lim b es = (b, es)"

definition ring_append :: "ring \<Rightarrow> Event \<Rightarrow> ring \<times> Event" where
  "ring_append r e =
     (let e' = e\<lparr>Seq := nextSeq r\<rparr>;
          (b, es) = evict (limitBytes r) (bytes r + event_size e') (events r @ [e'])
      in (r\<lparr>nextSeq := nextSeq r + 1, events := es, bytes := b\<rparr>, e'))"

fun from_seq :: "u64 \<Rightarrow> Event list \<Rightarrow> Event list" where
  "from_seq seq [] = []"
| "from_seq seq (e # es) = (if seq < Seq e then e # es else from_seq seq es)"

definition ring_since :: "ring \<Rightarrow> u64 \<Rightarrow> Event list \<times> u64" where
  "ring_since r seq =
     (case events r of
        [] \<Rightarrow> ([], 0)
      | e # es \<Rightarrow>
          (let oldest = Seq e;
               missed = (if seq + 1 < oldest then oldest - seq - 1 else 0)
           in (from_seq seq (e # es), missed)))"

definition lastSeq :: "ring \<Rightarrow> u64" where
  "lastSeq r = (if events r = [] then 0 else Seq (last (events r)))"

section \<open>Eviction\<close>

abbreviation total_size :: "Event list \<Rightarrow> nat" where
  "total_size es \<equiv> sum_list (map event_size es)"

lemma event_size_Seq [simp]: "event_size (e\<lparr>Seq := s\<rparr>) = event_size e"
  by (simp add: event_size_def)

lemma event_size_pos [simp]: "0 < event_size e"
  by (simp add: event_size_def)

lemma evict_drop:
  assumes "b = total_size es"
  obtains k where "snd (evict lim b es) = drop k es" "fst (evict lim b es) = total_size (drop k es)"
    and "es \<noteq> [] \<Longrightarrow> k < length es"
    and "Suc k < length es \<Longrightarrow> int (total_size (drop k es)) \<le> lim"
    and "\<And>j. j < k \<Longrightarrow> lim < int (total_size (drop j es))"
  using assms
proof (induction lim b es arbitrary: thesis rule: evict.induct)
  case (1 lim b e1 e2 es)
  show ?case
  proof (cases "lim < int b")
    case True
    have "b - event_size e1 = total_size (e2 # es)"
      using "1.prems"(2) by simp
    from "1.IH" [OF True _ this] obtain k where
      k: "snd (evict lim (b - event_size e1) (e2 # es)) = drop k (e2 # es)"
        "fst (evict lim (b - event_size e1) (e2 # es)) = total_size (drop k (e2 # es))"
        "k < length (e2 # es)"
        "Suc k < length (e2 # es) \<Longrightarrow> int (total_size (drop k (e2 # es))) \<le> lim"
        "\<And>j. j < k \<Longrightarrow> lim < int (total_size (drop j (e2 # es)))"
      by auto
    have "lim < int (total_size (drop j (e1 # e2 # es)))" if "j < Suc k" for j
      using that k(5) True "1.prems"(2) by (cases j) auto
    with k True show ?thesis
      by (intro "1.prems"(1) [of "Suc k"]) auto
  next
    case False
    with "1.prems"(2) show ?thesis
      by (intro "1.prems"(1) [of 0]) auto
  qed
qed (auto intro: that)

section \<open>The history a ring retains a suffix of\<close>

text \<open>
  \<open>ring_repr r h\<close>: \<open>h\<close> is every event the ring was given, stamped \<open>1, 2, ...\<close>; the ring holds the
  longest suffix of it that fits the budget, and one event when not even that fits.
\<close>

definition ring_repr :: "ring \<Rightarrow> Event list \<Rightarrow> bool" where
  "ring_repr r h \<longleftrightarrow>
     0 < limitBytes r \<and>
     map (\<lambda>e. unat (Seq e)) h = [1..<Suc (length h)] \<and>
     unat (nextSeq r) = Suc (length h) \<and>
     (\<exists>k. events r = drop k h \<and> k \<le> length h \<and> (h \<noteq> [] \<longrightarrow> k < length h) \<and>
        (\<forall>j<k. limitBytes r < int (total_size (drop j h)))) \<and>
     bytes r = total_size (events r) \<and>
     (1 < length (events r) \<longrightarrow> int (bytes r) \<le> limitBytes r)"

lemma ring_repr_new: "ring_repr (newRing lim) []"
  by (auto simp: ring_repr_def newRing_def DefaultStreamBufferBytes_def)

lemma ring_append_stamp: "Seq (snd (ring_append r e)) = nextSeq r"
  by (simp add: ring_append_def Let_def split: prod.splits)

lemma ring_append_event: "snd (ring_append r e) = e\<lparr>Seq := nextSeq r\<rparr>"
  by (simp add: ring_append_def Let_def split: prod.splits)

lemma total_size_drop_append: "j \<le> length h \<Longrightarrow> total_size (drop j (h @ es)) = total_size (drop j h) + total_size es"
  by simp

lemma ring_repr_append:
  assumes rep: "ring_repr r h" and room: "Suc (Suc (length h)) < 2 ^ 64"
  shows "ring_repr (fst (ring_append r e)) (h @ [snd (ring_append r e)])"
proof -
  define e' where "e' = e\<lparr>Seq := nextSeq r\<rparr>"
  obtain k where k: "events r = drop k h" "k \<le> length h" "h \<noteq> [] \<Longrightarrow> k < length h"
    "\<And>j. j < k \<Longrightarrow> limitBytes r < int (total_size (drop j h))"
    using rep by (auto simp: ring_repr_def)
  have bytes: "bytes r + event_size e' = total_size (events r @ [e'])"
    using rep by (simp add: ring_repr_def)
  obtain m where m: "snd (evict (limitBytes r) (bytes r + event_size e') (events r @ [e'])) = drop m (events r @ [e'])"
    "fst (evict (limitBytes r) (bytes r + event_size e') (events r @ [e'])) = total_size (drop m (events r @ [e']))"
    "m < length (events r @ [e'])"
    "Suc m < length (events r @ [e']) \<Longrightarrow> int (total_size (drop m (events r @ [e']))) \<le> limitBytes r"
    "\<And>j. j < m \<Longrightarrow> limitBytes r < int (total_size (drop j (events r @ [e'])))"
    by (rule evict_drop [OF bytes, where lim = "limitBytes r"]) blast
  have fit: "events r @ [e'] = drop k (h @ [e'])" using k by simp
  have app: "ring_append r e = (r\<lparr>nextSeq := nextSeq r + 1, events := drop (m + k) (h @ [e']),
      bytes := total_size (drop (m + k) (h @ [e']))\<rparr>, e')"
    using m(1,2) by (simp add: ring_append_def e'_def [symmetric] Let_def fit split_beta add.commute del: drop_append)
  have mk: "m + k < length (h @ [e'])"
    using m(3) k(1,2) by simp
  have big: "limitBytes r < int (total_size (drop j (h @ [e'])))" if "j < m + k" for j
  proof (cases "j < k")
    case True
    with k(2) k(4) [of j] show ?thesis by simp
  next
    case False
    with that have "j - k < m" by simp
    from m(5) [OF this] False show ?thesis by (simp add: fit del: drop_append)
  qed
  have len: "length (drop (m + k) (h @ [e'])) = length (events r @ [e']) - m"
    using k(1,2) by simp
  have small: "1 < length (drop (m + k) (h @ [e'])) \<longrightarrow> int (total_size (drop (m + k) (h @ [e']))) \<le> limitBytes r"
    using m(4) len by (simp add: fit add.commute del: drop_append)
  have nxt: "unat (nextSeq r + 1) = Suc (unat (nextSeq r))"
    using rep room by (simp add: ring_repr_def unat_word_ariths)
  have seqs: "map (\<lambda>e. unat (Seq e)) (h @ [e']) = [1..<Suc (length (h @ [e']))]"
    using rep by (simp add: ring_repr_def e'_def)
  show ?thesis
    unfolding ring_repr_def app fst_conv snd_conv
    using rep nxt seqs mk big small by (auto simp: ring_repr_def simp del: drop_append intro!: exI [of _ "m + k"])
qed

section \<open>Replay\<close>

lemma from_seq_sorted:
  assumes "map (\<lambda>e. unat (Seq e)) es = [a..<a + length es]"
  shows "from_seq s es = drop (Suc (unat s) - a) es"
  using assms
proof (induction es arbitrary: a)
  case (Cons e es)
  from Cons.prems have e: "unat (Seq e) = a" and es: "map (\<lambda>e. unat (Seq e)) es = [Suc a..<Suc a + length es]"
    by (simp_all add: upt_conv_Cons del: upt_Suc)
  show ?case
  proof (cases "s < Seq e")
    case True
    then show ?thesis using e by (simp add: word_less_nat_alt)
  next
    case False
    then have "a \<le> unat s" using e by (simp add: word_less_nat_alt)
    with False Cons.IH [OF es] show ?thesis by (simp add: Suc_diff_le)
  qed
qed simp

lemma ring_since_split:
  assumes rep: "ring_repr r h" and s: "unat s \<le> length h"
  shows "drop (unat s) h = take (unat (snd (ring_since r s))) (drop (unat s) h) @ fst (ring_since r s)"
    and "unat (snd (ring_since r s)) + length (fst (ring_since r s)) = length h - unat s"
proof -
  obtain k where k: "events r = drop k h" "k \<le> length h" "h \<noteq> [] \<Longrightarrow> k < length h"
    using rep by (auto simp: ring_repr_def)
  have seqs: "map (\<lambda>e. unat (Seq e)) h = [1..<Suc (length h)]" and nxt: "unat (nextSeq r) = Suc (length h)"
    using rep by (auto simp: ring_repr_def)
  have both: "unat (snd (ring_since r s)) = k - unat s \<and> fst (ring_since r s) = drop (max k (unat s)) h"
  proof (cases "events r")
    case Nil
    with k have "h = []" by (metis drop_eq_Nil linorder_not_le)
    with Nil k s show ?thesis by (simp add: ring_since_def)
  next
    case (Cons e es)
    then have kh: "k < length h" using k by (metis drop_eq_Nil linorder_not_le list.distinct(1))
    have es: "map (\<lambda>e. unat (Seq e)) (e # es) = [Suc k..<Suc k + length (e # es)]"
      using seqs k(1,2) kh Cons by (metis (no_types, lifting) add_Suc_right drop_map drop_upt length_drop le_add_diff_inverse plus_1_eq_Suc add.commute add_Suc)
    then have e: "unat (Seq e) = Suc k" by (simp add: upt_conv_Cons del: upt_Suc)
    have s1: "unat (s + 1) = Suc (unat s)"
      using s nxt unsigned_less [of "nextSeq r", where ?'a = nat] by (simp add: unat_word_ariths)
    have "unat (Seq e - s - 1) = k - unat s" if "unat s < k"
    proof -
      have "s + 1 \<le> Seq e" using that e s1 by (simp add: word_le_nat_alt)
      then have "unat (Seq e - (s + 1)) = unat (Seq e) - unat (s + 1)" by (rule unat_sub)
      with e s1 show ?thesis by (simp add: diff_diff_eq)
    qed
    moreover have "s + 1 < Seq e \<longleftrightarrow> unat s < k" using e s1 by (simp add: word_less_nat_alt)
    moreover have "from_seq s (e # es) = drop (unat s - k) (drop k h)"
      using from_seq_sorted [OF es] Cons k(1) by simp
    ultimately show ?thesis
      by (auto simp: ring_since_def Cons Let_def max_def)
  qed
  then show "unat (snd (ring_since r s)) + length (fst (ring_since r s)) = length h - unat s"
    using k(2) s by (auto simp: max_def)
  show "drop (unat s) h = take (unat (snd (ring_since r s))) (drop (unat s) h) @ fst (ring_since r s)"
    using both k(2) append_take_drop_id [of "k - unat s" "drop (unat s) h"]
    by (cases "unat s \<le> k") (auto simp: max_def)
qed

lemma lastSeq_history:
  assumes "ring_repr r h" shows "unat (lastSeq r) = length h"
proof -
  obtain k where k: "events r = drop k h" "h \<noteq> [] \<Longrightarrow> k < length h"
    using assms by (auto simp: ring_repr_def)
  have seqs: "map (\<lambda>e. unat (Seq e)) h = [1..<Suc (length h)]" using assms by (simp add: ring_repr_def)
  show ?thesis
  proof (cases "h = []")
    case False
    then have "unat (Seq (last h)) = length h"
      using seqs by (metis (no_types, lifting) One_nat_def Suc_leI last_map last_snoc length_greater_0_conv upt_Suc)
    with False k show ?thesis by (simp add: lastSeq_def)
  qed (use k in \<open>simp add: lastSeq_def\<close>)
qed

section \<open>The interface\<close>

text \<open>
  What a fan-out may rely on: appending extends the history by exactly the stamped event, and
  asking for everything after \<open>s\<close> accounts for every event of the history after \<open>s\<close>: the ones
  returned are its end, the ones missing are counted.
\<close>

locale retention =
  fixes append :: "'r \<Rightarrow> Event \<Rightarrow> 'r \<times> Event"
    and since :: "'r \<Rightarrow> u64 \<Rightarrow> Event list \<times> u64"
    and repr :: "'r \<Rightarrow> Event list \<Rightarrow> bool"
  assumes append_repr: "repr r h \<Longrightarrow> Suc (Suc (length h)) < 2 ^ 64 \<Longrightarrow>
      repr (fst (append r e)) (h @ [snd (append r e)])"
    and since_suffix: "repr r h \<Longrightarrow> unat s \<le> length h \<Longrightarrow>
      drop (unat s) h = take (unat (snd (since r s))) (drop (unat s) h) @ fst (since r s)"
    and since_counts: "repr r h \<Longrightarrow> unat s \<le> length h \<Longrightarrow>
      unat (snd (since r s)) + length (fst (since r s)) = length h - unat s"
begin

fun append_all :: "'r \<Rightarrow> Event list \<Rightarrow> 'r \<times> Event list" where
  "append_all r [] = (r, [])"
| "append_all r (e # es) =
     (let (r', e') = append r e; (r'', es') = append_all r' es in (r'', e' # es'))"

lemma append_all_repr:
  assumes "repr r h" "Suc (length h + length es) < 2 ^ 64"
  shows "repr (fst (append_all r es)) (h @ snd (append_all r es)) \<and> length (snd (append_all r es)) = length es"
  using assms
proof (induction es arbitrary: r h)
  case (Cons e es)
  have "repr (fst (append r e)) (h @ [snd (append r e)])"
    using Cons.prems by (intro append_repr) auto
  from Cons.IH [OF this] Cons.prems(2) show ?case
    by (simp add: Let_def split_beta)
qed simp

text \<open>A watcher that saw everything up to \<open>s\<close> is told about, or given, all that came since.\<close>

lemma resume_after_appends:
  assumes "repr r h" "Suc (length h + length es) < 2 ^ 64" "unat s = length h"
  shows "unat (snd (since (fst (append_all r es)) s)) + length (fst (since (fst (append_all r es)) s)) = length es"
  using append_all_repr [OF assms(1,2)] assms(3)
    since_counts [of "fst (append_all r es)" "h @ snd (append_all r es)" s]
  by simp

end

interpretation rg: retention ring_append ring_since ring_repr
  by unfold_locales (auto intro: ring_repr_append ring_since_split)

end
