(* ===== verification/Worker_Proto.thy ===== *)
theory Worker_Proto imports Go_Json Stream_Ring begin

text \<open>
  Package \<open>internal/workerproto\<close>: the wire vocabulary between the server and its execution
  workers. The size limits are Go \<open>int\<close>s and are kept as signed 64-bit words, because the
  server sizes a socket from numbers a peer chose. A \<open>json.RawMessage\<close> is the tree it holds.
\<close>

section \<open>Limits\<close>

definition ProtocolVersion :: int where "ProtocolVersion = 1"

record Limits =
  MaxOutputBytes :: u64
  MaxFileBytes :: u64

definition escapeAllowance :: u64 where "escapeAllowance = 2"
definition envelopeBytes :: u64 where "envelopeBytes = push_bit 10 64"
definition HelloFrameBytes :: u64 where "HelloFrameBytes = push_bit 10 8"
definition MaxNegotiatedFrameBytes :: u64 where "MaxNegotiatedFrameBytes = push_bit 20 64"

lemmas limit_consts = escapeAllowance_def envelopeBytes_def MaxNegotiatedFrameBytes_def HelloFrameBytes_def

definition max_s :: "u64 \<Rightarrow> u64 \<Rightarrow> u64" where
  "max_s a b = (if a <s b then b else a)"

definition FrameBytes :: "Limits \<Rightarrow> u64" where
  "FrameBytes l =
     (let payload = max_s (2 * MaxOutputBytes l) (MaxFileBytes l)
      in escapeAllowance * payload + envelopeBytes)"

definition MaxPayloadBytes :: "Limits \<Rightarrow> u64" where
  "MaxPayloadBytes l = FrameBytes l - envelopeBytes"

definition Validate :: "Limits \<Rightarrow> gerr option" where
  "Validate l =
     (if MaxOutputBytes l \<le>s 0
      then Some (Plain (''max output bytes is '' @ show_int (sint (MaxOutputBytes l)) @ '', which would return no command output at all''))
      else if MaxFileBytes l \<le>s 0
      then Some (Plain (''max file bytes is '' @ show_int (sint (MaxFileBytes l)) @ '', which would refuse every file operation''))
      else if MaxNegotiatedFrameBytes <s FrameBytes l
      then Some (Plain (''limits need a '' @ show_int (sint (FrameBytes l)) @ ''-byte frame, over the ''
             @ show_int (sint MaxNegotiatedFrameBytes) @ ''-byte ceiling''))
      else None)"

lemma sint_add_no_wrap:
  fixes a b :: u64
  assumes "- (2 ^ 63) \<le> sint a + sint b" "sint a + sint b < 2 ^ 63"
  shows "sint (a + b) = sint a + sint b"
  using assms by (simp add: sint_word_ariths signed_take_bit_int_eq_self)

lemma sint_double_no_wrap:
  fixes a :: u64
  assumes "- (2 ^ 62) \<le> sint a" "sint a < 2 ^ 62"
  shows "sint (2 * a) = 2 * sint a"
  using sint_add_no_wrap [of a a] assms by simp

lemma sint_max_s: "sint (max_s a b) = max (sint a) (sint b)"
  by (simp add: max_s_def word_sless_alt max_def)

text \<open>The arithmetic is exact while the declared limits stay below 2^60.\<close>

lemma FrameBytes_exact:
  assumes "0 \<le> sint (MaxOutputBytes l)" "sint (MaxOutputBytes l) < 2 ^ 60"
    and "0 \<le> sint (MaxFileBytes l)" "sint (MaxFileBytes l) < 2 ^ 60"
  shows "sint (FrameBytes l) = 2 * max (2 * sint (MaxOutputBytes l)) (sint (MaxFileBytes l)) + 65536"
    and "sint (MaxPayloadBytes l) = 2 * max (2 * sint (MaxOutputBytes l)) (sint (MaxFileBytes l))"
proof -
  let ?p = "max_s (2 * MaxOutputBytes l) (MaxFileBytes l)"
  have p: "sint ?p = max (2 * sint (MaxOutputBytes l)) (sint (MaxFileBytes l))"
    using assms by (simp add: sint_max_s sint_double_no_wrap)
  then have pp: "sint (2 * ?p) = 2 * max (2 * sint (MaxOutputBytes l)) (sint (MaxFileBytes l))"
    using assms by (subst sint_double_no_wrap) (auto simp: max_def)
  then show "sint (FrameBytes l) = 2 * max (2 * sint (MaxOutputBytes l)) (sint (MaxFileBytes l)) + 65536"
    using assms by (simp add: FrameBytes_def limit_consts Let_def sint_add_no_wrap)
  show "sint (MaxPayloadBytes l) = 2 * max (2 * sint (MaxOutputBytes l)) (sint (MaxFileBytes l))"
    using pp by (simp add: MaxPayloadBytes_def FrameBytes_def limit_consts Let_def)
qed

section \<open>Frames\<close>

type_synonym FrameType = string
type_synonym Op = string

definition FrameHello :: FrameType where "FrameHello = ''hello''"
definition FrameRequest :: FrameType where "FrameRequest = ''request''"
definition FrameCancel :: FrameType where "FrameCancel = ''cancel''"
definition FrameResult :: FrameType where "FrameResult = ''result''"
definition FrameEvent :: FrameType where "FrameEvent = ''event''"

lemmas frame_types = FrameHello_def FrameRequest_def FrameCancel_def FrameResult_def FrameEvent_def

definition OpExec :: Op where "OpExec = ''exec''"
definition OpReadFile :: Op where "OpReadFile = ''read_file''"
definition OpWriteFile :: Op where "OpWriteFile = ''write_file''"
definition OpListDir :: Op where "OpListDir = ''list_dir''"
definition OpDeleteFile :: Op where "OpDeleteFile = ''delete_file''"
definition OpStatus :: Op where "OpStatus = ''status''"
definition OpKill :: Op where "OpKill = ''kill''"

lemmas ops = OpExec_def OpReadFile_def OpWriteFile_def OpListDir_def OpDeleteFile_def OpStatus_def OpKill_def

definition ErrPayloadTooLarge :: "Op \<Rightarrow> int \<Rightarrow> int \<Rightarrow> gerr" where
  "ErrPayloadTooLarge op sz lim =
     Plain (op @ '' payload is '' @ show_int sz @ '' bytes, over the '' @ show_int lim @ ''-byte limit one message may carry'')"

definition ErrFileTooLarge :: "string \<Rightarrow> int \<Rightarrow> int \<Rightarrow> gerr" where
  "ErrFileTooLarge path sz lim =
     Plain (''file '' @ path @ '' is '' @ show_int sz @ '' bytes, over this worker's '' @ show_int lim @ ''-byte limit for one file'')"

record Frame =
  Type :: FrameType
  ID :: u64
  WorkerID :: string
  Version :: string
  FLimits :: "Limits option"
  Protocol :: int
  Agents :: "string list"
  AgentID :: string
  FOp :: Op
  Payload :: "json option"
  OK :: bool
  Error :: string
  FEvent :: "Event option"

text \<open>Go's zero frame.\<close>

definition zeroFrame :: Frame where
  "zeroFrame = \<lparr>Type = [], ID = 0, WorkerID = [], Version = [], FLimits = None, Protocol = 0, Agents = [],
     AgentID = [], FOp = [], Payload = None, OK = False, Error = [], FEvent = None\<rparr>"

text \<open>Fields marked \<open>omitempty\<close>.\<close>

definition opt_str :: "string \<Rightarrow> string \<Rightarrow> (string \<times> json) list" where
  "opt_str k s = (if s = [] then [] else [(k, JStr s)])"

definition opt_int :: "string \<Rightarrow> int \<Rightarrow> (string \<times> json) list" where
  "opt_int k i = (if i = 0 then [] else [(k, JNum i)])"

definition opt_bool :: "string \<Rightarrow> bool \<Rightarrow> (string \<times> json) list" where
  "opt_bool k b = (if b then [(k, JBool True)] else [])"

lemmas opt_defs = opt_str_def opt_int_def opt_bool_def

definition limits_json :: "Limits \<Rightarrow> json" where
  "limits_json l = JObj [(''max_output_bytes'', JNum (sint (MaxOutputBytes l))), (''max_file_bytes'', JNum (sint (MaxFileBytes l)))]"

text \<open>\<open>tm\<close> prints a time as \<open>time.Time\<close> marshals itself.\<close>

definition event_json :: "(int \<Rightarrow> string) \<Rightarrow> Event \<Rightarrow> json" where
  "event_json tm e = JObj
     ([(''seq'', JNum (uint (Seq e))), (''sandbox_id'', JStr (SandboxID e)), (''kind'', JStr (Kind e)), (''at'', JStr (tm (At e)))]
      @ opt_str ''exec_id'' (ExecID e) @ opt_str ''data'' (Data e) @ opt_str ''command'' (Command e)
      @ opt_str ''work_dir'' (WorkDir e) @ opt_int ''exit_code'' (ExitCode e) @ opt_int ''duration_ms'' (DurationMs e)
      @ opt_bool ''truncated'' (Truncated e) @ opt_str ''by_actor'' (ByActor e) @ opt_str ''reason'' (Reason e)
      @ opt_int ''missed_events'' (uint (MissedEvents e)))"

definition frame_json :: "(int \<Rightarrow> string) \<Rightarrow> Frame \<Rightarrow> json" where
  "frame_json tm f = JObj
     ([(''type'', JStr (Type f))] @ opt_int ''id'' (uint (ID f))
      @ opt_str ''worker_id'' (WorkerID f) @ opt_str ''version'' (Version f)
      @ (case FLimits f of None \<Rightarrow> [] | Some l \<Rightarrow> [(''limits'', limits_json l)])
      @ opt_int ''protocol'' (Protocol f)
      @ (if Agents f = [] then [] else [(''agents'', JArr (map JStr (Agents f)))])
      @ opt_str ''agent_id'' (AgentID f) @ opt_str ''op'' (FOp f)
      @ (case Payload f of None \<Rightarrow> [] | Some j \<Rightarrow> [(''payload'', j)])
      @ opt_bool ''ok'' (OK f) @ opt_str ''error'' (Error f)
      @ (case FEvent f of None \<Rightarrow> [] | Some e \<Rightarrow> [(''event'', event_json tm e)]))"

section \<open>Payloads\<close>

record ExecRequest =
  er_Command :: string
  er_Args :: "string list option"
  er_TimeoutSec :: int
  er_WorkDir :: string

record ExecResponse =
  ex_ExecID :: string
  ex_Stdout :: string
  ex_Stderr :: string
  ex_ExitCode :: int
  ex_DurationMs :: int
  ex_Truncated :: bool
  ex_ErrorKind :: string

definition zeroExecResponse :: ExecResponse where
  "zeroExecResponse = \<lparr>ex_ExecID = [], ex_Stdout = [], ex_Stderr = [], ex_ExitCode = 0, ex_DurationMs = 0,
     ex_Truncated = False, ex_ErrorKind = []\<rparr>"

definition ErrorKindTimeout :: string where "ErrorKindTimeout = ''timeout''"
definition ErrorKindStopped :: string where "ErrorKindStopped = ''stopped''"

record ReadFileRequest = rfq_Path :: string
record ReadFileResponse =
  rfs_Path :: string
  rfs_Content :: string
record WriteFileRequest =
  wfq_Path :: string
  wfq_Content :: string
record WriteFileResponse =
  wfs_Path :: string
  wfs_Bytes :: int
record ListDirRequest = ldq_Path :: string

text \<open>\<open>fi_ModTime\<close> is the RFC 3339 text \<open>time.Time\<close> marshals as.\<close>

record FileInfo =
  fi_Name :: string
  fi_Path :: string
  fi_IsDir :: bool
  fi_Size :: int
  fi_ModTime :: string
record ListDirResponse =
  lds_Path :: string
  lds_Files :: "FileInfo list option"
record DeleteFileRequest = dfq_Path :: string
record DeleteFileResponse =
  dfs_Path :: string
  dfs_Existed :: bool
  dfs_WasDirectory :: bool
record StatusResponse =
  st_RootDir :: string
  st_DefaultTimeout :: string
  st_MaxOutputBytes :: int
  st_EnvNames :: "string list option"
  st_RunningCommands :: int
  st_WorkerID :: string
record KillRequest =
  kq_ByActor :: string
  kq_Reason :: string
record KillResponse = ks_Killed :: int

subsection \<open>Marshal\<close>

definition exec_request_json :: "ExecRequest \<Rightarrow> json" where
  "exec_request_json r = JObj
     ([(''command'', JStr (er_Command r))]
      @ (case er_Args r of None \<Rightarrow> [] | Some as \<Rightarrow> if as = [] then [] else [(''args'', JArr (map JStr as))])
      @ opt_int ''timeout_sec'' (er_TimeoutSec r) @ opt_str ''work_dir'' (er_WorkDir r))"

definition exec_response_json :: "ExecResponse \<Rightarrow> json" where
  "exec_response_json r = JObj
     ([(''exec_id'', JStr (ex_ExecID r)), (''stdout'', JStr (ex_Stdout r)), (''stderr'', JStr (ex_Stderr r)),
       (''exit_code'', JNum (ex_ExitCode r)), (''duration_ms'', JNum (ex_DurationMs r)),
       (''truncated'', JBool (ex_Truncated r))] @ opt_str ''error_kind'' (ex_ErrorKind r))"

definition read_request_json :: "ReadFileRequest \<Rightarrow> json" where
  "read_request_json r = JObj [(''path'', JStr (rfq_Path r))]"
definition read_response_json :: "ReadFileResponse \<Rightarrow> json" where
  "read_response_json r = JObj [(''path'', JStr (rfs_Path r)), (''content'', JStr (rfs_Content r))]"
definition write_request_json :: "WriteFileRequest \<Rightarrow> json" where
  "write_request_json r = JObj [(''path'', JStr (wfq_Path r)), (''content'', JStr (wfq_Content r))]"
definition write_response_json :: "WriteFileResponse \<Rightarrow> json" where
  "write_response_json r = JObj [(''path'', JStr (wfs_Path r)), (''bytes'', JNum (wfs_Bytes r))]"
definition list_request_json :: "ListDirRequest \<Rightarrow> json" where
  "list_request_json r = JObj [(''path'', JStr (ldq_Path r))]"
definition file_info_json :: "FileInfo \<Rightarrow> json" where
  "file_info_json f = JObj
     [(''name'', JStr (fi_Name f)), (''path'', JStr (fi_Path f)), (''is_dir'', JBool (fi_IsDir f)),
      (''size'', JNum (fi_Size f)), (''mod_time'', JStr (fi_ModTime f))]"
definition list_response_json :: "ListDirResponse \<Rightarrow> json" where
  "list_response_json r = JObj [(''path'', JStr (lds_Path r)), (''files'', of_slice file_info_json (lds_Files r))]"
definition delete_request_json :: "DeleteFileRequest \<Rightarrow> json" where
  "delete_request_json r = JObj [(''path'', JStr (dfq_Path r))]"
definition delete_response_json :: "DeleteFileResponse \<Rightarrow> json" where
  "delete_response_json r = JObj
     [(''path'', JStr (dfs_Path r)), (''existed'', JBool (dfs_Existed r)), (''was_directory'', JBool (dfs_WasDirectory r))]"
definition status_request_json :: json where "status_request_json = JObj []"
definition status_response_json :: "StatusResponse \<Rightarrow> json" where
  "status_response_json r = JObj
     [(''root_dir'', JStr (st_RootDir r)), (''default_timeout'', JStr (st_DefaultTimeout r)),
      (''max_output_bytes'', JNum (st_MaxOutputBytes r)), (''env_names'', of_slice JStr (st_EnvNames r)),
      (''running_commands'', JNum (st_RunningCommands r)), (''worker_id'', JStr (st_WorkerID r))]"
definition kill_request_json :: "KillRequest \<Rightarrow> json" where
  "kill_request_json r = JObj [(''by_actor'', JStr (kq_ByActor r)), (''reason'', JStr (kq_Reason r))]"
definition kill_response_json :: "KillResponse \<Rightarrow> json" where
  "kill_response_json r = JObj [(''killed'', JNum (ks_Killed r))]"

lemmas marshal_defs = exec_request_json_def exec_response_json_def read_request_json_def read_response_json_def
  write_request_json_def write_response_json_def list_request_json_def file_info_json_def list_response_json_def
  delete_request_json_def delete_response_json_def status_request_json_def status_response_json_def
  kill_request_json_def kill_response_json_def

end
