(* ===== verification/Worker_Wire.thy ===== *)
theory Worker_Wire imports Worker_Proto begin

text \<open>
  Package \<open>internal/workerproto\<close>, continued: \<open>Unmarshal\<close> for each payload type, field by field
  as the struct tags name them, and what a payload is on the far side of the wire: itself, with
  every byte that was not well-formed UTF-8 replaced.
\<close>

section \<open>Unmarshal\<close>

definition un_exec_request :: "json \<Rightarrow> ExecRequest res" where
  "un_exec_request j = andThen (as_obj j) (\<lambda>fs.
     andThen (as_str (fld fs ''command'')) (\<lambda>x0.
     andThen (as_slice as_str (fld fs ''args'')) (\<lambda>x1.
     andThen (as_int (fld fs ''timeout_sec'')) (\<lambda>x2.
     andThen (as_str (fld fs ''work_dir'')) (\<lambda>x3.
     Inr \<lparr>er_Command = x0, er_Args = x1, er_TimeoutSec = x2, er_WorkDir = x3\<rparr>)))))"

definition un_exec_response :: "json \<Rightarrow> ExecResponse res" where
  "un_exec_response j = andThen (as_obj j) (\<lambda>fs.
     andThen (as_str (fld fs ''exec_id'')) (\<lambda>x0.
     andThen (as_str (fld fs ''stdout'')) (\<lambda>x1.
     andThen (as_str (fld fs ''stderr'')) (\<lambda>x2.
     andThen (as_int (fld fs ''exit_code'')) (\<lambda>x3.
     andThen (as_int (fld fs ''duration_ms'')) (\<lambda>x4.
     andThen (as_bool (fld fs ''truncated'')) (\<lambda>x5.
     andThen (as_str (fld fs ''error_kind'')) (\<lambda>x6.
     Inr \<lparr>ex_ExecID = x0, ex_Stdout = x1, ex_Stderr = x2, ex_ExitCode = x3, ex_DurationMs = x4, ex_Truncated = x5, ex_ErrorKind = x6\<rparr>))))))))"

definition un_read_request :: "json \<Rightarrow> ReadFileRequest res" where
  "un_read_request j = andThen (as_obj j) (\<lambda>fs.
     andThen (as_str (fld fs ''path'')) (\<lambda>x0.
     Inr \<lparr>rfq_Path = x0\<rparr>))"

definition un_read_response :: "json \<Rightarrow> ReadFileResponse res" where
  "un_read_response j = andThen (as_obj j) (\<lambda>fs.
     andThen (as_str (fld fs ''path'')) (\<lambda>x0.
     andThen (as_str (fld fs ''content'')) (\<lambda>x1.
     Inr \<lparr>rfs_Path = x0, rfs_Content = x1\<rparr>)))"

definition un_write_request :: "json \<Rightarrow> WriteFileRequest res" where
  "un_write_request j = andThen (as_obj j) (\<lambda>fs.
     andThen (as_str (fld fs ''path'')) (\<lambda>x0.
     andThen (as_str (fld fs ''content'')) (\<lambda>x1.
     Inr \<lparr>wfq_Path = x0, wfq_Content = x1\<rparr>)))"

definition un_write_response :: "json \<Rightarrow> WriteFileResponse res" where
  "un_write_response j = andThen (as_obj j) (\<lambda>fs.
     andThen (as_str (fld fs ''path'')) (\<lambda>x0.
     andThen (as_int (fld fs ''bytes'')) (\<lambda>x1.
     Inr \<lparr>wfs_Path = x0, wfs_Bytes = x1\<rparr>)))"

definition un_list_request :: "json \<Rightarrow> ListDirRequest res" where
  "un_list_request j = andThen (as_obj j) (\<lambda>fs.
     andThen (as_str (fld fs ''path'')) (\<lambda>x0.
     Inr \<lparr>ldq_Path = x0\<rparr>))"

definition un_file_info :: "json \<Rightarrow> FileInfo res" where
  "un_file_info j = andThen (as_obj j) (\<lambda>fs.
     andThen (as_str (fld fs ''name'')) (\<lambda>x0.
     andThen (as_str (fld fs ''path'')) (\<lambda>x1.
     andThen (as_bool (fld fs ''is_dir'')) (\<lambda>x2.
     andThen (as_int (fld fs ''size'')) (\<lambda>x3.
     andThen (as_str (fld fs ''mod_time'')) (\<lambda>x4.
     Inr \<lparr>fi_Name = x0, fi_Path = x1, fi_IsDir = x2, fi_Size = x3, fi_ModTime = x4\<rparr>))))))"

definition un_list_response :: "json \<Rightarrow> ListDirResponse res" where
  "un_list_response j = andThen (as_obj j) (\<lambda>fs.
     andThen (as_str (fld fs ''path'')) (\<lambda>x0.
     andThen (as_slice un_file_info (fld fs ''files'')) (\<lambda>x1.
     Inr \<lparr>lds_Path = x0, lds_Files = x1\<rparr>)))"

definition un_delete_request :: "json \<Rightarrow> DeleteFileRequest res" where
  "un_delete_request j = andThen (as_obj j) (\<lambda>fs.
     andThen (as_str (fld fs ''path'')) (\<lambda>x0.
     Inr \<lparr>dfq_Path = x0\<rparr>))"

definition un_delete_response :: "json \<Rightarrow> DeleteFileResponse res" where
  "un_delete_response j = andThen (as_obj j) (\<lambda>fs.
     andThen (as_str (fld fs ''path'')) (\<lambda>x0.
     andThen (as_bool (fld fs ''existed'')) (\<lambda>x1.
     andThen (as_bool (fld fs ''was_directory'')) (\<lambda>x2.
     Inr \<lparr>dfs_Path = x0, dfs_Existed = x1, dfs_WasDirectory = x2\<rparr>))))"

definition un_status_response :: "json \<Rightarrow> StatusResponse res" where
  "un_status_response j = andThen (as_obj j) (\<lambda>fs.
     andThen (as_str (fld fs ''root_dir'')) (\<lambda>x0.
     andThen (as_str (fld fs ''default_timeout'')) (\<lambda>x1.
     andThen (as_int (fld fs ''max_output_bytes'')) (\<lambda>x2.
     andThen (as_slice as_str (fld fs ''env_names'')) (\<lambda>x3.
     andThen (as_int (fld fs ''running_commands'')) (\<lambda>x4.
     andThen (as_str (fld fs ''worker_id'')) (\<lambda>x5.
     Inr \<lparr>st_RootDir = x0, st_DefaultTimeout = x1, st_MaxOutputBytes = x2, st_EnvNames = x3, st_RunningCommands = x4, st_WorkerID = x5\<rparr>)))))))"

definition un_kill_request :: "json \<Rightarrow> KillRequest res" where
  "un_kill_request j = andThen (as_obj j) (\<lambda>fs.
     andThen (as_str (fld fs ''by_actor'')) (\<lambda>x0.
     andThen (as_str (fld fs ''reason'')) (\<lambda>x1.
     Inr \<lparr>kq_ByActor = x0, kq_Reason = x1\<rparr>)))"

definition un_kill_response :: "json \<Rightarrow> KillResponse res" where
  "un_kill_response j = andThen (as_obj j) (\<lambda>fs.
     andThen (as_int (fld fs ''killed'')) (\<lambda>x0.
     Inr \<lparr>ks_Killed = x0\<rparr>))"

section \<open>What the wire does to a payload\<close>

definition san_exec_request :: "ExecRequest \<Rightarrow> ExecRequest" where
  "san_exec_request r = \<lparr>er_Command = to_valid (er_Command r), er_Args = (if er_Args r = Some [] then None else map_option (map to_valid) (er_Args r)), er_TimeoutSec = er_TimeoutSec r, er_WorkDir = to_valid (er_WorkDir r)\<rparr>"

definition san_exec_response :: "ExecResponse \<Rightarrow> ExecResponse" where
  "san_exec_response r = \<lparr>ex_ExecID = to_valid (ex_ExecID r), ex_Stdout = to_valid (ex_Stdout r), ex_Stderr = to_valid (ex_Stderr r), ex_ExitCode = ex_ExitCode r, ex_DurationMs = ex_DurationMs r, ex_Truncated = ex_Truncated r, ex_ErrorKind = to_valid (ex_ErrorKind r)\<rparr>"

definition san_read_request :: "ReadFileRequest \<Rightarrow> ReadFileRequest" where
  "san_read_request r = \<lparr>rfq_Path = to_valid (rfq_Path r)\<rparr>"

definition san_read_response :: "ReadFileResponse \<Rightarrow> ReadFileResponse" where
  "san_read_response r = \<lparr>rfs_Path = to_valid (rfs_Path r), rfs_Content = to_valid (rfs_Content r)\<rparr>"

definition san_write_request :: "WriteFileRequest \<Rightarrow> WriteFileRequest" where
  "san_write_request r = \<lparr>wfq_Path = to_valid (wfq_Path r), wfq_Content = to_valid (wfq_Content r)\<rparr>"

definition san_write_response :: "WriteFileResponse \<Rightarrow> WriteFileResponse" where
  "san_write_response r = \<lparr>wfs_Path = to_valid (wfs_Path r), wfs_Bytes = wfs_Bytes r\<rparr>"

definition san_list_request :: "ListDirRequest \<Rightarrow> ListDirRequest" where
  "san_list_request r = \<lparr>ldq_Path = to_valid (ldq_Path r)\<rparr>"

definition san_file_info :: "FileInfo \<Rightarrow> FileInfo" where
  "san_file_info r = \<lparr>fi_Name = to_valid (fi_Name r), fi_Path = to_valid (fi_Path r), fi_IsDir = fi_IsDir r, fi_Size = fi_Size r, fi_ModTime = to_valid (fi_ModTime r)\<rparr>"

definition san_list_response :: "ListDirResponse \<Rightarrow> ListDirResponse" where
  "san_list_response r = \<lparr>lds_Path = to_valid (lds_Path r), lds_Files = map_option (map san_file_info) (lds_Files r)\<rparr>"

definition san_delete_request :: "DeleteFileRequest \<Rightarrow> DeleteFileRequest" where
  "san_delete_request r = \<lparr>dfq_Path = to_valid (dfq_Path r)\<rparr>"

definition san_delete_response :: "DeleteFileResponse \<Rightarrow> DeleteFileResponse" where
  "san_delete_response r = \<lparr>dfs_Path = to_valid (dfs_Path r), dfs_Existed = dfs_Existed r, dfs_WasDirectory = dfs_WasDirectory r\<rparr>"

definition san_status_response :: "StatusResponse \<Rightarrow> StatusResponse" where
  "san_status_response r = \<lparr>st_RootDir = to_valid (st_RootDir r), st_DefaultTimeout = to_valid (st_DefaultTimeout r), st_MaxOutputBytes = st_MaxOutputBytes r, st_EnvNames = map_option (map to_valid) (st_EnvNames r), st_RunningCommands = st_RunningCommands r, st_WorkerID = to_valid (st_WorkerID r)\<rparr>"

definition san_kill_request :: "KillRequest \<Rightarrow> KillRequest" where
  "san_kill_request r = \<lparr>kq_ByActor = to_valid (kq_ByActor r), kq_Reason = to_valid (kq_Reason r)\<rparr>"

definition san_kill_response :: "KillResponse \<Rightarrow> KillResponse" where
  "san_kill_response r = \<lparr>ks_Killed = ks_Killed r\<rparr>"

text \<open>Reading a key of a tree the other end printed.\<close>

lemma to_valid_ascii: "list_all (\<lambda>c. of_char c < (128::nat)) s \<Longrightarrow> to_valid s = s"
proof (induction s)
  case (Cons c s)
  then have "rune_len (c # s) = 1" by (simp add: rune_len_def Let_def)
  with Cons show ?case by (simp add: to_valid.simps [of "c # s"])
qed simp

text \<open>Only itself becomes an ASCII text: a replacement is never ASCII.\<close>

lemma to_valid_ascii_only: "list_all (\<lambda>c. of_char c < (128::nat)) (to_valid s) \<Longrightarrow> to_valid s = s"
proof (induction s rule: to_valid.induct)
  case (1 s)
  consider "s = []" | "s \<noteq> []" "rune_len s = 0" | "s \<noteq> []" "rune_len s \<noteq> 0" by blast
  then show ?case
  proof cases
    case 2
    with 1(3) show ?thesis by (simp add: to_valid.simps [of s] replacement_def)
  next
    case 3
    have e: "to_valid s = take (rune_len s) s @ to_valid (drop (rune_len s) s)" using 3 by (simp add: to_valid.simps [of s])
    with 1(3) have "to_valid (drop (rune_len s) s) = drop (rune_len s) s" by (intro 1(2) [OF 3]) simp
    with e show ?thesis by simp
  qed simp
qed

lemma as_slice_str [simp]: "as_slice as_str (wire (of_slice JStr xs)) = Inr (map_option (map to_valid) xs)"
  by (rule as_slice_of_slice) simp

lemma as_slice_strs [simp]: "as_slice as_str (JArr (wire_elems (map JStr xs))) = Inr (Some (map to_valid xs))"
  using as_slice_str [of "Some xs"] by (simp add: of_slice_def)

lemma as_slice_null [simp]: "as_slice f JNull = Inr None"
  by (simp add: as_slice_def)

lemmas wire_simps = fld_def opt_defs to_valid_ascii

lemma exec_request_roundtrip: "un_exec_request (wire (exec_request_json r)) = Inr (san_exec_request r)"
  by (cases "er_Args r"; cases "er_Args r = Some []")
    (auto simp: un_exec_request_def exec_request_json_def san_exec_request_def wire_simps)

lemma exec_response_roundtrip: "un_exec_response (wire (exec_response_json r)) = Inr (san_exec_response r)"
  by (simp add: un_exec_response_def exec_response_json_def san_exec_response_def wire_simps)

lemma read_request_roundtrip: "un_read_request (wire (read_request_json r)) = Inr (san_read_request r)"
  by (simp add: un_read_request_def read_request_json_def san_read_request_def wire_simps)

lemma read_response_roundtrip: "un_read_response (wire (read_response_json r)) = Inr (san_read_response r)"
  by (simp add: un_read_response_def read_response_json_def san_read_response_def wire_simps)

lemma write_request_roundtrip: "un_write_request (wire (write_request_json r)) = Inr (san_write_request r)"
  by (simp add: un_write_request_def write_request_json_def san_write_request_def wire_simps)

lemma write_response_roundtrip: "un_write_response (wire (write_response_json r)) = Inr (san_write_response r)"
  by (simp add: un_write_response_def write_response_json_def san_write_response_def wire_simps)

lemma list_request_roundtrip: "un_list_request (wire (list_request_json r)) = Inr (san_list_request r)"
  by (simp add: un_list_request_def list_request_json_def san_list_request_def wire_simps)

lemma file_info_roundtrip: "un_file_info (wire (file_info_json r)) = Inr (san_file_info r)"
  by (simp add: un_file_info_def file_info_json_def san_file_info_def wire_simps)

lemma as_slice_infos [simp]:
  "as_slice un_file_info (wire (of_slice file_info_json xs)) = Inr (map_option (map san_file_info) xs)"
  by (rule as_slice_of_slice) (rule file_info_roundtrip)

lemma list_response_roundtrip: "un_list_response (wire (list_response_json r)) = Inr (san_list_response r)"
  by (simp add: un_list_response_def list_response_json_def san_list_response_def wire_simps)

lemma delete_request_roundtrip: "un_delete_request (wire (delete_request_json r)) = Inr (san_delete_request r)"
  by (simp add: un_delete_request_def delete_request_json_def san_delete_request_def wire_simps)

lemma delete_response_roundtrip: "un_delete_response (wire (delete_response_json r)) = Inr (san_delete_response r)"
  by (simp add: un_delete_response_def delete_response_json_def san_delete_response_def wire_simps)

lemma status_response_roundtrip: "un_status_response (wire (status_response_json r)) = Inr (san_status_response r)"
  by (simp add: un_status_response_def status_response_json_def san_status_response_def wire_simps)

lemma kill_request_roundtrip: "un_kill_request (wire (kill_request_json r)) = Inr (san_kill_request r)"
  by (simp add: un_kill_request_def kill_request_json_def san_kill_request_def wire_simps)

lemma kill_response_roundtrip: "un_kill_response (wire (kill_response_json r)) = Inr (san_kill_response r)"
  by (simp add: un_kill_response_def kill_response_json_def san_kill_response_def wire_simps)

section \<open>Every payload\<close>

datatype payload =
    PExecRequest ExecRequest
  | PExecResponse ExecResponse
  | PReadFileRequest ReadFileRequest
  | PReadFileResponse ReadFileResponse
  | PWriteFileRequest WriteFileRequest
  | PWriteFileResponse WriteFileResponse
  | PListDirRequest ListDirRequest
  | PListDirResponse ListDirResponse
  | PDeleteFileRequest DeleteFileRequest
  | PDeleteFileResponse DeleteFileResponse
  | PStatusRequest
  | PStatusResponse StatusResponse
  | PKillRequest KillRequest
  | PKillResponse KillResponse

fun Marshal :: "payload \<Rightarrow> json" where
  "Marshal (PExecRequest r) = exec_request_json r"
| "Marshal (PExecResponse r) = exec_response_json r"
| "Marshal (PReadFileRequest r) = read_request_json r"
| "Marshal (PReadFileResponse r) = read_response_json r"
| "Marshal (PWriteFileRequest r) = write_request_json r"
| "Marshal (PWriteFileResponse r) = write_response_json r"
| "Marshal (PListDirRequest r) = list_request_json r"
| "Marshal (PListDirResponse r) = list_response_json r"
| "Marshal (PDeleteFileRequest r) = delete_request_json r"
| "Marshal (PDeleteFileResponse r) = delete_response_json r"
| "Marshal PStatusRequest = status_request_json"
| "Marshal (PStatusResponse r) = status_response_json r"
| "Marshal (PKillRequest r) = kill_request_json r"
| "Marshal (PKillResponse r) = kill_response_json r"

text \<open>\<open>Unmarshal[T]\<close>: the first argument is only read for its type.\<close>

definition map_res :: "('a \<Rightarrow> 'b) \<Rightarrow> 'a res \<Rightarrow> 'b res" where
  "map_res f r = (case r of Inl e \<Rightarrow> Inl e | Inr a \<Rightarrow> Inr (f a))"

fun Unmarshal :: "payload \<Rightarrow> json \<Rightarrow> payload res" where
  "Unmarshal (PExecRequest _) j = map_res PExecRequest (un_exec_request j)"
| "Unmarshal (PExecResponse _) j = map_res PExecResponse (un_exec_response j)"
| "Unmarshal (PReadFileRequest _) j = map_res PReadFileRequest (un_read_request j)"
| "Unmarshal (PReadFileResponse _) j = map_res PReadFileResponse (un_read_response j)"
| "Unmarshal (PWriteFileRequest _) j = map_res PWriteFileRequest (un_write_request j)"
| "Unmarshal (PWriteFileResponse _) j = map_res PWriteFileResponse (un_write_response j)"
| "Unmarshal (PListDirRequest _) j = map_res PListDirRequest (un_list_request j)"
| "Unmarshal (PListDirResponse _) j = map_res PListDirResponse (un_list_response j)"
| "Unmarshal (PDeleteFileRequest _) j = map_res PDeleteFileRequest (un_delete_request j)"
| "Unmarshal (PDeleteFileResponse _) j = map_res PDeleteFileResponse (un_delete_response j)"
| "Unmarshal PStatusRequest j = map_res (\<lambda>_. PStatusRequest) (as_obj j)"
| "Unmarshal (PStatusResponse _) j = map_res PStatusResponse (un_status_response j)"
| "Unmarshal (PKillRequest _) j = map_res PKillRequest (un_kill_request j)"
| "Unmarshal (PKillResponse _) j = map_res PKillResponse (un_kill_response j)"

text \<open>\<open>json.Unmarshal\<close> of a frame's payload field, which may have been absent.\<close>

definition un_raw :: "(json \<Rightarrow> 'a res) \<Rightarrow> json option \<Rightarrow> 'a res" where
  "un_raw f raw =
     (case raw of None \<Rightarrow> Inl (Plain ''unexpected end of JSON input'') | Some j \<Rightarrow> f (wire j))"

fun repaired :: "payload \<Rightarrow> payload" where
  "repaired (PExecRequest r) = PExecRequest (san_exec_request r)"
| "repaired (PExecResponse r) = PExecResponse (san_exec_response r)"
| "repaired (PReadFileRequest r) = PReadFileRequest (san_read_request r)"
| "repaired (PReadFileResponse r) = PReadFileResponse (san_read_response r)"
| "repaired (PWriteFileRequest r) = PWriteFileRequest (san_write_request r)"
| "repaired (PWriteFileResponse r) = PWriteFileResponse (san_write_response r)"
| "repaired (PListDirRequest r) = PListDirRequest (san_list_request r)"
| "repaired (PListDirResponse r) = PListDirResponse (san_list_response r)"
| "repaired (PDeleteFileRequest r) = PDeleteFileRequest (san_delete_request r)"
| "repaired (PDeleteFileResponse r) = PDeleteFileResponse (san_delete_response r)"
| "repaired PStatusRequest = PStatusRequest"
| "repaired (PStatusResponse r) = PStatusResponse (san_status_response r)"
| "repaired (PKillRequest r) = PKillRequest (san_kill_request r)"
| "repaired (PKillResponse r) = PKillResponse (san_kill_response r)"

lemma map_res_simps [simp]: "map_res f (Inr a) = Inr (f a)" "map_res f (Inl e) = Inl e"
  by (simp_all add: map_res_def)

lemmas roundtrips = exec_request_roundtrip exec_response_roundtrip read_request_roundtrip read_response_roundtrip
  write_request_roundtrip write_response_roundtrip list_request_roundtrip list_response_roundtrip
  delete_request_roundtrip delete_response_roundtrip status_response_roundtrip kill_request_roundtrip
  kill_response_roundtrip

section \<open>Sizes\<close>

lemma show_nat_len: "n < 10 ^ Suc k \<Longrightarrow> length (show_nat n) \<le> Suc k"
proof (induction k arbitrary: n)
  case 0
  then show ?case by (simp add: show_nat.simps)
next
  case (Suc k)
  show ?case
  proof (cases "n < 10")
    case False
    from Suc.prems have "n div 10 < 10 ^ Suc k" by (simp add: less_mult_imp_div_less mult.commute)
    from Suc.IH [OF this] False show ?thesis by (subst show_nat.simps) simp
  qed (simp add: show_nat.simps)
qed

lemma show_unat_len: "length (show_nat (unat (i :: u64))) \<le> 20"
  using show_nat_len [of "unat i" 19] unsigned_less [of i, where ?'a = nat] by simp

text \<open>A reply as the worker builds it.\<close>

definition result_frame :: "u64 \<Rightarrow> json \<Rightarrow> Frame" where
  "result_frame i p = zeroFrame\<lparr>Type := FrameResult, ID := i, OK := True, Payload := Some p\<rparr>"

definition plain_char :: "char \<Rightarrow> bool" where
  "plain_char c \<longleftrightarrow> 32 \<le> (of_char c :: nat) \<and> (of_char c :: nat) < 128 \<and>
     c \<notin> {CHR 0x22, CHR 0x5C, CHR ''<'', CHR ''>'', CHR ''&''}"

lemma esc_plain: "list_all plain_char s \<Longrightarrow> esc s = s"
proof (induction s)
  case (Cons c s)
  then have "rune_len (c # s) = 1" "esc_byte c = [c]"
    by (auto simp: rune_len_def esc_byte_def plain_char_def Let_def)
  with Cons show ?case by (simp add: esc.simps [of "c # s"] esc_rune_def)
qed (simp add: esc.simps)

lemma jquote_plain: "list_all plain_char s \<Longrightarrow> length (jquote s) = length s + 2"
  by (simp add: jquote_def esc_plain)

lemma jlen_frame_result:
  assumes "i \<noteq> 0"
  shows "jlen (frame_json tm (result_frame i p)) = 44 + length (show_nat (unat i)) + jlen p"
proof -
  have q: "length (jquote ''type'') = 6" "length (jquote ''result'') = 8" "length (jquote ''id'') = 4"
    "length (jquote ''payload'') = 9" "length (jquote ''ok'') = 4"
    by (simp_all add: jquote_plain plain_char_def)
  have i: "show_int (uint i) = show_nat (unat i)" "uint i \<noteq> 0"
    using assms by (simp_all add: show_int_def not_less uint_0_iff)
  have "frame_json tm (result_frame i p) =
      JObj [(''type'', JStr ''result''), (''id'', JNum (uint i)), (''payload'', p), (''ok'', JBool True)]"
    using i(2) by (simp add: result_frame_def frame_json_def zeroFrame_def FrameResult_def opt_str_def opt_int_def opt_bool_def)
  then show ?thesis
    using q by (simp only: jlen_def) (simp add: i(1))
qed

lemma exec_response_min: "85 \<le> jlen (exec_response_json r)"
proof -
  have q: "length (jquote ''exec_id'') = 9" "length (jquote ''stdout'') = 8" "length (jquote ''stderr'') = 8"
    "length (jquote ''exit_code'') = 11" "length (jquote ''duration_ms'') = 13" "length (jquote ''truncated'') = 11"
    by (simp_all add: jquote_plain plain_char_def)
  have n: "1 \<le> length (show_int i)" for i by (simp add: show_int_def show_nat.simps Suc_le_eq)
  show ?thesis
    using q jquote_len(2) [of "ex_ExecID r"] jquote_len(2) [of "ex_Stdout r"] jquote_len(2) [of "ex_Stderr r"]
      n [of "ex_ExitCode r"] n [of "ex_DurationMs r"]
    by (simp add: exec_response_json_def jlen_def opt_defs)
qed

section \<open>Properties\<close>


text \<open>C11: limits that validate, and whose arithmetic does not wrap, give a read limit that is
  what the exact integers give, positive, and under the 64 MiB ceiling.\<close>

theorem Validate_bounds_frame:
  assumes "Validate l = None" "sint (MaxOutputBytes l) < 2 ^ 60" "sint (MaxFileBytes l) < 2 ^ 60"
  shows "sint (FrameBytes l) = 2 * max (2 * sint (MaxOutputBytes l)) (sint (MaxFileBytes l)) + 65536 \<and>
    sint (FrameBytes l) \<le> 67108864 \<and> 0 < sint (MaxPayloadBytes l) \<and>
    sint (MaxPayloadBytes l) + 65536 = sint (FrameBytes l)"
proof -
  have pos: "0 < sint (MaxOutputBytes l)" "0 < sint (MaxFileBytes l)"
    and ceil: "sint (FrameBytes l) \<le> sint MaxNegotiatedFrameBytes"
    using assms(1) by (auto simp: Validate_def word_sle_eq word_sless_alt split: if_splits)
  then show ?thesis
    using FrameBytes_exact [of l] assms(2,3) by (auto simp: MaxNegotiatedFrameBytes_def)
qed

lemma Validate_bounds_frame_witness:
  "sint (FrameBytes \<lparr>MaxOutputBytes = 1048576, MaxFileBytes = 4194304\<rparr>) \<le> 67108864"
  using Validate_bounds_frame [of "\<lparr>MaxOutputBytes = 1048576, MaxFileBytes = 4194304\<rparr>"] by code_simp

text \<open>Without that bound the check is not one: limits that validate can give a negative read
  limit, which the connection takes as no limit at all.\<close>

theorem Validate_admits_wrapped_limits:
  "Validate \<lparr>MaxOutputBytes = 1, MaxFileBytes = 2 ^ 62\<rparr> = None \<and>
   sint (FrameBytes \<lparr>MaxOutputBytes = 1, MaxFileBytes = 2 ^ 62\<rparr>) < 0"
  by code_simp

text \<open>A result whose payload passed the size check fits the connection: its frame, with the
  newline the encoder adds, is within the read limit the server derived from the same limits.\<close>

theorem checked_result_fits_frame:
  assumes "Validate l = None" "sint (MaxOutputBytes l) < 2 ^ 60" "sint (MaxFileBytes l) < 2 ^ 60"
    and "i \<noteq> 0" "int (jlen p) \<le> sint (MaxPayloadBytes l)"
  shows "int (jlen (frame_json tm (result_frame i p))) + 1 \<le> sint (FrameBytes l)"
proof -
  have "0 \<le> sint (MaxOutputBytes l)" "0 \<le> sint (MaxFileBytes l)"
    using assms(1) by (auto simp: Validate_def word_sle_eq split: if_splits)
  with FrameBytes_exact [of l] assms(2,3) have "sint (MaxPayloadBytes l) + 65536 = sint (FrameBytes l)" by simp
  with assms(5) jlen_frame_result [OF assms(4), of tm] show_unat_len [of i] show ?thesis by simp
qed

lemma checked_result_fits_frame_witness:
  "int (jlen (frame_json show_int (result_frame 1 (JObj [])))) + 1 \<le> sint (FrameBytes \<lparr>MaxOutputBytes = 1024, MaxFileBytes = 1024\<rparr>)"
proof -
  have "Validate \<lparr>MaxOutputBytes = 1024, MaxFileBytes = 1024\<rparr> = None" by code_simp
  moreover have "int (jlen (JObj [])) \<le> sint (MaxPayloadBytes \<lparr>MaxOutputBytes = 1024, MaxFileBytes = 1024\<rparr>)" by code_simp
  ultimately show ?thesis by (intro checked_result_fits_frame) simp_all
qed

text \<open>\<open>Validate\<close> accepts limits under which no command can ever answer: with an output and a
  file cap of 21 bytes every exec result is over what one message may carry.\<close>

theorem Validate_admits_unusable_limits:
  "Validate \<lparr>MaxOutputBytes = 21, MaxFileBytes = 21\<rparr> = None \<and>
   sint (MaxPayloadBytes \<lparr>MaxOutputBytes = 21, MaxFileBytes = 21\<rparr>) < int (jlen (exec_response_json r))"
proof
  show "Validate \<lparr>MaxOutputBytes = 21, MaxFileBytes = 21\<rparr> = None" by code_simp
  have "sint (MaxPayloadBytes \<lparr>MaxOutputBytes = 21, MaxFileBytes = 21\<rparr>) = 84" by code_simp
  then show "sint (MaxPayloadBytes \<lparr>MaxOutputBytes = 21, MaxFileBytes = 21\<rparr>) < int (jlen (exec_response_json r))"
    using exec_response_min [of r] by simp
qed

end
