(* ===== verification/Stream_Broadcaster.thy ===== *)
theory Stream_Broadcaster imports Stream_Ring begin

text \<open>
  Package \<open>internal/stream\<close>, file \<open>broadcaster.go\<close>: fan-out of sandbox events to watchers.

  A \<open>*Subscription\<close> is a handle into \<open>subs\<close>, the heap of subscriptions; its Go channel of
  capacity \<open>subscriberQueue\<close> is the list \<open>sub_events\<close> with the flag \<open>sub_closed\<close>. Every method
  runs under \<open>b.mu\<close>, so each is one step of the state; a send on a closed channel is a panic,
  and \<open>None\<close> is the panic. The receive a watcher does is the step \<open>Recv\<close>.
\<close>

section \<open>State\<close>

definition subscriberQueue :: nat where "subscriberQueue = 256"

record Subscription =
  sub_events :: "Event list"
  sub_closed :: bool
  sub_lagged :: bool

record Broadcaster =
  bc_limitBytes :: int
  rings :: "(string, ring) gomap"
  subscribers :: "(string, nat list) gomap"
  subs :: "(nat, Subscription) gomap"
  fresh_sub :: nat

definition NewBroadcaster :: "int \<Rightarrow> Broadcaster" where
  "NewBroadcaster lim =
     \<lparr>bc_limitBytes = (if lim \<le> 0 then DefaultStreamBufferBytes else lim),
      rings = [], subscribers = [], subs = [], fresh_sub = 0\<rparr>"

section \<open>Operations\<close>

definition sub_close :: "Subscription \<Rightarrow> bool \<Rightarrow> Subscription" where
  "sub_close s lagged = (if sub_closed s then s else s\<lparr>sub_closed := True, sub_lagged := lagged\<rparr>)"

definition ringFor :: "Broadcaster \<Rightarrow> string \<Rightarrow> ring \<times> Broadcaster" where
  "ringFor b sid =
     (case mget (rings b) sid of
        Some r \<Rightarrow> (r, b)
      | None \<Rightarrow> (let r = newRing (bc_limitBytes b) in (r, b\<lparr>rings := mset_key sid r (rings b)\<rparr>)))"

definition upd_sub :: "nat \<Rightarrow> (Subscription \<Rightarrow> Subscription) \<Rightarrow> Broadcaster \<Rightarrow> Broadcaster" where
  "upd_sub h f b =
     (case mget (subs b) h of None \<Rightarrow> b | Some s \<Rightarrow> b\<lparr>subs := mset_key h (f s) (subs b)\<rparr>)"

definition removeLocked :: "Broadcaster \<Rightarrow> string \<Rightarrow> nat \<Rightarrow> bool \<Rightarrow> Broadcaster" where
  "removeLocked b sid h lagged =
     (case mget (subscribers b) sid of
        None \<Rightarrow> b
      | Some hs \<Rightarrow>
          if h \<notin> set hs then b
          else
            (let hs' = filter (\<lambda>x. x \<noteq> h) hs;
                 sbs = (if hs' = [] then mdel sid (subscribers b) else mset_key sid hs' (subscribers b))
             in upd_sub h (\<lambda>s. sub_close s lagged) (b\<lparr>subscribers := sbs\<rparr>)))"

definition Subscribe :: "Broadcaster \<Rightarrow> string \<Rightarrow> u64 \<Rightarrow> int \<Rightarrow> (Event list \<times> nat) \<times> Broadcaster" where
  "Subscribe b sid after now =
     (let (r, b1) = ringFor b sid;
          (retained, missed) = ring_since r after;
          replay = (if 0 < missed
                    then [zeroEvent\<lparr>SandboxID := sid, Kind := EventGap, At := now, MissedEvents := missed\<rparr>]
                    else []) @ retained;
          h = fresh_sub b1;
          hs = (case mget (subscribers b1) sid of None \<Rightarrow> [] | Some hs \<Rightarrow> hs)
      in ((replay, h),
          b1\<lparr>subs := mset_key h \<lparr>sub_events = [], sub_closed = False, sub_lagged = False\<rparr> (subs b1),
             fresh_sub := Suc h,
             subscribers := mset_key sid (hs @ [h]) (subscribers b1)\<rparr>))"

definition Unsubscribe :: "Broadcaster \<Rightarrow> string \<Rightarrow> nat \<Rightarrow> Broadcaster" where
  "Unsubscribe b sid h = removeLocked b sid h False"

text \<open>The loop of \<open>Publish\<close> over the watchers, in the order the map is visited.\<close>

fun fan_out :: "Broadcaster \<Rightarrow> string \<Rightarrow> Event \<Rightarrow> nat list \<Rightarrow> Broadcaster option" where
  "fan_out b sid e [] = Some b"
| "fan_out b sid e (h # hs) =
     (case mget (subs b) h of
        None \<Rightarrow> None
      | Some s \<Rightarrow>
          if sub_closed s then None
          else if length (sub_events s) < subscriberQueue
          then fan_out (upd_sub h (\<lambda>s. s\<lparr>sub_events := sub_events s @ [e]\<rparr>) b) sid e hs
          else fan_out (removeLocked b sid h True) sid e hs)"

definition Publish :: "Broadcaster \<Rightarrow> Event \<Rightarrow> (Event \<times> Broadcaster) option" where
  "Publish b e =
     (let sid = SandboxID e;
          (r, b1) = ringFor b sid;
          (r', stamped) = ring_append r e;
          b2 = b1\<lparr>rings := mset_key sid r' (rings b1)\<rparr>
      in map_option (Pair stamped)
           (fan_out b2 sid stamped (case mget (subscribers b2) sid of None \<Rightarrow> [] | Some hs \<Rightarrow> hs)))"

definition LastSeq :: "Broadcaster \<Rightarrow> string \<Rightarrow> u64 \<times> Broadcaster" where
  "LastSeq b sid = (let (r, b1) = ringFor b sid in (lastSeq r, b1))"

definition WatcherCount :: "Broadcaster \<Rightarrow> string \<Rightarrow> nat" where
  "WatcherCount b sid = (case mget (subscribers b) sid of None \<Rightarrow> 0 | Some hs \<Rightarrow> length hs)"

definition Lagged :: "Broadcaster \<Rightarrow> nat \<Rightarrow> bool" where
  "Lagged b h = (case mget (subs b) h of None \<Rightarrow> False | Some s \<Rightarrow> sub_lagged s)"

text \<open>A receive on \<open>sub.Events()\<close>: an event, the end of the channel, or it would block.\<close>

datatype received = Got Event | Ended | Blocks

definition Recv :: "Broadcaster \<Rightarrow> nat \<Rightarrow> received \<times> Broadcaster" where
  "Recv b h =
     (case mget (subs b) h of
        None \<Rightarrow> (Blocks, b)
      | Some s \<Rightarrow>
          (case sub_events s of
             e # es \<Rightarrow> (Got e, upd_sub h (\<lambda>s. s\<lparr>sub_events := es\<rparr>) b)
           | [] \<Rightarrow> (if sub_closed s then Ended else Blocks, b)))"

section \<open>Views and the invariant\<close>

definition watchers :: "Broadcaster \<Rightarrow> string \<Rightarrow> nat list" where
  "watchers b sid = (case mget (subscribers b) sid of None \<Rightarrow> [] | Some hs \<Rightarrow> hs)"

definition queue :: "Broadcaster \<Rightarrow> nat \<Rightarrow> Event list" where
  "queue b h = (case mget (subs b) h of None \<Rightarrow> [] | Some s \<Rightarrow> sub_events s)"

definition open_sub :: "Broadcaster \<Rightarrow> nat \<Rightarrow> bool" where
  "open_sub b h = (case mget (subs b) h of None \<Rightarrow> False | Some s \<Rightarrow> \<not> sub_closed s)"

definition ring_of :: "Broadcaster \<Rightarrow> string \<Rightarrow> ring" where
  "ring_of b sid = (case mget (rings b) sid of None \<Rightarrow> newRing (bc_limitBytes b) | Some r \<Rightarrow> r)"

definition bc_inv :: "Broadcaster \<Rightarrow> bool" where
  "bc_inv b \<longleftrightarrow>
     (\<forall>sid. distinct (watchers b sid)) \<and>
     (\<forall>sid h. h \<in> set (watchers b sid) \<longrightarrow> open_sub b h) \<and>
     (\<forall>sid sid' h. h \<in> set (watchers b sid) \<longrightarrow> h \<in> set (watchers b sid') \<longrightarrow> sid = sid') \<and>
     (\<forall>h. open_sub b h \<longrightarrow> (\<exists>sid. h \<in> set (watchers b sid))) \<and>
     (\<forall>h. mget (subs b) h \<noteq> None \<longrightarrow> h < fresh_sub b) \<and>
     (\<forall>h. length (queue b h) \<le> subscriberQueue)"

lemmas bc_views = watchers_def queue_def open_sub_def ring_of_def Lagged_def

lemma bc_inv_new: "bc_inv (NewBroadcaster lim)"
  by (simp add: bc_inv_def NewBroadcaster_def bc_views)

lemma open_sub_Some: "open_sub b h \<longleftrightarrow> (\<exists>s. mget (subs b) h = Some s \<and> \<not> sub_closed s)"
  by (auto simp: open_sub_def split: option.splits)

section \<open>One lemma per operation, over the views\<close>

lemma filter_notin [simp]: "h \<notin> set xs \<Longrightarrow> filter (\<lambda>x. x \<noteq> h) xs = xs"
  by (induction xs) auto

lemma ring_of_update [simp]:
  "ring_of (b\<lparr>subs := x\<rparr>) = ring_of b" "ring_of (b\<lparr>fresh_sub := n\<rparr>) = ring_of b"
  "ring_of (b\<lparr>subscribers := y\<rparr>) = ring_of b"
  "ring_of (b\<lparr>rings := mset_key k r (rings b)\<rparr>) = (ring_of b)(k := r)"
  by (auto simp: ring_of_def fun_eq_iff split: option.split)

lemma ring_of_cong: "rings a = rings b \<Longrightarrow> bc_limitBytes a = bc_limitBytes b \<Longrightarrow> ring_of a = ring_of b"
  by (auto simp: ring_of_def fun_eq_iff split: option.split)

lemma ringFor_ring [simp]: "fst (ringFor b sid) = ring_of b sid"
  by (simp add: ringFor_def ring_of_def Let_def split: option.splits)

lemma ringFor_views [simp]:
  "subscribers (snd (ringFor b sid)) = subscribers b" "subs (snd (ringFor b sid)) = subs b"
  "fresh_sub (snd (ringFor b sid)) = fresh_sub b" "bc_limitBytes (snd (ringFor b sid)) = bc_limitBytes b"
  "ring_of (snd (ringFor b sid)) = ring_of b"
  by (auto simp: ringFor_def Let_def ring_of_def split: option.splits)

lemma upd_sub_views [simp]:
  "subscribers (upd_sub h f b) = subscribers b" "rings (upd_sub h f b) = rings b"
  "fresh_sub (upd_sub h f b) = fresh_sub b" "bc_limitBytes (upd_sub h f b) = bc_limitBytes b"
  by (auto simp: upd_sub_def split: option.splits)

lemma upd_sub_subs [simp]:
  "mget (subs (upd_sub h f b)) h' = (if h' = h then map_option f (mget (subs b) h) else mget (subs b) h')"
  by (auto simp: upd_sub_def split: option.splits)

lemma removeLocked_views [simp]:
  "rings (removeLocked b sid h l) = rings b" "fresh_sub (removeLocked b sid h l) = fresh_sub b"
  "bc_limitBytes (removeLocked b sid h l) = bc_limitBytes b"
  by (auto simp: removeLocked_def Let_def split: option.splits)

lemma removeLocked_watchers [simp]:
  "watchers (removeLocked b sid h l) sid' = (if sid' = sid then filter (\<lambda>x. x \<noteq> h) (watchers b sid) else watchers b sid')"
  by (auto simp: removeLocked_def watchers_def Let_def filter_id_conv split: option.splits)

lemma removeLocked_subs [simp]:
  "mget (subs (removeLocked b sid h l)) h' =
     (if h' = h \<and> h \<in> set (watchers b sid) then map_option (\<lambda>s. sub_close s l) (mget (subs b) h) else mget (subs b) h')"
  by (auto simp: removeLocked_def watchers_def Let_def split: option.splits)

lemma sub_close_simps [simp]:
  "sub_closed (sub_close s l)" "sub_events (sub_close s l) = sub_events s"
  by (simp_all add: sub_close_def)

lemma removeLocked_open [simp]:
  "open_sub (removeLocked b sid h l) h' \<longleftrightarrow> open_sub b h' \<and> \<not> (h' = h \<and> h \<in> set (watchers b sid))"
  by (auto simp: open_sub_def split: option.splits)

lemma removeLocked_queue [simp]: "queue (removeLocked b sid h l) h' = queue b h'"
  by (auto simp: queue_def split: option.splits)

lemma Recv_views:
  "watchers (snd (Recv b h)) = watchers b" "rings (snd (Recv b h)) = rings b"
  "fresh_sub (snd (Recv b h)) = fresh_sub b" "open_sub (snd (Recv b h)) = open_sub b"
  by (auto simp: Recv_def bc_views fun_eq_iff split: option.splits list.splits)

lemma Recv_queue:
  "queue b h' = (if h' = h then (case fst (Recv b h) of Got e \<Rightarrow> [e] | _ \<Rightarrow> []) else []) @ queue (snd (Recv b h)) h'"
  by (auto simp: Recv_def bc_views split: option.splits list.splits)

definition room :: "Broadcaster \<Rightarrow> nat \<Rightarrow> bool" where
  "room b h \<longleftrightarrow> length (queue b h) < subscriberQueue"

text \<open>
  What one fan-out does: every watcher with room gets the event at the end of its queue, every
  other one is closed as lagged and detached; nobody else is touched, and nothing panics.
\<close>

lemma fan_out_spec:
  assumes "distinct hs" "set hs \<subseteq> set (watchers b sid)" "\<forall>h\<in>set hs. open_sub b h"
  shows "\<exists>b'. fan_out b sid e hs = Some b' \<and> rings b' = rings b \<and> fresh_sub b' = fresh_sub b \<and>
     bc_limitBytes b' = bc_limitBytes b \<and>
     (\<forall>h. mget (subs b') h =
        (if h \<in> set hs
         then map_option (\<lambda>s. if room b h then s\<lparr>sub_events := sub_events s @ [e]\<rparr> else sub_close s True) (mget (subs b) h)
         else mget (subs b) h)) \<and>
     (\<forall>sid'. watchers b' sid' = (if sid' = sid then filter (\<lambda>h. h \<in> set hs \<longrightarrow> room b h) (watchers b sid) else watchers b sid'))"
  using assms
proof (induction hs arbitrary: b)
  case Nil
  then show ?case by simp
next
  case (Cons h hs)
  then obtain s where s: "mget (subs b) h = Some s" "\<not> sub_closed s"
    by (auto simp: open_sub_Some)
  define b1 where "b1 = (if room b h then upd_sub h (\<lambda>s. s\<lparr>sub_events := sub_events s @ [e]\<rparr>) b else removeLocked b sid h True)"
  have fan: "fan_out b sid e (h # hs) = fan_out b1 sid e hs"
    using s by (simp add: b1_def room_def queue_def)
  have hw: "h \<in> set (watchers b sid)" and hh: "h \<notin> set hs" using Cons.prems by auto
  have w1: "watchers b1 sid' = (if sid' = sid \<and> \<not> room b h then filter (\<lambda>x. x \<noteq> h) (watchers b sid) else watchers b sid')" for sid'
    by (simp add: b1_def) (simp add: watchers_def)
  have s1: "mget (subs b1) h' = (if h' = h then Some (if room b h then s\<lparr>sub_events := sub_events s @ [e]\<rparr> else sub_close s True) else mget (subs b) h')" for h'
    using s hw by (simp add: b1_def)
  have r1: "room b1 h' = room b h'" if "h' \<in> set hs" for h'
    using that hh by (auto simp: room_def queue_def s1)
  have "set hs \<subseteq> set (watchers b1 sid)" using Cons.prems(2) hh by (auto simp: w1)
  moreover have "\<forall>h'\<in>set hs. open_sub b1 h'" using Cons.prems(3) hh by (auto simp: open_sub_def s1)
  ultimately obtain b' where b': "fan_out b1 sid e hs = Some b'" "rings b' = rings b1" "fresh_sub b' = fresh_sub b1"
     "bc_limitBytes b' = bc_limitBytes b1"
     "\<And>h. mget (subs b') h =
        (if h \<in> set hs
         then map_option (\<lambda>s. if room b1 h then s\<lparr>sub_events := sub_events s @ [e]\<rparr> else sub_close s True) (mget (subs b1) h)
         else mget (subs b1) h)"
     "\<And>sid'. watchers b' sid' = (if sid' = sid then filter (\<lambda>h. h \<in> set hs \<longrightarrow> room b1 h) (watchers b1 sid) else watchers b1 sid')"
    using Cons.IH [of b1] Cons.prems(1) by auto
  have "mget (subs b') h' =
        (if h' \<in> set (h # hs)
         then map_option (\<lambda>s. if room b h' then s\<lparr>sub_events := sub_events s @ [e]\<rparr> else sub_close s True) (mget (subs b) h')
         else mget (subs b) h')" for h'
    using hh s r1 [of h'] by (auto simp: b'(5) s1)
  moreover have "watchers b' sid' = (if sid' = sid then filter (\<lambda>h'. h' \<in> set (h # hs) \<longrightarrow> room b h') (watchers b sid) else watchers b sid')" for sid'
    using hh r1 by (auto simp: b'(6) w1 intro!: filter_cong)
  moreover have "rings b1 = rings b" "fresh_sub b1 = fresh_sub b" "bc_limitBytes b1 = bc_limitBytes b"
    by (simp_all add: b1_def)
  ultimately show ?case using b'(1-4) fan by simp
qed

lemma Publish_spec:
  assumes "bc_inv b"
  obtains b' where "Publish b e = Some (snd (ring_append (ring_of b (SandboxID e)) e), b')"
    and "fresh_sub b' = fresh_sub b" "bc_limitBytes b' = bc_limitBytes b"
    and "\<And>sid. ring_of b' sid = (if sid = SandboxID e then fst (ring_append (ring_of b sid) e) else ring_of b sid)"
    and "\<And>h. mget (subs b') h =
        (if h \<in> set (watchers b (SandboxID e))
         then map_option (\<lambda>s. if room b h then s\<lparr>sub_events := sub_events s @ [snd (ring_append (ring_of b (SandboxID e)) e)]\<rparr> else sub_close s True) (mget (subs b) h)
         else mget (subs b) h)"
    and "\<And>sid. watchers b' sid = (if sid = SandboxID e then filter (room b) (watchers b sid) else watchers b sid)"
proof -
  let ?sid = "SandboxID e" and ?st = "snd (ring_append (ring_of b (SandboxID e)) e)"
  let ?b2 = "(snd (ringFor b ?sid))\<lparr>rings := mset_key ?sid (fst (ring_append (ring_of b ?sid) e)) (rings (snd (ringFor b ?sid)))\<rparr>"
  have w: "watchers ?b2 = watchers b" and r: "room ?b2 = room b" and o: "open_sub ?b2 = open_sub b"
    by (auto simp: bc_views room_def)
  have rng: "ring_of ?b2 sid = (if sid = ?sid then fst (ring_append (ring_of b sid) e) else ring_of b sid)" for sid
    by simp
  have pub: "Publish b e = map_option (Pair ?st) (fan_out ?b2 ?sid ?st (watchers b ?sid))"
    unfolding w [symmetric] by (simp add: Publish_def Let_def split_beta watchers_def)
  have "distinct (watchers b ?sid)" "\<forall>h\<in>set (watchers b ?sid). open_sub ?b2 h"
    using assms o by (auto simp: bc_inv_def)
  from fan_out_spec [of "watchers b ?sid" ?b2 ?sid ?st] this w obtain b' where
    b': "fan_out ?b2 ?sid ?st (watchers b ?sid) = Some b'" "rings b' = rings ?b2" "fresh_sub b' = fresh_sub b"
     "bc_limitBytes b' = bc_limitBytes b"
     "\<And>h. mget (subs b') h =
        (if h \<in> set (watchers b ?sid)
         then map_option (\<lambda>s. if room b h then s\<lparr>sub_events := sub_events s @ [?st]\<rparr> else sub_close s True) (mget (subs b) h)
         else mget (subs b) h)"
     "\<And>sid'. watchers b' sid' = (if sid' = ?sid then filter (\<lambda>h. h \<in> set (watchers b ?sid) \<longrightarrow> room b h) (watchers b ?sid) else watchers b sid')"
    by (auto simp: r)
  have "ring_of b' = ring_of ?b2"
    using b'(2,4) by (intro ring_of_cong) simp_all
  moreover have "filter (\<lambda>h. h \<in> set (watchers b ?sid) \<longrightarrow> room b h) (watchers b ?sid) = filter (room b) (watchers b ?sid)"
    by (rule filter_cong) auto
  ultimately show ?thesis
    using b' rng by (intro that [of b']) (simp_all add: pub)
qed

lemma Publish_views:
  assumes inv: "bc_inv b"
  obtains b' where "Publish b e = Some (snd (ring_append (ring_of b (SandboxID e)) e), b')"
    and "fresh_sub b' = fresh_sub b"
    and "\<And>sid. ring_of b' sid = (if sid = SandboxID e then fst (ring_append (ring_of b sid) e) else ring_of b sid)"
    and "\<And>h. open_sub b' h \<longleftrightarrow> open_sub b h \<and> (h \<in> set (watchers b (SandboxID e)) \<longrightarrow> room b h)"
    and "\<And>h. queue b' h = queue b h @
        (if h \<in> set (watchers b (SandboxID e)) \<and> room b h then [snd (ring_append (ring_of b (SandboxID e)) e)] else [])"
    and "\<And>h. mget (subs b') h = None \<longleftrightarrow> mget (subs b) h = None"
    and "\<And>sid. watchers b' sid = (if sid = SandboxID e then filter (room b) (watchers b sid) else watchers b sid)"
proof -
  have known: "\<exists>s. mget (subs b) h = Some s" if "h \<in> set (watchers b sid)" for h sid
    using inv that unfolding bc_inv_def open_sub_Some by metis
  obtain b' where b': "Publish b e = Some (snd (ring_append (ring_of b (SandboxID e)) e), b')"
    "fresh_sub b' = fresh_sub b"
    "\<And>sid. ring_of b' sid = (if sid = SandboxID e then fst (ring_append (ring_of b sid) e) else ring_of b sid)"
    "\<And>h. mget (subs b') h =
        (if h \<in> set (watchers b (SandboxID e))
         then map_option (\<lambda>s. if room b h then s\<lparr>sub_events := sub_events s @ [snd (ring_append (ring_of b (SandboxID e)) e)]\<rparr> else sub_close s True) (mget (subs b) h)
         else mget (subs b) h)"
    "\<And>sid. watchers b' sid = (if sid = SandboxID e then filter (room b) (watchers b sid) else watchers b sid)"
    by (rule Publish_spec [OF inv, of e]) blast
  have "open_sub b' h \<longleftrightarrow> open_sub b h \<and> (h \<in> set (watchers b (SandboxID e)) \<longrightarrow> room b h)" for h
    using known [of h "SandboxID e"] by (auto simp: open_sub_def b'(4) split: option.splits)
  moreover have "queue b' h = queue b h @
        (if h \<in> set (watchers b (SandboxID e)) \<and> room b h then [snd (ring_append (ring_of b (SandboxID e)) e)] else [])" for h
    using known [of h "SandboxID e"] by (auto simp: queue_def b'(4) split: option.splits)
  moreover have "mget (subs b') h = None \<longleftrightarrow> mget (subs b) h = None" for h
    by (simp add: b'(4))
  ultimately show ?thesis
    by (intro that [of b']) (use b' in simp_all)
qed

lemma Recv_dom: "mget (subs (snd (Recv b h))) h' = None \<longleftrightarrow> mget (subs b) h' = None"
  by (auto simp: Recv_def split: option.splits list.splits if_splits)

lemma Subscribe_handle [simp]: "snd (fst (Subscribe b sid after now)) = fresh_sub b"
  by (simp add: Subscribe_def Let_def split_beta)

lemma Subscribe_views:
  "watchers (snd (Subscribe b sid after now)) sid' = (if sid' = sid then watchers b sid @ [fresh_sub b] else watchers b sid')"
  "mget (subs (snd (Subscribe b sid after now))) h =
     (if h = fresh_sub b then Some \<lparr>sub_events = [], sub_closed = False, sub_lagged = False\<rparr> else mget (subs b) h)"
  "fresh_sub (snd (Subscribe b sid after now)) = Suc (fresh_sub b)"
  "ring_of (snd (Subscribe b sid after now)) = ring_of b"
proof -
  have eq: "snd (Subscribe b sid after now) = (snd (ringFor b sid))
     \<lparr>subs := mset_key (fresh_sub b) \<lparr>sub_events = [], sub_closed = False, sub_lagged = False\<rparr> (subs b),
      fresh_sub := Suc (fresh_sub b), subscribers := mset_key sid (watchers b sid @ [fresh_sub b]) (subscribers b)\<rparr>"
    by (simp add: Subscribe_def Let_def split_beta watchers_def)
  show "watchers (snd (Subscribe b sid after now)) sid' = (if sid' = sid then watchers b sid @ [fresh_sub b] else watchers b sid')"
    unfolding eq by (simp add: watchers_def)
  show "mget (subs (snd (Subscribe b sid after now))) h =
     (if h = fresh_sub b then Some \<lparr>sub_events = [], sub_closed = False, sub_lagged = False\<rparr> else mget (subs b) h)"
    and "fresh_sub (snd (Subscribe b sid after now)) = Suc (fresh_sub b)"
    unfolding eq by simp_all
  show "ring_of (snd (Subscribe b sid after now)) = ring_of b"
    unfolding eq by simp
qed

lemma Subscribe_sub_views:
  "open_sub (snd (Subscribe b sid after now)) h \<longleftrightarrow> h = fresh_sub b \<or> open_sub b h"
  "queue (snd (Subscribe b sid after now)) h = (if h = fresh_sub b then [] else queue b h)"
  by (auto simp: open_sub_def queue_def Subscribe_views)

lemma Subscribe_replay:
  "fst (fst (Subscribe b sid after now)) =
     (if 0 < snd (ring_since (ring_of b sid) after)
      then [zeroEvent\<lparr>SandboxID := sid, Kind := EventGap, At := now, MissedEvents := snd (ring_since (ring_of b sid) after)\<rparr>]
      else []) @ fst (ring_since (ring_of b sid) after)"
  by (simp add: Subscribe_def Let_def split_beta)

end
