(* ===== verification/Stream_Live.thy ===== *)
theory Stream_Live imports Stream_Broadcaster begin

text \<open>
  Runs of the broadcaster: any interleaving of subscribe, unsubscribe, publish and receive.
  The invariant \<open>bc_inv\<close> is kept by every operation, so publishing never panics; a watcher's
  view is followed through a whole run and related to the sandbox's history, which is what
  \<open>retention\<close> abstracts a ring to.
\<close>

section \<open>The invariant is kept\<close>

lemma distinct_views:
  assumes "bc_inv b"
  shows "distinct (watchers b sid)"
    and "h \<in> set (watchers b sid) \<Longrightarrow> open_sub b h"
    and "h \<in> set (watchers b sid) \<Longrightarrow> h \<in> set (watchers b sid') \<Longrightarrow> sid = sid'"
    and "open_sub b h \<Longrightarrow> \<exists>sid. h \<in> set (watchers b sid)"
    and "mget (subs b) h \<noteq> None \<Longrightarrow> h < fresh_sub b"
    and "length (queue b h) \<le> subscriberQueue"
  using assms unfolding bc_inv_def by blast+

lemma watcher_known:
  assumes "bc_inv b" "h \<in> set (watchers b sid)"
  shows "h < fresh_sub b"
  using distinct_views(2) [OF assms] distinct_views(5) [OF assms(1), of h] by (auto simp: open_sub_Some)

lemma bc_invI:
  assumes "\<And>sid. distinct (watchers b sid)"
    and "\<And>sid h. h \<in> set (watchers b sid) \<Longrightarrow> open_sub b h"
    and "\<And>sid sid' h. h \<in> set (watchers b sid) \<Longrightarrow> h \<in> set (watchers b sid') \<Longrightarrow> sid = sid'"
    and "\<And>h. open_sub b h \<Longrightarrow> \<exists>sid. h \<in> set (watchers b sid)"
    and "\<And>h. mget (subs b) h \<noteq> None \<Longrightarrow> h < fresh_sub b"
    and "\<And>h. length (queue b h) \<le> subscriberQueue"
  shows "bc_inv b"
  using assms unfolding bc_inv_def by blast

lemma bc_inv_Publish:
  assumes inv: "bc_inv b" and pub: "Publish b e = Some (st, b')"
  shows "bc_inv b'"
proof -
  note v = distinct_views [OF inv]
  obtain b'' where b'': "Publish b e = Some (snd (ring_append (ring_of b (SandboxID e)) e), b'')"
    "fresh_sub b'' = fresh_sub b"
    "\<And>h. mget (subs b'') h = None \<longleftrightarrow> mget (subs b) h = None"
    "\<And>h. open_sub b'' h \<longleftrightarrow> open_sub b h \<and> (h \<in> set (watchers b (SandboxID e)) \<longrightarrow> room b h)"
    "\<And>sid. watchers b'' sid = (if sid = SandboxID e then filter (room b) (watchers b sid) else watchers b sid)"
    "\<And>h. queue b'' h = queue b h @
        (if h \<in> set (watchers b (SandboxID e)) \<and> room b h then [snd (ring_append (ring_of b (SandboxID e)) e)] else [])"
    by (rule Publish_views [OF inv, of e]) blast
  have eq: "b' = b''" using pub b''(1) by simp
  show ?thesis
    unfolding eq
  proof (rule bc_invI, goal_cases)
    case (1 sid)
    show ?case using v(1) by (simp add: b''(5))
  next
    case (2 sid h)
    then show ?case using v(2) [of h] v(3) [of h sid "SandboxID e"] by (auto simp: b''(4,5) split: if_splits)
  next
    case (3 sid sid' h)
    then show ?case using v(3) by (auto simp: b''(5) split: if_splits)
  next
    case (4 h)
    then obtain sid where "h \<in> set (watchers b sid)" using b''(4) v(4) by blast
    with 4 have "h \<in> set (watchers b'' sid)" by (auto simp: b''(4,5))
    then show ?case ..
  next
    case (5 h)
    then show ?case using v(5) by (simp add: b''(2,3))
  next
    case (6 h)
    show ?case using v(6) [of h] by (simp add: b''(6) room_def)
  qed
qed

lemma bc_inv_Unsubscribe:
  assumes "bc_inv b" shows "bc_inv (Unsubscribe b sid h)"
proof -
  note v = distinct_views [OF assms]
  show ?thesis
    unfolding Unsubscribe_def
  proof (rule bc_invI, goal_cases)
    case (2 sid' h')
    then show ?case using v(2) [of h'] v(3) [of h' sid' sid] by (auto split: if_splits)
  next
    case (4 h')
    then obtain sid' where "h' \<in> set (watchers b sid')" using v(4) by auto
    with 4 have "h' \<in> set (watchers (removeLocked b sid h False) sid')" by auto
    then show ?case ..
  next
    case (5 h')
    then show ?case using v(5) [of h'] by (auto split: if_splits)
  qed (use v in \<open>auto split: if_splits\<close>)
qed

lemma bc_inv_Recv:
  assumes "bc_inv b" shows "bc_inv (snd (Recv b h))"
proof (rule bc_invI, goal_cases)
  case (6 h')
  from distinct_views(6) [OF assms, of h'] show ?case
    using Recv_queue [of b h' h] by simp
next
  case (5 h')
  then show ?case using distinct_views(5) [OF assms] Recv_dom [of b h h'] by (simp add: Recv_views)
qed (use distinct_views [OF assms] in \<open>auto simp: Recv_views\<close>)

lemma bc_inv_Subscribe:
  assumes "bc_inv b" shows "bc_inv (snd (Subscribe b sid after now))"
proof -
  note v = distinct_views [OF assms]
  have fresh: "fresh_sub b \<notin> set (watchers b sid')" for sid'
    using watcher_known [OF assms] by blast
  show ?thesis
  proof (rule bc_invI, goal_cases)
    case (1 sid')
    show ?case using v(1) fresh by (simp add: Subscribe_views)
  next
    case (2 sid' h)
    then show ?case using v(2) by (auto simp: Subscribe_sub_views Subscribe_views split: if_splits)
  next
    case (3 sid1 sid2 h)
    then show ?case using v(3) fresh by (auto simp: Subscribe_views split: if_splits)
  next
    case (4 h)
    then show ?case using v(4) [of h] by (auto simp: Subscribe_sub_views Subscribe_views)
  next
    case (5 h)
    then show ?case using v(5) [of h] by (auto simp: Subscribe_views split: if_splits)
  next
    case (6 h)
    then show ?case using v(6) [of h] by (simp add: Subscribe_sub_views subscriberQueue_def)
  qed
qed

section \<open>Runs\<close>

datatype bc_op =
    OSubscribe string u64 int
  | OUnsubscribe string nat
  | OPublish Event
  | ORecv nat

datatype bc_out = RReplay nat "Event list" | RPublished Event | RRecv nat received | RNone

fun bc_step :: "Broadcaster \<Rightarrow> bc_op \<Rightarrow> (bc_out \<times> Broadcaster) option" where
  "bc_step b (OSubscribe sid after now) =
     (let ((replay, h), b') = Subscribe b sid after now in Some (RReplay h replay, b'))"
| "bc_step b (OUnsubscribe sid h) = Some (RNone, Unsubscribe b sid h)"
| "bc_step b (OPublish e) = map_option (\<lambda>(e', b'). (RPublished e', b')) (Publish b e)"
| "bc_step b (ORecv h) = (let (r, b') = Recv b h in Some (RRecv h r, b'))"

fun bc_run :: "Broadcaster \<Rightarrow> bc_op list \<Rightarrow> (bc_out list \<times> Broadcaster) option" where
  "bc_run b [] = Some ([], b)"
| "bc_run b (x # xs) =
     (case bc_step b x of
        None \<Rightarrow> None
      | Some (o1, b1) \<Rightarrow> map_option (\<lambda>(os, b2). (o1 # os, b2)) (bc_run b1 xs))"

text \<open>What a watcher received, and what was published for a sandbox, in the course of a run.\<close>

fun got_by :: "nat \<Rightarrow> bc_out list \<Rightarrow> Event list" where
  "got_by h [] = []"
| "got_by h (RRecv h' (Got e) # os) = (if h' = h then e # got_by h os else got_by h os)"
| "got_by h (_ # os) = got_by h os"

fun published_for :: "string \<Rightarrow> bc_out list \<Rightarrow> Event list" where
  "published_for sid [] = []"
| "published_for sid (RPublished e # os) =
     (if SandboxID e = sid then e # published_for sid os else published_for sid os)"
| "published_for sid (_ # os) = published_for sid os"

lemma bc_step_inv:
  assumes "bc_inv b" shows "\<exists>o1 b'. bc_step b x = Some (o1, b') \<and> bc_inv b'"
proof (cases x)
  case (OPublish e)
  with Publish_spec [OF assms, of e] bc_inv_Publish [OF assms, of e] show ?thesis
    by (metis (no_types, lifting) bc_step.simps(3) case_prod_conv option.simps(9))
qed (use assms bc_inv_Subscribe bc_inv_Unsubscribe bc_inv_Recv in \<open>auto simp: Let_def split_beta\<close>)

lemma bc_run_inv:
  assumes "bc_inv b" shows "\<exists>os b'. bc_run b xs = Some (os, b') \<and> bc_inv b'"
  using assms
proof (induction xs arbitrary: b)
  case (Cons x xs)
  obtain o1 b1 where "bc_step b x = Some (o1, b1)" "bc_inv b1"
    using bc_step_inv [OF Cons.prems] by blast
  with Cons.IH [of b1] show ?case by auto
qed simp

section \<open>A watcher through one step\<close>

lemma step_watcher:
  assumes inv: "bc_inv b" and st: "bc_step b x = Some (o1, b')" and h: "h < fresh_sub b"
  shows "h < fresh_sub b' \<and>
    (h \<in> set (watchers b sid) \<longrightarrow>
      (h \<in> set (watchers b' sid) \<and> queue b h @ published_for sid [o1] = got_by h [o1] @ queue b' h) \<or>
      (h \<notin> set (watchers b' sid) \<and> \<not> open_sub b' h \<and> queue b h = got_by h [o1] @ queue b' h)) \<and>
    (\<not> open_sub b h \<longrightarrow> \<not> open_sub b' h \<and> queue b h = got_by h [o1] @ queue b' h)"
proof (cases x)
  case (OSubscribe sid' after now)
  then have b': "b' = snd (Subscribe b sid' after now)" and o1: "\<exists>r. o1 = RReplay (fresh_sub b) r"
    using st by (auto simp: Let_def split_beta)
  from o1 obtain r where "o1 = RReplay (fresh_sub b) r" ..
  with h b' show ?thesis by (auto simp: Subscribe_views Subscribe_sub_views)
next
  case (OUnsubscribe sid' h')
  with st have eq: "b' = removeLocked b sid' h' False" "o1 = RNone" by (auto simp: Unsubscribe_def)
  have gone: "\<not> open_sub b' h" if "h \<in> set (watchers b sid)" "h \<notin> set (watchers b' sid)"
    using that by (simp add: eq split: if_splits)
  have same: "queue b' h = queue b h" "fresh_sub b' = fresh_sub b" "\<not> open_sub b h \<Longrightarrow> \<not> open_sub b' h"
    by (simp_all add: eq)
  with h gone show ?thesis by (cases "h \<in> set (watchers b' sid)") (simp_all add: eq(2))
next
  case (ORecv h')
  with st have eq: "b' = snd (Recv b h')" "o1 = RRecv h' (fst (Recv b h'))" by (auto simp: Let_def split_beta)
  have pub: "published_for sid [o1] = []" by (simp add: eq(2))
  have "queue b h = got_by h [o1] @ queue b' h"
    unfolding eq using Recv_queue [of b h h'] by (cases "fst (Recv b h')") (simp_all del: append_eq_append_conv split: if_splits)
  with h show ?thesis by (simp add: pub eq(1) Recv_views)
next
  case (OPublish e)
  let ?sid = "SandboxID e" and ?st = "snd (ring_append (ring_of b (SandboxID e)) e)"
  obtain b'' where b'': "Publish b e = Some (?st, b'')" "fresh_sub b'' = fresh_sub b"
    "\<And>h. open_sub b'' h \<longleftrightarrow> open_sub b h \<and> (h \<in> set (watchers b ?sid) \<longrightarrow> room b h)"
    "\<And>h. queue b'' h = queue b h @ (if h \<in> set (watchers b ?sid) \<and> room b h then [?st] else [])"
    "\<And>sid. watchers b'' sid = (if sid = ?sid then filter (room b) (watchers b sid) else watchers b sid)"
    by (rule Publish_views [OF inv, of e]) blast
  have eq: "b' = b''" "o1 = RPublished ?st" using st OPublish b''(1) by auto
  have sid: "SandboxID ?st = ?sid" by (simp add: ring_append_event)
  have off: "h \<notin> set (watchers b ?sid)" if "\<not> open_sub b h"
    using that distinct_views(2) [OF inv] by blast
  have own: "h \<in> set (watchers b ?sid) \<Longrightarrow> sid = ?sid" if "h \<in> set (watchers b sid)"
    using that distinct_views(3) [OF inv] by blast
  have got: "got_by h [o1] = []" "published_for sid [o1] = (if ?sid = sid then [?st] else [])"
    by (simp_all add: eq sid)
  show ?thesis
  proof (intro conjI impI)
    show "h < fresh_sub b'" using h by (simp add: eq b''(2))
  next
    assume a: "h \<in> set (watchers b sid)"
    consider "sid \<noteq> ?sid" | "sid = ?sid" "room b h" | "sid = ?sid" "\<not> room b h" by blast
    then show "(h \<in> set (watchers b' sid) \<and> queue b h @ published_for sid [o1] = got_by h [o1] @ queue b' h) \<or>
      (h \<notin> set (watchers b' sid) \<and> \<not> open_sub b' h \<and> queue b h = got_by h [o1] @ queue b' h)"
    proof cases
      case 1
      then have "h \<notin> set (watchers b ?sid)" using own [OF a] by blast
      with 1 a show ?thesis unfolding got by (simp add: eq(1) b''(4,5))
    next
      case 2
      with a show ?thesis unfolding got by (simp add: eq(1) b''(4,5))
    next
      case 3
      with a show ?thesis unfolding got by (simp add: eq(1) b''(3,4,5))
    qed
  next
    assume c: "\<not> open_sub b h"
    then show "\<not> open_sub b' h" by (simp add: eq(1) b''(3))
    show "queue b h = got_by h [o1] @ queue b' h" unfolding got using off [OF c] by (simp add: eq(1) b''(4))
  qed
qed

lemma got_by_Cons: "got_by h (o1 # os) = got_by h [o1] @ got_by h os"
proof (cases o1)
  case (RRecv h' r)
  then show ?thesis by (cases r) auto
qed auto

lemma published_for_Cons: "published_for sid (o1 # os) = published_for sid [o1] @ published_for sid os"
  by (cases o1) auto

lemma run_step:
  assumes "bc_inv b" "bc_run b (x # xs) = Some (os, b')"
  obtains o1 b1 os1 where "bc_step b x = Some (o1, b1)" "bc_inv b1" "bc_run b1 xs = Some (os1, b')" "os = o1 # os1"
proof -
  obtain o1 b1 where "bc_step b x = Some (o1, b1)" "bc_inv b1" using bc_step_inv [OF assms(1)] by blast
  with assms(2) that show ?thesis by auto
qed

lemma run_closed:
  assumes "bc_inv b" "bc_run b xs = Some (os, b')" "h < fresh_sub b" "\<not> open_sub b h"
  shows "\<not> open_sub b' h \<and> queue b h = got_by h os @ queue b' h"
  using assms
proof (induction xs arbitrary: b os)
  case (Cons x xs)
  obtain o1 b1 os1 where s: "bc_step b x = Some (o1, b1)" "bc_inv b1" "bc_run b1 xs = Some (os1, b')" "os = o1 # os1"
    by (rule run_step [OF Cons.prems(1,2)])
  from step_watcher [OF Cons.prems(1) s(1) Cons.prems(3)] Cons.prems(4) Cons.IH [OF s(2,3)]
  show ?case by (simp add: s(4) got_by_Cons [of h o1 os1])
qed simp

lemma run_watcher:
  assumes "bc_inv b" "bc_run b xs = Some (os, b')" "h \<in> set (watchers b sid)"
  shows "\<exists>n. queue b h @ take n (published_for sid os) = got_by h os @ queue b' h \<and>
    (if h \<in> set (watchers b' sid) then n = length (published_for sid os) else \<not> open_sub b' h)"
  using assms
proof (induction xs arbitrary: b os)
  case (Cons x xs)
  obtain o1 b1 os1 where s: "bc_step b x = Some (o1, b1)" "bc_inv b1" "bc_run b1 xs = Some (os1, b')" "os = o1 # os1"
    by (rule run_step [OF Cons.prems(1,2)])
  note lt = watcher_known [OF Cons.prems(1,3)]
  note w = step_watcher [OF Cons.prems(1) s(1) lt, of sid]
  note pc = published_for_Cons [of sid o1 os1] and gc = got_by_Cons [of h o1 os1]
  show ?case
  proof (cases "h \<in> set (watchers b1 sid)")
    case True
    with w Cons.prems(3) have q: "queue b h @ published_for sid [o1] = got_by h [o1] @ queue b1 h" by simp
    obtain n where n: "queue b1 h @ take n (published_for sid os1) = got_by h os1 @ queue b' h"
      "if h \<in> set (watchers b' sid) then n = length (published_for sid os1) else \<not> open_sub b' h"
      using Cons.IH [OF s(2,3) True] by blast
    have "queue b h @ published_for sid [o1] @ take n (published_for sid os1) = got_by h os @ queue b' h"
      using q n(1) by (simp add: s(4) gc) (metis append.assoc)
    with n(2) show ?thesis
      by (intro exI [of _ "length (published_for sid [o1]) + n"]) (simp add: s(4) pc)
  next
    case False
    with w Cons.prems(3) have c: "\<not> open_sub b1 h" "queue b h = got_by h [o1] @ queue b1 h" "h < fresh_sub b1" by auto
    from run_closed [OF s(2,3) c(3,1)] have e: "\<not> open_sub b' h" "queue b1 h = got_by h os1 @ queue b' h" by auto
    moreover have "h \<notin> set (watchers b' sid)"
      using e(1) bc_run_inv [OF s(2), of xs] s(3) distinct_views(2) by fastforce
    ultimately show ?thesis
      using c(2) by (intro exI [of _ 0]) (simp add: s(4) gc)
  qed
qed simp

section \<open>The history of a sandbox through a run\<close>

lemma step_history:
  assumes "bc_inv b" "bc_step b x = Some (o1, b')" "ring_repr (ring_of b sid) h" "Suc (Suc (length h)) < 2 ^ 64"
  shows "ring_repr (ring_of b' sid) (h @ published_for sid [o1])"
proof (cases x)
  case (OPublish e)
  obtain b'' where b'': "Publish b e = Some (snd (ring_append (ring_of b (SandboxID e)) e), b'')"
    "\<And>sid. ring_of b'' sid = (if sid = SandboxID e then fst (ring_append (ring_of b sid) e) else ring_of b sid)"
    by (rule Publish_views [OF assms(1), of e]) blast
  have eq: "b' = b''" "o1 = RPublished (snd (ring_append (ring_of b (SandboxID e)) e))"
    using assms(2) OPublish b''(1) by auto
  show ?thesis
    using assms(3) rg.append_repr [OF assms(3,4), of e] by (auto simp: eq b''(2) ring_append_event)
next
  case (OSubscribe sid' after now)
  with assms(2,3) show ?thesis by (auto simp: Let_def split_beta Subscribe_views)
next
  case (OUnsubscribe sid' h')
  with assms(2) have "b' = removeLocked b sid' h' False" "o1 = RNone" by (auto simp: Unsubscribe_def)
  moreover have "ring_of (removeLocked b sid' h' False) = ring_of b" by (intro ring_of_cong) simp_all
  ultimately show ?thesis using assms(3) by simp
next
  case (ORecv h')
  with assms(2) have eq: "b' = snd (Recv b h')" "published_for sid [o1] = []" by (auto simp: Let_def split_beta)
  have "ring_of (snd (Recv b h')) = ring_of b"
    by (intro ring_of_cong) (auto simp: Recv_def split: option.splits list.splits)
  with eq assms(3) show ?thesis by simp
qed

lemma published_for_step_length: "length (published_for sid [o1]) \<le> 1"
  by (cases o1) auto

lemma run_history:
  assumes "bc_inv b" "bc_run b xs = Some (os, b')" "ring_repr (ring_of b sid) h" "Suc (length h + length xs) < 2 ^ 64"
  shows "ring_repr (ring_of b' sid) (h @ published_for sid os)"
  using assms
proof (induction xs arbitrary: b os h)
  case (Cons x xs)
  obtain o1 b1 os1 where s: "bc_step b x = Some (o1, b1)" "bc_inv b1" "bc_run b1 xs = Some (os1, b')" "os = o1 # os1"
    by (rule run_step [OF Cons.prems(1,2)])
  have r: "ring_repr (ring_of b1 sid) (h @ published_for sid [o1])"
    using Cons.prems(4) by (intro step_history [OF Cons.prems(1) s(1) Cons.prems(3)]) simp
  have "Suc (length (h @ published_for sid [o1]) + length xs) < 2 ^ 64"
    using Cons.prems(4) published_for_step_length [of sid o1] by simp
  from Cons.IH [OF s(2,3) r this] show ?case
    by (simp add: s(4) published_for_Cons [of sid o1 os1])
qed simp

section \<open>The retention budget through a run\<close>

lemma ring_append_limit [simp]: "limitBytes (fst (ring_append r e)) = limitBytes r"
  by (simp add: ring_append_def Let_def split_beta)

lemma step_limit:
  assumes "bc_inv b" "bc_step b x = Some (o1, b')"
  shows "limitBytes (ring_of b' sid) = limitBytes (ring_of b sid)"
proof (cases x)
  case (OPublish e)
  obtain b'' where b'': "Publish b e = Some (snd (ring_append (ring_of b (SandboxID e)) e), b'')"
    "\<And>sid. ring_of b'' sid = (if sid = SandboxID e then fst (ring_append (ring_of b sid) e) else ring_of b sid)"
    by (rule Publish_views [OF assms(1), of e]) blast
  then show ?thesis using assms(2) OPublish by auto
next
  case (OSubscribe sid' after now)
  with assms(2) show ?thesis by (auto simp: Let_def split_beta Subscribe_views)
next
  case (OUnsubscribe sid' h')
  moreover have "ring_of (removeLocked b sid' h' False) = ring_of b" by (intro ring_of_cong) simp_all
  ultimately show ?thesis using assms(2) by (auto simp: Unsubscribe_def)
next
  case (ORecv h')
  moreover have "ring_of (snd (Recv b h')) = ring_of b"
    by (intro ring_of_cong) (auto simp: Recv_def split: option.splits list.splits)
  ultimately show ?thesis using assms(2) by (auto simp: Let_def split_beta)
qed

lemma run_limit:
  assumes "bc_inv b" "bc_run b xs = Some (os, b')"
  shows "limitBytes (ring_of b' sid) = limitBytes (ring_of b sid)"
  using assms
proof (induction xs arbitrary: b os)
  case (Cons x xs)
  obtain o1 b1 os1 where "bc_step b x = Some (o1, b1)" "bc_inv b1" "bc_run b1 xs = Some (os1, b')"
    by (rule run_step [OF Cons.prems(1,2)])
  then show ?case using Cons.IH step_limit [OF Cons.prems(1)] by metis
qed simp

lemma ring_of_new: "ring_of (NewBroadcaster lim) sid = newRing lim"
  by (simp add: ring_of_def NewBroadcaster_def newRing_def DefaultStreamBufferBytes_def)

lemma new_history:
  assumes "bc_run (NewBroadcaster lim) xs = Some (os, b)" "Suc (length xs) < 2 ^ 64"
  shows "ring_repr (ring_of b sid) (published_for sid os)" and "bc_inv b"
    and "limitBytes (ring_of b sid) = (if lim \<le> 0 then DefaultStreamBufferBytes else lim)"
proof -
  have "ring_repr (ring_of (NewBroadcaster lim) sid) []" by (simp add: ring_of_new ring_repr_new)
  from run_history [OF bc_inv_new assms(1) this] assms(2)
  show "ring_repr (ring_of b sid) (published_for sid os)" by simp
  show "bc_inv b" using bc_run_inv [OF bc_inv_new, of lim xs] assms(1) by auto
  show "limitBytes (ring_of b sid) = (if lim \<le> 0 then DefaultStreamBufferBytes else lim)"
    using run_limit [OF bc_inv_new assms(1)] by (simp add: ring_of_new newRing_def)
qed

section \<open>Properties\<close>

text \<open>C1: no interleaving of subscribing, unsubscribing, publishing and receiving panics on a
  closed channel, and each leaves the broadcaster well formed: every listed watcher is open and
  listed once under one sandbox, every open subscription is listed, and no queue exceeds 256.\<close>

theorem broadcaster_never_panics: "\<exists>os b. bc_run (NewBroadcaster lim) xs = Some (os, b) \<and> bc_inv b"
  by (rule bc_run_inv [OF bc_inv_new])

lemma subscription_account:
  assumes "bc_run (NewBroadcaster lim) xs = Some (os, b)" "Suc (length xs) < 2 ^ 64"
    and "unat after \<le> length (published_for sid os)"
    and "Subscribe b sid after now = ((replay, h), b1)" and "bc_run b1 ys = Some (os', b2)"
  shows "\<exists>lost kept n.
    drop (unat after) (published_for sid os) = lost @ kept \<and>
    replay = (if lost = [] then []
      else [zeroEvent\<lparr>SandboxID := sid, Kind := EventGap, At := now, MissedEvents := word_of_nat (length lost)\<rparr>]) @ kept \<and>
    got_by h os' @ queue b2 h = take n (published_for sid os') \<and>
    (if h \<in> set (watchers b2 sid) then n = length (published_for sid os') else \<not> open_sub b2 h)"
proof -
  note hist = new_history(1) [OF assms(1,2), of sid] and inv = new_history(2) [OF assms(1,2)]
  let ?m = "snd (ring_since (ring_of b sid) after)" and ?kept = "fst (ring_since (ring_of b sid) after)"
  let ?lost = "take (unat ?m) (drop (unat after) (published_for sid os))"
  have split: "drop (unat after) (published_for sid os) = ?lost @ ?kept"
    by (rule rg.since_suffix [OF hist assms(3)])
  have len: "unat ?m = length ?lost"
    using rg.since_counts [OF hist assms(3)] by simp
  have b1: "b1 = snd (Subscribe b sid after now)" "h = fresh_sub b"
    using assms(4) Subscribe_handle [of b sid after now] by simp_all
  have gap: "0 < ?m \<longleftrightarrow> ?lost \<noteq> []" "?m = word_of_nat (length ?lost)"
    using len by (auto simp: word_gt_0 unat_eq_0 simp flip: len)
  have replay: "replay = (if ?lost = [] then []
      else [zeroEvent\<lparr>SandboxID := sid, Kind := EventGap, At := now, MissedEvents := word_of_nat (length ?lost)\<rparr>]) @ ?kept"
    using Subscribe_replay [of b sid after now] gap assms(4) by (cases "?lost = []") simp_all
  have "h \<in> set (watchers b1 sid)" "queue b1 h = []"
    by (simp_all add: b1 Subscribe_views Subscribe_sub_views)
  with run_watcher [OF _ assms(5), of h sid] bc_inv_Subscribe [OF inv] obtain n where
    "take n (published_for sid os') = got_by h os' @ queue b2 h"
    "if h \<in> set (watchers b2 sid) then n = length (published_for sid os') else \<not> open_sub b2 h"
    unfolding b1(1) by auto
  with split replay show ?thesis
    by (intro exI [of _ ?lost] exI [of _ ?kept] exI [of _ n]) simp
qed

text \<open>C2: a watcher that resumes after sequence number \<open>after\<close> accounts for every event of the
  sandbox: the replay is the end of what was published after \<open>after\<close>, preceded by a gap event
  that counts exactly the events no longer retained, and what it then receives or has queued is,
  in order and without a hole, what was published since; it is all of it while it still watches,
  and otherwise its channel is closed.\<close>

theorem watcher_accounts_for_every_event:
  assumes "bc_run (NewBroadcaster lim) xs = Some (os, b)" "Suc (length xs) < 2 ^ 64"
    and "unat after \<le> length (published_for sid os)"
    and "Subscribe b sid after now = ((replay, h), b1)" and "bc_run b1 ys = Some (os', b2)"
  shows "\<exists>lost kept n.
    drop (unat after) (published_for sid os) = lost @ kept \<and>
    replay = (if lost = [] then []
      else [zeroEvent\<lparr>SandboxID := sid, Kind := EventGap, At := now, MissedEvents := word_of_nat (length lost)\<rparr>]) @ kept \<and>
    got_by h os' @ queue b2 h = take n (published_for sid os') \<and>
    (if h \<in> set (watchers b2 sid) then n = length (published_for sid os') else \<not> open_sub b2 h)"
  by (rule subscription_account [OF assms])

text \<open>C3: after any run a sandbox's ring holds the longest end of its published history that fits
  the byte budget (one event when not even that fits), and the history is stamped 1, 2, 3, ...\<close>

theorem ring_keeps_longest_suffix:
  assumes "bc_run (NewBroadcaster lim) xs = Some (os, b)" "Suc (length xs) < 2 ^ 64"
    and "budget = (if lim \<le> 0 then DefaultStreamBufferBytes else lim)"
  shows "map (\<lambda>e. unat (Seq e)) (published_for sid os) = [1..<Suc (length (published_for sid os))] \<and>
    (\<exists>k. events (ring_of b sid) = drop k (published_for sid os) \<and>
      (published_for sid os \<noteq> [] \<longrightarrow> events (ring_of b sid) \<noteq> []) \<and>
      (1 < length (events (ring_of b sid)) \<longrightarrow> int (total_size (events (ring_of b sid))) \<le> budget) \<and>
      (\<forall>j<k. budget < int (total_size (drop j (published_for sid os)))))"
proof
  note hist = new_history(1,3) [OF assms(1,2), of sid]
  then show "map (\<lambda>e. unat (Seq e)) (published_for sid os) = [1..<Suc (length (published_for sid os))]"
    by (simp add: ring_repr_def)
  show "\<exists>k. events (ring_of b sid) = drop k (published_for sid os) \<and>
      (published_for sid os \<noteq> [] \<longrightarrow> events (ring_of b sid) \<noteq> []) \<and>
      (1 < length (events (ring_of b sid)) \<longrightarrow> int (total_size (events (ring_of b sid))) \<le> budget) \<and>
      (\<forall>j<k. budget < int (total_size (drop j (published_for sid os))))"
    using hist by (auto simp: ring_repr_def assms(3))
qed

lemma ring_keeps_longest_suffix_witness:
  "\<exists>os b. bc_run (NewBroadcaster 300) [OPublish (zeroEvent\<lparr>SandboxID := ''s''\<rparr>), OPublish (zeroEvent\<lparr>SandboxID := ''s''\<rparr>)] = Some (os, b) \<and>
     (\<exists>k. events (ring_of b ''s'') = drop k (published_for ''s'' os) \<and>
       (\<forall>j<k. 300 < int (total_size (drop j (published_for ''s'' os)))))"
proof -
  let ?xs = "[OPublish (zeroEvent\<lparr>SandboxID := ''s''\<rparr>), OPublish (zeroEvent\<lparr>SandboxID := ''s''\<rparr>)]"
  obtain os b where r: "bc_run (NewBroadcaster 300) ?xs = Some (os, b)"
    using bc_run_inv [OF bc_inv_new] by blast
  from ring_keeps_longest_suffix [OF r, of 300 "''s''"] r show ?thesis by fastforce
qed

lemma watcher_accounts_for_every_event_witness:
  "\<exists>os b replay h b1 os' b2. bc_run (NewBroadcaster 300) [OPublish (zeroEvent\<lparr>SandboxID := ''s''\<rparr>)] = Some (os, b) \<and>
     Subscribe b ''s'' 0 7 = ((replay, h), b1) \<and>
     bc_run b1 [OPublish (zeroEvent\<lparr>SandboxID := ''s''\<rparr>), ORecv h] = Some (os', b2) \<and>
     (\<exists>n. got_by h os' @ queue b2 h = take n (published_for ''s'' os'))"
proof -
  obtain os b where r: "bc_run (NewBroadcaster 300) [OPublish (zeroEvent\<lparr>SandboxID := ''s''\<rparr>)] = Some (os, b)" "bc_inv b"
    using bc_run_inv [OF bc_inv_new] by blast
  obtain replay h b1 where s: "Subscribe b ''s'' 0 7 = ((replay, h), b1)"
    by (metis prod.exhaust)
  then have "bc_inv b1" using bc_inv_Subscribe [OF r(2), of "''s''" 0 7] by simp
  then obtain os' b2 where r': "bc_run b1 [OPublish (zeroEvent\<lparr>SandboxID := ''s''\<rparr>), ORecv h] = Some (os', b2)"
    using bc_run_inv by blast
  from watcher_accounts_for_every_event [OF r(1) _ _ s r'] r(1) s r' show ?thesis by fastforce
qed

end
