(* ===== verification/Procexec.thy ===== *)
theory Procexec imports Prelude begin

text \<open>
  Package \<open>internal/procexec\<close>: holding back a character that a read or a byte limit cut in
  half (\<open>utf8.go\<close>), the capped output buffer (\<open>procexec.go\<close>), and the process-group
  teardown and privilege drop (\<open>procgroup_unix.go\<close>).

  A \<^emph>\<open>character\<close> here is what \<open>runeByteLen\<close> takes it to be: a lead byte followed by as many
  continuation bytes as the lead announces. Every well-formed UTF-8 text is a concatenation of
  such characters. System calls are not computed: the answers of \<open>syscall.Kill\<close> are an
  argument, and the calls made are part of the result.
\<close>

section \<open>utf8.go\<close>

unbundle bit_operations_syntax

definition runeByteLen :: "u8 \<Rightarrow> nat" where
  "runeByteLen b =
     (if b < 0x80 then 1
      else if b AND 0xE0 = 0xC0 then 2
      else if b AND 0xF0 = 0xE0 then 3
      else if b AND 0xF8 = 0xF0 then 4
      else 1)"

definition is_cont :: "char \<Rightarrow> bool" where
  "is_cont c \<longleftrightarrow> 0x80 \<le> byte_of c \<and> byte_of c < 0xC0"

text \<open>The loop \<open>for i := len(b) - 1; i >= start; i--\<close>; the second argument is \<open>i + 1\<close>.\<close>

fun split_scan :: "string \<Rightarrow> nat \<Rightarrow> nat \<Rightarrow> string \<times> string" where
  "split_scan b 0 start = (b, [])"
| "split_scan b (Suc i) start =
     (if i < start then (b, [])
      else if is_cont (b ! i) then split_scan b i start
      else if length b < i + runeByteLen (byte_of (b ! i)) then (take i b, drop i b)
      else (b, []))"

definition SplitCompleteRunes :: "string \<Rightarrow> string \<times> string" where
  "SplitCompleteRunes b = split_scan b (length b) (length b - 4)"

definition TrimIncompleteRune :: "string \<Rightarrow> string" where
  "TrimIncompleteRune b = fst (SplitCompleteRunes b)"

text \<open>What a whole character is, and a text made of whole characters.\<close>

definition whole_char :: "string \<Rightarrow> bool" where
  "whole_char cs \<longleftrightarrow>
     (case cs of [] \<Rightarrow> False
      | l # ts \<Rightarrow> \<not> is_cont l \<and> length cs = runeByteLen (byte_of l) \<and> list_all is_cont ts)"

definition whole_text :: "string list \<Rightarrow> bool" where
  "whole_text cs \<longleftrightarrow> list_all whole_char cs"

lemma runeByteLen_bounds: "1 \<le> runeByteLen b" "runeByteLen b \<le> 4"
  by (auto simp: runeByteLen_def)

lemma split_scan_append: "fst (split_scan b n start) @ snd (split_scan b n start) = b"
  by (induction b n start rule: split_scan.induct) auto

lemma split_append: "fst (SplitCompleteRunes b) @ snd (SplitCompleteRunes b) = b"
  by (simp add: SplitCompleteRunes_def split_scan_append)

lemma split_scan_carry:
  "n \<le> length b \<Longrightarrow> length (snd (split_scan b n start)) < 4"
proof (induction b n start rule: split_scan.induct)
  case (2 b i start)
  then show ?case
    using runeByteLen_bounds(2) [of "byte_of (b ! i)"] by auto
qed simp

lemma split_carry_short: "length (snd (SplitCompleteRunes b)) < 4"
  by (simp add: SplitCompleteRunes_def split_scan_carry)

lemma split_scan_cont:
  assumes "list_all is_cont ts" "start \<le> length u"
  shows "split_scan (u @ ts @ v) (length u + length ts) start = split_scan (u @ ts @ v) (length u) start"
  using assms
proof (induction ts arbitrary: v rule: rev_induct)
  case (snoc t ts)
  have "(u @ (ts @ [t]) @ v) ! (length u + length ts) = t"
    by (simp add: nth_append)
  with snoc.prems snoc.IH [of "t # v"] show ?case by simp
qed simp

lemma split_at_lead:
  assumes "\<not> is_cont l" "list_all is_cont ts" "length ts < 4"
  shows "SplitCompleteRunes (u @ l # ts) =
    (if Suc (length ts) < runeByteLen (byte_of l) then (u, l # ts) else (u @ l # ts, []))"
proof -
  let ?b = "u @ l # ts"
  have "split_scan ?b (length ?b) (length ?b - 4) = split_scan ((u @ [l]) @ ts @ []) (length (u @ [l]) + length ts) (length ?b - 4)"
    by simp
  also have "\<dots> = split_scan ((u @ [l]) @ ts @ []) (length (u @ [l])) (length ?b - 4)"
    using assms by (intro split_scan_cont) auto
  also have "\<dots> = (if Suc (length ts) < runeByteLen (byte_of l) then (u, l # ts) else (?b, []))"
    using assms by (auto simp: nth_append)
  finally show ?thesis by (simp add: SplitCompleteRunes_def)
qed

lemma split_Nil [simp]: "SplitCompleteRunes [] = ([], [])"
  by (simp add: SplitCompleteRunes_def)

lemma split_whole_end:
  assumes "whole_char c" shows "SplitCompleteRunes (u @ c) = (u @ c, [])"
proof -
  obtain l ts where c: "c = l # ts" "\<not> is_cont l" "Suc (length ts) = runeByteLen (byte_of l)" "list_all is_cont ts"
    using assms by (auto simp: whole_char_def split: list.splits)
  with runeByteLen_bounds(2) [of "byte_of l"] show ?thesis
    by (simp add: split_at_lead)
qed

lemma split_whole_text:
  assumes "whole_text cs" shows "SplitCompleteRunes (concat cs) = (concat cs, [])"
proof (cases cs rule: rev_cases)
  case (snoc cs' c)
  with assms have "whole_char c" by (simp add: whole_text_def)
  with snoc show ?thesis by (simp add: split_whole_end)
qed simp

lemma split_broken_char:
  assumes "whole_char (q @ r)" "q \<noteq> []" "r \<noteq> []"
  shows "SplitCompleteRunes (u @ q) = (u, q)"
proof -
  obtain l ts where q: "q = l # ts" using \<open>q \<noteq> []\<close> by (cases q) auto
  from assms q have l: "\<not> is_cont l" "Suc (length ts + length r) = runeByteLen (byte_of l)" "list_all is_cont ts"
    by (auto simp: whole_char_def)
  obtain x r2 where "r = x # r2" using \<open>r \<noteq> []\<close> by (cases r) auto
  with l runeByteLen_bounds(2) [of "byte_of l"] q show ?thesis
    by (simp add: split_at_lead)
qed

text \<open>
  A prefix of a text, wherever it is cut, splits into whole characters of the text and a
  proper part of the next character.
\<close>

lemma split_prefix:
  assumes "whole_text cs" "p @ r = concat cs"
  obtains k where "k \<le> length cs" "fst (SplitCompleteRunes p) = concat (take k cs)"
    and "snd (SplitCompleteRunes p) = [] \<or> (k < length cs \<and> (\<exists>r'. r' \<noteq> [] \<and> cs ! k = snd (SplitCompleteRunes p) @ r'))"
proof -
  obtain k q where k: "k \<le> length cs" "p = concat (take k cs) @ q"
    and q: "q = [] \<or> (k < length cs \<and> (\<exists>r'. r' \<noteq> [] \<and> cs ! k = q @ r'))"
    using append_concat_take_nth [OF assms(2)] by metis
  have w: "whole_text (take k cs)"
    using assms(1) by (auto simp: whole_text_def list_all_iff dest: in_set_takeD)
  show ?thesis
  proof (cases "q = []")
    case True
    with k w that [of k] show ?thesis by (simp add: split_whole_text)
  next
    case False
    with q obtain r' where r': "k < length cs" "r' \<noteq> []" "cs ! k = q @ r'" by blast
    with assms(1) have "whole_char (q @ r')"
      by (metis list_all_length whole_text_def)
    with False r' have "SplitCompleteRunes p = (concat (take k cs), q)"
      unfolding k(2) by (intro split_broken_char)
    with k r' that [of k] show ?thesis by auto
  qed
qed

section \<open>procexec.go\<close>

record CappedBuffer =
  buf :: string
  limit :: int
  truncated :: bool

definition NewCappedBuffer :: "int \<Rightarrow> CappedBuffer" where
  "NewCappedBuffer l = \<lparr>buf = [], limit = l, truncated = False\<rparr>"

text \<open>\<open>Write\<close> returns the count it reports as accepted, with the new buffer.\<close>

definition Write :: "CappedBuffer \<Rightarrow> string \<Rightarrow> CappedBuffer \<times> nat" where
  "Write b p =
     (let remaining = limit b - int (length (buf b)) in
      if remaining \<le> 0 then (b\<lparr>truncated := True\<rparr>, length p)
      else if remaining < int (length p)
      then (b\<lparr>buf := buf b @ take (nat remaining) p, truncated := True\<rparr>, length p)
      else (b\<lparr>buf := buf b @ p\<rparr>, length p))"

definition String :: "CappedBuffer \<Rightarrow> string" where
  "String b = (if truncated b then TrimIncompleteRune (buf b) else buf b)"

fun write_all :: "CappedBuffer \<Rightarrow> string list \<Rightarrow> CappedBuffer" where
  "write_all b [] = b"
| "write_all b (p # ps) = write_all (fst (Write b p)) ps"

text \<open>What the buffer holds, in terms of everything ever written to it.\<close>

definition capped_inv :: "CappedBuffer \<Rightarrow> string \<Rightarrow> bool" where
  "capped_inv b s \<longleftrightarrow>
     buf b = take (nat (limit b)) s \<and> (truncated b \<longleftrightarrow> nat (limit b) < length s)"

lemma Write_limit [simp]: "limit (fst (Write b p)) = limit b"
  by (simp add: Write_def Let_def)

lemma Write_count [simp]: "snd (Write b p) = length p"
  by (simp add: Write_def Let_def)

lemma capped_inv_new: "capped_inv (NewCappedBuffer l) []"
  by (simp add: capped_inv_def NewCappedBuffer_def)

lemma capped_inv_Write:
  assumes "capped_inv b s" "p \<noteq> []"
  shows "capped_inv (fst (Write b p)) (s @ p)"
proof -
  have len: "length (buf b) = min (length s) (nat (limit b))"
    using assms(1) by (simp add: capped_inv_def)
  obtain x xs where "p = x # xs" using assms(2) by (cases p) auto
  with assms(1) len show ?thesis
    by (auto simp: capped_inv_def Write_def Let_def min_def nat_diff_distrib split: if_splits)
qed

lemma capped_inv_write_all:
  assumes "capped_inv b s" "\<forall>p\<in>set ps. p \<noteq> []"
  shows "capped_inv (write_all b ps) (s @ concat ps)"
  using assms
proof (induction b ps arbitrary: s rule: write_all.induct)
  case (2 b p ps)
  then have "capped_inv (fst (Write b p)) (s @ p)"
    by (intro capped_inv_Write) auto
  with 2 show ?case by fastforce
qed simp

lemma write_all_limit [simp]: "limit (write_all b ps) = limit b"
  by (induction b ps rule: write_all.induct) auto

lemma write_all_new:
  assumes "\<forall>p\<in>set ps. p \<noteq> []"
  shows "buf (write_all (NewCappedBuffer l) ps) = take (nat l) (concat ps)"
    and "truncated (write_all (NewCappedBuffer l) ps) \<longleftrightarrow> nat l < length (concat ps)"
  using capped_inv_write_all [OF capped_inv_new assms, of l]
  by (auto simp: capped_inv_def NewCappedBuffer_def)

section \<open>procgroup_unix.go\<close>

datatype signal = SIGSTOP | SIGKILL | SIGCONT
datatype errno = ESRCH | EPERM
datatype kill_act = SysKill int signal | Sleep

definition killPasses :: nat where "killPasses = 3"

text \<open>
  \<open>KillGroup\<close>: \<open>answer i\<close> is what \<open>syscall.Kill(-pid, SIGKILL)\<close> returns in pass \<open>i\<close>. The
  recursion counts the passes left; the result is \<open>firstErr\<close> and the calls made, in order.
\<close>

fun kill_pass :: "int \<Rightarrow> (nat \<Rightarrow> errno option) \<Rightarrow> nat \<Rightarrow> errno option \<Rightarrow> errno option \<times> kill_act list" where
  "kill_pass pid answer 0 firstErr = (firstErr, [])"
| "kill_pass pid answer (Suc left) firstErr =
     (let pass = killPasses - Suc left;
          err = answer pass;
          acts = [SysKill (- pid) SIGSTOP, SysKill (- pid) SIGKILL, SysKill (- pid) SIGCONT];
          first' = (if pass = 0 then err else firstErr)
      in if err = Some ESRCH then (first', acts)
         else (let (r, rest) = kill_pass pid answer left first'
               in (r, acts @ (if pass < killPasses - 1 then [Sleep] else []) @ rest)))"

definition KillGroup :: "int \<Rightarrow> (nat \<Rightarrow> errno option) \<Rightarrow> errno option \<times> kill_act list" where
  "KillGroup pid answer = kill_pass pid answer killPasses None"

record credential =
  cred_uid :: u32
  cred_gid :: u32
  cred_groups :: "u32 list"

record sys_proc_attr =
  Setpgid :: bool
  Credential :: "credential option"

definition attr_or_new :: "sys_proc_attr option \<Rightarrow> sys_proc_attr" where
  "attr_or_new a = (case a of None \<Rightarrow> \<lparr>Setpgid = False, Credential = None\<rparr> | Some x \<Rightarrow> x)"

definition Configure :: "sys_proc_attr option \<Rightarrow> sys_proc_attr option" where
  "Configure a = Some ((attr_or_new a)\<lparr>Setpgid := True\<rparr>)"

definition DropTo :: "sys_proc_attr option \<Rightarrow> u32 \<Rightarrow> sys_proc_attr option" where
  "DropTo a uid =
     (if uid = 0 then a
      else Some ((attr_or_new a)\<lparr>Credential := Some \<lparr>cred_uid = uid, cred_gid = uid, cred_groups = []\<rparr>\<rparr>))"

lemmas kill_unfold = KillGroup_def killPasses_def numeral_3_eq_3

lemma KillGroup_first: "fst (KillGroup pid answer) = answer 0"
  by (simp add: kill_unfold Let_def split: prod.splits)

lemma KillGroup_targets:
  "SysKill p s \<in> set (snd (KillGroup pid answer)) \<Longrightarrow> p = - pid"
  by (auto simp: kill_unfold Let_def split: prod.splits if_splits)

definition n_kills :: "kill_act list \<Rightarrow> nat" where
  "n_kills acts = length (filter (\<lambda>a. case a of SysKill p s \<Rightarrow> s = SIGKILL | Sleep \<Rightarrow> False) acts)"

lemma KillGroup_passes:
  "n_kills (snd (KillGroup pid answer)) =
     (if answer 0 = Some ESRCH then 1 else if answer 1 = Some ESRCH then 2 else 3)"
  by (simp add: kill_unfold n_kills_def Let_def split: prod.splits)

section \<open>Other platforms\<close>

text \<open>What stands in for the two where there are no process groups (\<open>procgroup_other.go\<close>): a command
  keeps its attributes, and killing its group is refused and signals nothing.\<close>

definition errNoProcessGroups :: gerr where
  "errNoProcessGroups = Sentinel ''process groups are not supported on this platform''"

definition other_Configure :: "sys_proc_attr option \<Rightarrow> sys_proc_attr option" where
  "other_Configure a = a"

definition other_KillGroup :: "int \<Rightarrow> gerr option \<times> kill_act list" where
  "other_KillGroup pid = (Some errNoProcessGroups, [])"

section \<open>Properties\<close>

lemma maximal_prefix:
  assumes "whole_text cs" "k \<le> length cs"
    and "take n (concat cs) = concat (take k cs) @ q" and "q = [] \<or> (k < length cs \<and> (\<exists>r'. r' \<noteq> [] \<and> cs ! k = q @ r'))"
  shows "(k = length cs \<longleftrightarrow> length (concat cs) \<le> n) \<and> (k < length cs \<longrightarrow> n < length (concat (take (Suc k) cs)))"
proof (cases "k < length cs")
  case True
  have c: "cs ! k \<noteq> []" using assms(1) True by (auto simp: whole_text_def list_all_length whole_char_def)
  have tk: "concat (take (Suc k) cs) = concat (take k cs) @ cs ! k" using True by (simp add: take_Suc_conv_app_nth)
  have cat: "concat cs = concat (take (Suc k) cs) @ concat (drop (Suc k) cs)" by (metis append_take_drop_id concat_append)
  have short: "length (take n (concat cs)) < length (concat (take (Suc k) cs))"
    using assms(3,4) c by (auto simp: tk)
  with cat have "n < length (concat (take (Suc k) cs))" by (simp add: min_def split: if_splits)
  with True cat show ?thesis by simp
next
  case False
  with assms have "k = length cs" "take n (concat cs) = concat cs" by auto
  then show ?thesis by (metis length_take less_irrefl min.cobounded2)
qed

text \<open>C4: whatever the limit and however the program's writes are chunked, what the output buffer
  returns is the longest sequence of whole characters of the output that fits the limit: never a
  piece of a character, never a character fewer than fit; it is everything when everything fits.\<close>

theorem output_is_longest_whole_prefix:
  assumes "whole_text cs" "concat ps = concat cs" "[] \<notin> set ps"
  shows "\<exists>k\<le>length cs. String (write_all (NewCappedBuffer l) ps) = concat (take k cs) \<and>
    (k = length cs \<longleftrightarrow> length (concat cs) \<le> nat l) \<and>
    (k < length cs \<longrightarrow> nat l < length (concat (take (Suc k) cs)))"
proof -
  have "\<forall>p\<in>set ps. p \<noteq> []" using assms(3) by auto
  note wr = write_all_new [OF this, of l, unfolded assms(2)]
  obtain k where k: "k \<le> length cs" "fst (SplitCompleteRunes (take (nat l) (concat cs))) = concat (take k cs)"
    "snd (SplitCompleteRunes (take (nat l) (concat cs))) = [] \<or>
      (k < length cs \<and> (\<exists>r'. r' \<noteq> [] \<and> cs ! k = snd (SplitCompleteRunes (take (nat l) (concat cs))) @ r'))"
    by (rule split_prefix [OF assms(1) append_take_drop_id])
  from maximal_prefix [OF assms(1) k(1) _ k(3)] k(2) split_append [of "take (nat l) (concat cs)"]
  have m: "(k = length cs \<longleftrightarrow> length (concat cs) \<le> nat l) \<and> (k < length cs \<longrightarrow> nat l < length (concat (take (Suc k) cs)))"
    by metis
  have "String (write_all (NewCappedBuffer l) ps) = concat (take k cs)"
    using wr k m by (auto simp: String_def TrimIncompleteRune_def)
  with k(1) m show ?thesis by blast
qed

lemma output_is_longest_whole_prefix_witness:
  "let cs = [''a'', [CHR 0xC3, CHR 0xA9], [CHR 0xC3, CHR 0xA8]];
       s = String (write_all (NewCappedBuffer 3) [''a'' @ [CHR 0xC3], [CHR 0xA9, CHR 0xC3, CHR 0xA8]])
   in \<exists>k\<le>length cs. s = concat (take k cs) \<and> (k = length cs \<longleftrightarrow> length (concat cs) \<le> nat 3)"
proof -
  have "whole_text [''a'', [CHR 0xC3, CHR 0xA9], [CHR 0xC3, CHR 0xA8]]" by code_simp
  from output_is_longest_whole_prefix [OF this, of "[''a'' @ [CHR 0xC3], [CHR 0xA9, CHR 0xC3, CHR 0xA8]]" 3]
  show ?thesis unfolding Let_def by fastforce
qed

text \<open>\<open>KillGroup\<close> reports the first pass's error, signals nothing but the group \<open>-pid\<close>, opens
  every pass by stopping the group before it kills it, and makes three kill passes unless the
  group is already gone.\<close>

theorem KillGroup_contract:
  "fst (KillGroup pid answer) = answer 0 \<and>
   list_all (\<lambda>a. case a of SysKill p s \<Rightarrow> p = - pid | Sleep \<Rightarrow> True) (snd (KillGroup pid answer)) \<and>
   take 3 (snd (KillGroup pid answer)) = [SysKill (- pid) SIGSTOP, SysKill (- pid) SIGKILL, SysKill (- pid) SIGCONT] \<and>
   n_kills (snd (KillGroup pid answer)) =
     (if answer 0 = Some ESRCH then 1 else if answer 1 = Some ESRCH then 2 else 3)"
proof -
  have "list_all (\<lambda>a. case a of SysKill p s \<Rightarrow> p = - pid | Sleep \<Rightarrow> True) (snd (KillGroup pid answer))"
    by (auto simp: list_all_iff split: kill_act.split dest: KillGroup_targets)
  moreover have "take 3 (snd (KillGroup pid answer)) = [SysKill (- pid) SIGSTOP, SysKill (- pid) SIGKILL, SysKill (- pid) SIGCONT]"
    by (simp add: kill_unfold Let_def split: prod.splits)
  ultimately show ?thesis by (simp add: KillGroup_first KillGroup_passes)
qed

end
