(* ===== verification/Sandbox_Config.thy ===== *)
theory Sandbox_Config imports Procexec begin

text \<open>
  Package \<open>internal/sandbox\<close>: the sentinel errors, the configuration and the result types of
  \<open>sandbox.go\<close>. A \<open>time.Duration\<close> is its count of nanoseconds.
\<close>

definition ErrPathOutsideSandbox :: gerr where
  "ErrPathOutsideSandbox = Sentinel ''path is outside sandbox directory''"
definition ErrCommandTimeout :: gerr where
  "ErrCommandTimeout = Sentinel ''command execution timed out''"
definition ErrCommandStopped :: gerr where
  "ErrCommandStopped = Sentinel ''command execution was stopped''"
definition ErrEmptyProgram :: gerr where
  "ErrEmptyProgram = Sentinel ''a program to execute is required''"

lemmas sandbox_errors = ErrPathOutsideSandbox_def ErrCommandTimeout_def ErrCommandStopped_def ErrEmptyProgram_def

definition ChunkSize :: nat where "ChunkSize = 16 * 1024"

definition second :: int where "second = 1000000000"

record UIDRange =
  First :: u32
  Count :: u32

record Config =
  RootDir :: string
  DefaultTimeout :: int
  MaxOutput :: int
  OpHelperArgs :: "string list"
  VenvDir :: string
  PythonProgram :: string
  cfg_UIDRange :: UIDRange
  EnvPassthrough :: "string list option"
  ExtraEnv :: "string list"

text \<open>\<open>DefaultEnvPassthrough\<close> of \<open>env.go\<close>.\<close>

definition DefaultEnvPassthrough :: "string list" where
  "DefaultEnvPassthrough = [''PATH'', ''LANG'', ''LC_ALL'', ''LC_CTYPE'', ''TZ'']"

definition DefaultConfig :: "string \<Rightarrow> Config" where
  "DefaultConfig rootDir =
     \<lparr>RootDir = (if rootDir = [] then ''./scratch'' else rootDir), DefaultTimeout = 30 * second,
      MaxOutput = 512 * 1024, OpHelperArgs = [], VenvDir = [], PythonProgram = [],
      cfg_UIDRange = \<lparr>First = 0, Count = 0\<rparr>, EnvPassthrough = Some DefaultEnvPassthrough, ExtraEnv = []\<rparr>"

definition WithDefaults :: "Config \<Rightarrow> Config" where
  "WithDefaults c =
     (let c1 = (if DefaultTimeout c \<le> 0 then c\<lparr>DefaultTimeout := 30 * second\<rparr> else c)
      in if MaxOutput c1 \<le> 0 then c1\<lparr>MaxOutput := 512 * 1024\<rparr> else c1)"

record ExecResult =
  res_ExecID :: string
  res_Stdout :: string
  res_Stderr :: string
  res_ExitCode :: int
  res_DurationMs :: int
  res_Truncated :: bool

definition zeroExecResult :: ExecResult where
  "zeroExecResult = \<lparr>res_ExecID = [], res_Stdout = [], res_Stderr = [], res_ExitCode = 0, res_DurationMs = 0,
     res_Truncated = False\<rparr>"

record SandboxStatus =
  ss_RootDir :: string
  ss_DefaultTimeout :: string
  ss_MaxOutputBytes :: int
  ss_EnvNames :: "string list"
  ss_RunningCommand :: int

record DeleteResult =
  del_Existed :: bool
  del_WasDirectory :: bool

end
