(* ===== verification/Worker_Hub.thy ===== *)
theory Worker_Hub imports Worker_Wire Stream_Live Sandbox_Config "HOL-Library.Char_ord" "HOL-Library.List_Lexorder" begin

text \<open>
  Package \<open>internal/workerhub\<close>, file \<open>workerhub.go\<close>: the server's side of the worker link.

  A \<open>*worker\<close> is a handle into \<open>conns\<close>; the channel a caller waits on (capacity one) is a
  handle into \<open>chans\<close>, the list being its buffer. Each stretch of code under \<open>h.mu\<close> or \<open>w.mu\<close>
  is one function of the state; a whole operation composes them with whatever other goroutines
  do in between. \<open>sent\<close> is what was written to the socket. A send on a full channel blocks for
  ever, and a publish on a closed subscription panics: both are the value \<open>None\<close>.
\<close>

section \<open>State\<close>

definition ErrNoWorker :: gerr where
  "ErrNoWorker = Sentinel ''no execution worker is connected''"

record worker =
  w_id :: string
  w_version :: string
  w_limits :: Limits
  w_connectedAt :: int
  nextID :: u64
  pending :: "(u64, nat) gomap"
  w_closed :: bool
  closeErr :: "gerr option"
  sent :: "Frame list"

record Hub =
  bus :: Broadcaster
  workers :: "(string, nat) gomap"
  assignments :: "(string, nat) gomap"
  conns :: "(nat, worker) gomap"
  next_conn :: nat
  chans :: "(nat, Frame list) gomap"
  next_chan :: nat

definition newHub :: "Broadcaster \<Rightarrow> Hub" where
  "newHub b = \<lparr>bus = b, workers = [], assignments = [], conns = [], next_conn = 0, chans = [], next_chan = 0\<rparr>"

definition conn_of :: "Hub \<Rightarrow> nat \<Rightarrow> worker" where
  "conn_of h w =
     (case mget (conns h) w of
        Some wk \<Rightarrow> wk
      | None \<Rightarrow> \<lparr>w_id = [], w_version = [], w_limits = \<lparr>MaxOutputBytes = 0, MaxFileBytes = 0\<rparr>, w_connectedAt = 0,
                 nextID = 0, pending = [], w_closed = True, closeErr = None, sent = []\<rparr>)"

definition upd_conn :: "nat \<Rightarrow> (worker \<Rightarrow> worker) \<Rightarrow> Hub \<Rightarrow> Hub" where
  "upd_conn w f h = (case mget (conns h) w of None \<Rightarrow> h | Some wk \<Rightarrow> h\<lparr>conns := mset_key w (f wk) (conns h)\<rparr>)"

section \<open>Reports\<close>

record WorkerInfo =
  wi_WorkerID :: string
  wi_Version :: string
  wi_ConnectedAt :: int
  wi_Agents :: "string list"
  wi_Limits :: Limits

definition agents_of :: "Hub \<Rightarrow> string \<Rightarrow> string list" where
  "agents_of h i = map fst (filter (\<lambda>(a, w). w_id (conn_of h w) = i) (assignments h))"

definition Workers :: "Hub \<Rightarrow> WorkerInfo list" where
  "Workers h =
     map (\<lambda>(i, w). let wk = conn_of h w in
            \<lparr>wi_WorkerID = w_id wk, wi_Version = w_version wk, wi_ConnectedAt = w_connectedAt wk,
             wi_Agents = agents_of h (w_id wk), wi_Limits = w_limits wk\<rparr>) (workers h)"

definition WorkerFor :: "Hub \<Rightarrow> string \<Rightarrow> string option" where
  "WorkerFor h agentID = map_option (\<lambda>w. w_id (conn_of h w)) (mget (assignments h) agentID)"

section \<open>Connecting\<close>

datatype http_answer = HttpError nat string | Upgraded

definition Handler :: "string \<Rightarrow> string \<Rightarrow> http_answer" where
  "Handler token authorization =
     (if token = [] then HttpError 503 ''worker endpoint is disabled: no --worker-token configured''
      else (let (presented, ok) = CutPrefix authorization ''Bearer ''
            in if \<not> ok \<or> presented \<noteq> token then HttpError 401 ''invalid worker token'' else Upgraded))"

datatype close_status = StatusProtocolError | StatusPolicyViolation

datatype hello_outcome = Refused close_status string | Serving nat u64

fun pin_back :: "nat \<Rightarrow> string list \<Rightarrow> (string, nat) gomap \<Rightarrow> (string, nat) gomap \<times> nat \<times> nat" where
  "pin_back w [] asg = (asg, 0, 0)"
| "pin_back w (a # as) asg =
     (if a = [] then pin_back w as asg
      else case mget asg a of
        Some e \<Rightarrow>
          if e \<noteq> w then (let (asg', restored, contested) = pin_back w as asg in (asg', restored, Suc contested))
          else (let (asg', restored, contested) = pin_back w as (mset_key a w asg) in (asg', Suc restored, contested))
      | None \<Rightarrow> (let (asg', restored, contested) = pin_back w as (mset_key a w asg) in (asg', Suc restored, contested)))"

text \<open>\<open>serve\<close> up to its read loop; \<open>None\<close> is a first read that failed. \<open>Serving w n\<close>: the worker
  is registered as \<open>w\<close> and its socket reads at most \<open>n\<close> bytes per message.\<close>

definition serve_hello :: "int \<Rightarrow> Frame option \<Rightarrow> Hub \<Rightarrow> hello_outcome \<times> Hub" where
  "serve_hello now first h =
     (case first of
        None \<Rightarrow> (Refused StatusProtocolError ''expected a hello frame'', h)
      | Some hello \<Rightarrow>
          if Type hello \<noteq> FrameHello \<or> WorkerID hello = []
          then (Refused StatusProtocolError ''first frame must be a hello naming the worker'', h)
          else if Protocol hello \<noteq> ProtocolVersion
          then (Refused StatusPolicyViolation (''this server speaks worker protocol '' @ show_int ProtocolVersion
                  @ '', the worker speaks '' @ show_int (Protocol hello) @ [CHR 0x20, CHR 0xE2, CHR 0x80, CHR 0x94, CHR 0x20]
                  @ ''update whichever is older''), h)
          else case FLimits hello of
            None \<Rightarrow> (Refused StatusProtocolError ''hello must declare the worker's limits'', h)
          | Some limits \<Rightarrow>
              (case Validate limits of
                 Some err \<Rightarrow> (Refused StatusPolicyViolation (''unusable limits: '' @ err_text err), h)
               | None \<Rightarrow>
                   if mget (workers h) (WorkerID hello) \<noteq> None
                   then (Refused StatusPolicyViolation ''a worker with that id is already connected'', h)
                   else
                     (let w = next_conn h;
                          wk = \<lparr>w_id = WorkerID hello, w_version = Version hello, w_limits = limits, w_connectedAt = now,
                                nextID = 0, pending = [], w_closed = False, closeErr = None, sent = []\<rparr>;
                          (asg, restored, contested) = pin_back w (Agents hello) (assignments h)
                      in (Serving w (FrameBytes limits),
                          h\<lparr>conns := mset_key w wk (conns h), next_conn := Suc w,
                             workers := mset_key (WorkerID hello) w (workers h), assignments := asg\<rparr>))))"

section \<open>Frames from a worker\<close>

definition put_chan :: "nat \<Rightarrow> Frame \<Rightarrow> Hub \<Rightarrow> Hub option" where
  "put_chan c f h =
     (case mget (chans h) c of
        Some [] \<Rightarrow> Some (h\<lparr>chans := mset_key c [f] (chans h)\<rparr>)
      | _ \<Rightarrow> None)"

text \<open>The waiter is taken out under the lock and answered after it.\<close>

definition deliver_take :: "nat \<Rightarrow> Frame \<Rightarrow> Hub \<Rightarrow> nat option \<times> Hub" where
  "deliver_take w frame h =
     (mget (pending (conn_of h w)) (ID frame), upd_conn w (\<lambda>wk. wk\<lparr>pending := mdel (ID frame) (pending wk)\<rparr>) h)"

definition deliver :: "nat \<Rightarrow> Frame \<Rightarrow> Hub \<Rightarrow> Hub option" where
  "deliver w frame h =
     (let (waiter, h1) = deliver_take w frame h
      in case waiter of None \<Rightarrow> Some h1 | Some c \<Rightarrow> put_chan c frame h1)"

definition publish_on :: "Hub \<Rightarrow> Event \<Rightarrow> Hub option" where
  "publish_on h e = map_option (\<lambda>(stamped, b). h\<lparr>bus := b\<rparr>) (Publish (bus h) e)"

definition serve_frame :: "nat \<Rightarrow> Frame \<Rightarrow> Hub \<Rightarrow> Hub option" where
  "serve_frame w frame h =
     (if Type frame = FrameResult then deliver w frame h
      else if Type frame = FrameEvent
      then (case FEvent frame of None \<Rightarrow> Some h | Some e \<Rightarrow> publish_on h e)
      else Some h)"

section \<open>Losing a worker\<close>

definition drop_detach :: "nat \<Rightarrow> Hub \<Rightarrow> string list \<times> Hub" where
  "drop_detach w h =
     (map fst (filter (\<lambda>(a, v). v = w) (assignments h)),
      h\<lparr>workers := mdel (w_id (conn_of h w)) (workers h),
         assignments := filter (\<lambda>(a, v). v \<noteq> w) (assignments h)\<rparr>)"

definition drop_close :: "nat \<Rightarrow> gerr \<Rightarrow> Hub \<Rightarrow> (u64, nat) gomap \<times> Hub" where
  "drop_close w reason h =
     (pending (conn_of h w), upd_conn w (\<lambda>wk. wk\<lparr>w_closed := True, closeErr := Some reason, pending := []\<rparr>) h)"

fun fail_waiters :: "gerr \<Rightarrow> (u64, nat) gomap \<Rightarrow> Hub \<Rightarrow> Hub option" where
  "fail_waiters reason [] h = Some h"
| "fail_waiters reason ((i, c) # ws) h =
     (case put_chan c (zeroFrame\<lparr>Type := FrameResult, ID := i, OK := False, Error := err_text reason\<rparr>) h of
        None \<Rightarrow> None
      | Some h1 \<Rightarrow> fail_waiters reason ws h1)"

definition orphan_event :: "int \<Rightarrow> string \<Rightarrow> string \<Rightarrow> Event" where
  "orphan_event now agentID workerID =
     zeroEvent\<lparr>SandboxID := agentID, Kind := EventKilled, At := now, ByActor := ''worker '' @ workerID,
       Reason := ''worker disconnected; anything running has stopped, and the sandbox returns only if ''
         @ ''that worker reconnects still holding it''\<rparr>"

fun tell_watchers :: "int \<Rightarrow> string \<Rightarrow> string list \<Rightarrow> Hub \<Rightarrow> Hub option" where
  "tell_watchers now wid [] h = Some h"
| "tell_watchers now wid (a # as) h =
     (case publish_on h (orphan_event now a wid) of None \<Rightarrow> None | Some h1 \<Rightarrow> tell_watchers now wid as h1)"

text \<open>\<open>others i\<close> is what other goroutines do before the \<open>i\<close>-th critical section.\<close>

definition drop_worker :: "(nat \<Rightarrow> Hub \<Rightarrow> Hub) \<Rightarrow> int \<Rightarrow> nat \<Rightarrow> gerr \<Rightarrow> Hub \<Rightarrow> Hub option" where
  "drop_worker others now w reason h =
     (let wid = w_id (conn_of h w);
          (orphaned, h1) = drop_detach w (others 0 h);
          (waiters, h2) = drop_close w reason (others 1 h1)
      in case fail_waiters reason waiters (others 2 h2) of
           None \<Rightarrow> None
         | Some h3 \<Rightarrow> tell_watchers now wid orphaned (others 3 h3))"

section \<open>Routing\<close>

definition load_of :: "Hub \<Rightarrow> string \<Rightarrow> nat" where
  "load_of h i = length (filter (\<lambda>(a, w). w_id (conn_of h w) = i) (assignments h))"

definition better :: "Hub \<Rightarrow> nat \<Rightarrow> nat \<Rightarrow> bool" where
  "better h w best \<longleftrightarrow>
     load_of h (w_id (conn_of h w)) < load_of h (w_id (conn_of h best)) \<or>
     (load_of h (w_id (conn_of h w)) = load_of h (w_id (conn_of h best)) \<and>
      w_id (conn_of h w) < w_id (conn_of h best))"

fun pick :: "Hub \<Rightarrow> nat option \<Rightarrow> nat list \<Rightarrow> nat option" where
  "pick h best [] = best"
| "pick h best (w # ws) =
     pick h (case best of None \<Rightarrow> Some w | Some b \<Rightarrow> if better h w b then Some w else Some b) ws"

definition workerFor :: "Hub \<Rightarrow> string \<Rightarrow> nat res \<times> Hub" where
  "workerFor h agentID =
     (case mget (assignments h) agentID of
        Some w \<Rightarrow> (Inr w, h)
      | None \<Rightarrow>
          if workers h = [] then (Inl ErrNoWorker, h)
          else case pick h None (map snd (workers h)) of
                 None \<Rightarrow> (Inl ErrNoWorker, h)
               | Some best \<Rightarrow> (Inr best, h\<lparr>assignments := mset_key agentID best (assignments h)\<rparr>))"

section \<open>Calling\<close>

definition register :: "nat \<Rightarrow> Hub \<Rightarrow> (u64 \<times> nat) res \<times> Hub" where
  "register w h =
     (let wk = conn_of h w in
      if w_closed wk
      then (Inl (Wrap (''worker '' @ w_id wk @ '': '') (case closeErr wk of Some e \<Rightarrow> e | None \<Rightarrow> Plain ''%!w(<nil>)'') []), h)
      else
        (let i = nextID wk + 1; c = next_chan h
         in (Inr (i, c),
             (upd_conn w (\<lambda>wk. wk\<lparr>nextID := i, pending := mset_key i c (pending wk)\<rparr>) h)
               \<lparr>chans := mset_key c [] (chans h), next_chan := Suc c\<rparr>)))"

definition unregister :: "nat \<Rightarrow> u64 \<Rightarrow> Hub \<Rightarrow> Hub" where
  "unregister w i h = upd_conn w (\<lambda>wk. wk\<lparr>pending := mdel i (pending wk)\<rparr>) h"

definition send_frame :: "nat \<Rightarrow> Frame \<Rightarrow> gerr option \<Rightarrow> Hub \<Rightarrow> gerr option \<times> Hub" where
  "send_frame w f outcome h =
     (outcome, (if outcome = None then upd_conn w (\<lambda>wk. wk\<lparr>sent := sent wk @ [f]\<rparr>) h else h))"

definition receive :: "nat \<Rightarrow> Hub \<Rightarrow> Frame option \<times> Hub" where
  "receive c h =
     (case mget (chans h) c of
        Some (f # fs) \<Rightarrow> (Some f, h\<lparr>chans := mset_key c fs (chans h)\<rparr>)
      | _ \<Rightarrow> (None, h))"

definition answer_of :: "Frame \<Rightarrow> json option res" where
  "answer_of f = (if OK f then Inr (Payload f) else Inl (Plain (Error f)))"

text \<open>
  The whole of \<open>call\<close>. \<open>werr i\<close> is the outcome of its \<open>i\<close>-th frame write; \<open>ctx\<close> says which arm of
  the final \<open>select\<close> is taken: \<open>Some e\<close> is \<open>ctx.Done()\<close> with \<open>ctx.Err() = e\<close>. The result \<open>None\<close>
  is a call still waiting; the payload of an answer is decoded by the operation that called.
\<close>

definition call :: "(nat \<Rightarrow> Hub \<Rightarrow> Hub) \<Rightarrow> (nat \<Rightarrow> gerr option) \<Rightarrow> gerr option \<Rightarrow> string \<Rightarrow> Op \<Rightarrow> json \<Rightarrow> Hub
    \<Rightarrow> json option res option \<times> Hub" where
  "call others werr ctx agentID op raw h =
     (let (r, h1) = workerFor (others 0 h) agentID in
      case r of
        Inl e \<Rightarrow> (Some (Inl (Wrap [] e ('' for sandbox '' @ agentID))), h1)
      | Inr w \<Rightarrow>
          (let most = sint (MaxPayloadBytes (w_limits (conn_of h1 w))) in
           if most < int (jlen raw) then (Some (Inl (ErrPayloadTooLarge op (int (jlen raw)) most)), h1)
           else
             (let (reg, h2) = register w (others 1 h1) in
              case reg of
                Inl e \<Rightarrow> (Some (Inl e), h2)
              | Inr (i, c) \<Rightarrow>
                  (let (serr, h3) = send_frame w (zeroFrame\<lparr>Type := FrameRequest, ID := i, AgentID := agentID, FOp := op,
                                      Payload := Some raw\<rparr>) (werr 0) (others 2 h2) in
                   case serr of
                     Some e \<Rightarrow>
                       (Some (Inl (Wrap (''send '' @ op @ '' to worker '' @ w_id (conn_of h1 w) @ '': '') e [])),
                        unregister w i (others 3 h3))
                   | None \<Rightarrow>
                       (case ctx of
                          Some e \<Rightarrow>
                            (let h4 = unregister w i (others 3 h3);
                                 (cerr, h5) = send_frame w (zeroFrame\<lparr>Type := FrameCancel, ID := i\<rparr>) (werr 1) (others 4 h4)
                             in (Some (Inl e), h5))
                        | None \<Rightarrow>
                            (case receive c (others 3 h3) of
                               (None, h4) \<Rightarrow> (None, h4)
                             | (Some f, h4) \<Rightarrow> (Some (answer_of f), h4)))))))"

end
