(* ===== verification/Worker_Hub_Routes.thy ===== *)
theory Worker_Hub_Routes imports Worker_Hub begin

text \<open>
  Routing in the hub: an agent is always assigned to a live connection, the choice for a new
  agent does not depend on the order in which the map of workers is visited, and nothing but
  the loss of its worker moves an agent.
\<close>

section \<open>The connection heap\<close>

definition known :: "Hub \<Rightarrow> nat \<Rightarrow> bool" where
  "known h w \<longleftrightarrow> mget (conns h) w \<noteq> None"

lemma conn_of_upd [simp]:
  "conn_of (upd_conn w f h) v = (if v = w \<and> known h w then f (conn_of h w) else conn_of h v)"
  by (auto simp: conn_of_def upd_conn_def known_def split: option.splits)

lemma known_upd [simp]: "known (upd_conn w f h) v \<longleftrightarrow> known h v"
  by (auto simp: known_def upd_conn_def split: option.splits)

lemma upd_conn_fields [simp]:
  "bus (upd_conn w f h) = bus h" "workers (upd_conn w f h) = workers h"
  "assignments (upd_conn w f h) = assignments h" "next_conn (upd_conn w f h) = next_conn h"
  "chans (upd_conn w f h) = chans h" "next_chan (upd_conn w f h) = next_chan h"
  by (auto simp: upd_conn_def split: option.splits)

lemma conn_of_fields [simp]:
  "conn_of (h\<lparr>bus := b\<rparr>) = conn_of h" "conn_of (h\<lparr>workers := x\<rparr>) = conn_of h"
  "conn_of (h\<lparr>assignments := y\<rparr>) = conn_of h" "conn_of (h\<lparr>chans := z\<rparr>) = conn_of h"
  "conn_of (h\<lparr>next_chan := n\<rparr>) = conn_of h" "conn_of (h\<lparr>next_conn := m\<rparr>) = conn_of h"
  by (auto simp: conn_of_def fun_eq_iff)

lemma known_fields [simp]:
  "known (h\<lparr>bus := b\<rparr>) = known h" "known (h\<lparr>workers := x\<rparr>) = known h"
  "known (h\<lparr>assignments := y\<rparr>) = known h" "known (h\<lparr>chans := z\<rparr>) = known h"
  "known (h\<lparr>next_chan := n\<rparr>) = known h" "known (h\<lparr>next_conn := m\<rparr>) = known h"
  by (auto simp: known_def fun_eq_iff)

lemma conn_of_new: "conn_of (h\<lparr>conns := mset_key w wk (conns h)\<rparr>) v = (if v = w then wk else conn_of h v)"
  by (simp add: conn_of_def)

lemma known_new: "known (h\<lparr>conns := mset_key w wk (conns h)\<rparr>) v \<longleftrightarrow> v = w \<or> known h v"
  by (simp add: known_def)

section \<open>The routing invariant\<close>

definition live :: "Hub \<Rightarrow> nat \<Rightarrow> bool" where
  "live h w \<longleftrightarrow> known h w \<and> mget (workers h) (w_id (conn_of h w)) = Some w"

definition routes_ok :: "Hub \<Rightarrow> bool" where
  "routes_ok h \<longleftrightarrow>
     mwf (workers h) \<and> mwf (assignments h) \<and>
     (\<forall>i w. mget (workers h) i = Some w \<longrightarrow> known h w \<and> w_id (conn_of h w) = i \<and> \<not> w_closed (conn_of h w)) \<and>
     (\<forall>a w. mget (assignments h) a = Some w \<longrightarrow> live h w) \<and>
     (\<forall>w. known h w \<longrightarrow> w < next_conn h)"

lemma routes_okD:
  assumes "routes_ok h"
  shows "mwf (workers h)" "mwf (assignments h)"
    "mget (workers h) i = Some w \<Longrightarrow> known h w" "mget (workers h) i = Some w \<Longrightarrow> w_id (conn_of h w) = i"
    "mget (workers h) i = Some w \<Longrightarrow> \<not> w_closed (conn_of h w)"
    "mget (assignments h) a = Some w \<Longrightarrow> live h w" "known h w \<Longrightarrow> w < next_conn h"
  using assms unfolding routes_ok_def by blast+

lemma routes_okI:
  assumes "mwf (workers h)" "mwf (assignments h)"
    "\<And>i w. mget (workers h) i = Some w \<Longrightarrow> known h w \<and> w_id (conn_of h w) = i \<and> \<not> w_closed (conn_of h w)"
    "\<And>a w. mget (assignments h) a = Some w \<Longrightarrow> live h w" "\<And>w. known h w \<Longrightarrow> w < next_conn h"
  shows "routes_ok h"
  using assms unfolding routes_ok_def by blast

lemma routes_ok_new: "routes_ok (newHub b)"
  by (simp add: routes_ok_def newHub_def known_def)

text \<open>Routing only reads the maps, the names and the closed flags.\<close>

lemma routes_ok_cong:
  assumes "routes_ok h" "workers h' = workers h" "assignments h' = assignments h" "next_conn h' = next_conn h"
    and "known h' = known h" "\<And>w. w_id (conn_of h' w) = w_id (conn_of h w)"
    and "\<And>w. live h w \<Longrightarrow> w_closed (conn_of h' w) = w_closed (conn_of h w)"
  shows "routes_ok h'"
proof -
  have l: "live h' = live h" using assms by (auto simp: live_def fun_eq_iff)
  show ?thesis
  proof (rule routes_okI, goal_cases)
    case (3 i w)
    with assms(1,2) routes_okD(3-5) [OF assms(1)] have "live h w" by (simp add: live_def)
    with 3 assms routes_okD(3-5) [OF assms(1), of i w] show ?case by simp
  qed (use assms l in \<open>auto simp: routes_ok_def\<close>)
qed

section \<open>Choosing a worker\<close>

lemma better_trans:
  assumes "better h a b" "better h b c" shows "better h a c"
  using assms order_less_trans [of "w_id (conn_of h a)" "w_id (conn_of h b)" "w_id (conn_of h c)"]
  unfolding better_def by auto

lemma better_irrefl: "\<not> better h a a"
  by (simp add: better_def)

lemma better_total: "better h a b \<or> better h b a \<or> w_id (conn_of h a) = w_id (conn_of h b)"
  by (auto simp: better_def)

lemma better_cong: "w_id (conn_of h b) = w_id (conn_of h b') \<Longrightarrow> better h a b = better h a b'"
  by (simp add: better_def)

lemma pick_best:
  assumes "inj_on (\<lambda>w. w_id (conn_of h w)) (set (b # ws))"
  shows "\<exists>w\<in>set (b # ws). pick h (Some b) ws = Some w \<and> (\<forall>v\<in>set (b # ws). v = w \<or> better h w v)"
  using assms
proof (induction ws arbitrary: b)
  case (Cons x ws)
  define b' where "b' = (if better h x b then x else b)"
  have "set (b' # ws) \<subseteq> set (b # x # ws)" by (auto simp: b'_def)
  with Cons.prems have "inj_on (\<lambda>w. w_id (conn_of h w)) (set (b' # ws))" by (rule inj_on_subset)
  from Cons.IH [OF this] obtain w where w: "w \<in> set (b' # ws)" "pick h (Some b') ws = Some w"
    "\<forall>v\<in>set (b' # ws). v = w \<or> better h w v" by blast
  have two: "v = b' \<or> better h b' v" if "v \<in> {b, x}" for v
  proof (cases "w_id (conn_of h b) = w_id (conn_of h x)")
    case True
    then have "b = x" by (rule inj_onD [OF Cons.prems]) simp_all
    with that have "v = b'" by (auto simp: b'_def)
    then show ?thesis ..
  next
    case False
    with better_total [of h b x] have "better h b x \<or> better h x b" by blast
    with that show ?thesis unfolding b'_def by (cases "better h x b") (simp_all, blast+)
  qed
  have "v = w \<or> better h w v" if "v \<in> set (b # x # ws)" for v
  proof (cases "v \<in> {b, x}")
    case True
    have "b' \<in> set (b' # ws)" by simp
    with w(3) have "b' = w \<or> better h w b'" by blast
    with two [OF True] show ?thesis using better_trans by blast
  next
    case False
    with that have "v \<in> set (b' # ws)" by simp
    with w(3) show ?thesis by blast
  qed
  moreover have "pick h (Some b) (x # ws) = Some w" using w(2) by (simp add: b'_def split: if_splits)
  moreover have "w \<in> set (b # x # ws)" using w(1) \<open>set (b' # ws) \<subseteq> set (b # x # ws)\<close> by blast
  ultimately show ?case by blast
qed simp

lemma workers_inj:
  assumes "routes_ok h"
  shows "inj_on (\<lambda>w. w_id (conn_of h w)) (set (map snd (workers h)))"
proof (rule inj_onI)
  fix v w assume "v \<in> set (map snd (workers h))" "w \<in> set (map snd (workers h))"
    and eq: "w_id (conn_of h v) = w_id (conn_of h w)"
  then obtain i j where "(i, v) \<in> set (workers h)" "(j, w) \<in> set (workers h)" by auto
  then have "mget (workers h) i = Some v" "mget (workers h) j = Some w"
    using routes_okD(1) [OF assms] by simp_all
  with eq routes_okD(4) [OF assms] show "v = w" by (metis option.inject)
qed

lemma live_iff:
  assumes "routes_ok h" shows "live h w \<longleftrightarrow> w \<in> set (map snd (workers h))"
proof
  assume "live h w"
  then show "w \<in> set (map snd (workers h))" unfolding live_def using mget_in_set by force
next
  assume "w \<in> set (map snd (workers h))"
  then obtain i where "(i, w) \<in> set (workers h)" by auto
  then have "mget (workers h) i = Some w" using routes_okD(1) [OF assms] by simp
  with routes_okD(3,4) [OF assms] show "live h w" by (simp add: live_def)
qed

lemma workerFor_spec:
  assumes ok: "routes_ok h"
  shows "(\<exists>w. workerFor h a = (Inr w, h) \<and> mget (assignments h) a = Some w \<and> live h w) \<or>
    (workerFor h a = (Inl ErrNoWorker, h) \<and> mget (assignments h) a = None \<and> (\<forall>w. \<not> live h w)) \<or>
    (\<exists>w. workerFor h a = (Inr w, h\<lparr>assignments := mset_key a w (assignments h)\<rparr>) \<and> mget (assignments h) a = None \<and>
      live h w \<and> (\<forall>v. live h v \<longrightarrow> v = w \<or> better h w v))"
proof (cases "mget (assignments h) a")
  case (Some w)
  then show ?thesis using routes_okD(6) [OF ok] by (simp add: workerFor_def)
next
  case None
  show ?thesis
  proof (cases "workers h = []")
    case True
    with None show ?thesis by (simp add: workerFor_def live_def)
  next
    case False
    then obtain b ws where l: "map snd (workers h) = b # ws" by (cases "map snd (workers h)") auto
    from pick_best [of h b ws] workers_inj [OF ok] obtain w where
      w: "pick h None (map snd (workers h)) = Some w" "w \<in> set (map snd (workers h))"
      "\<And>v. v \<in> set (map snd (workers h)) \<Longrightarrow> v = w \<or> better h w v"
      unfolding l by auto
    then have "live h w" "\<And>v. live h v \<Longrightarrow> v = w \<or> better h w v" using live_iff [OF ok] by blast+
    with None False w(1) show ?thesis by (auto simp: workerFor_def)
  qed
qed

section \<open>Every operation keeps the invariant\<close>

lemma routes_ok_workerFor:
  assumes ok: "routes_ok h" shows "routes_ok (snd (workerFor h a))"
proof -
  have "routes_ok (h\<lparr>assignments := mset_key a w (assignments h)\<rparr>)" if "live h w" for w
  proof -
    have l: "live (h\<lparr>assignments := mset_key a w (assignments h)\<rparr>) = live h" by (simp add: live_def fun_eq_iff)
    show ?thesis
      by (rule routes_okI) (use that routes_okD [OF ok] in \<open>auto simp: l split: if_splits\<close>)
  qed
  with workerFor_spec [OF ok, of a] ok show ?thesis by auto
qed

lemma routes_ok_upd:
  assumes "routes_ok h" "w_id (f (conn_of h w)) = w_id (conn_of h w)"
    and "live h w \<Longrightarrow> w_closed (f (conn_of h w)) = w_closed (conn_of h w)"
  shows "routes_ok (upd_conn w f h)"
  by (rule routes_ok_cong [OF assms(1)]) (use assms(2,3) in \<open>auto simp: fun_eq_iff\<close>)

lemma routes_ok_bus [simp]: "routes_ok (h\<lparr>bus := b\<rparr>) \<longleftrightarrow> routes_ok h"
  by (simp add: routes_ok_def live_def)

lemma routes_ok_chans [simp]:
  "routes_ok (h\<lparr>chans := z\<rparr>) \<longleftrightarrow> routes_ok h" "routes_ok (h\<lparr>next_chan := n\<rparr>) \<longleftrightarrow> routes_ok h"
  by (simp_all add: routes_ok_def live_def)

lemma live_eqI: "live h v \<Longrightarrow> live h w \<Longrightarrow> w_id (conn_of h v) = w_id (conn_of h w) \<Longrightarrow> v = w"
  by (simp add: live_def)

lemma drop_detach_fields [simp]:
  "workers (snd (drop_detach w h)) = mdel (w_id (conn_of h w)) (workers h)"
  "assignments (snd (drop_detach w h)) = filter (\<lambda>(a, v). v \<noteq> w) (assignments h)"
  "conn_of (snd (drop_detach w h)) = conn_of h" "known (snd (drop_detach w h)) = known h"
  "next_conn (snd (drop_detach w h)) = next_conn h" "bus (snd (drop_detach w h)) = bus h"
  "chans (snd (drop_detach w h)) = chans h" "next_chan (snd (drop_detach w h)) = next_chan h"
  by (simp_all add: drop_detach_def)

lemma drop_detach_live:
  assumes "live h w"
  shows "live (snd (drop_detach w h)) v \<longleftrightarrow> live h v \<and> v \<noteq> w"
proof (cases "w_id (conn_of h v) = w_id (conn_of h w)")
  case True
  then show ?thesis using live_eqI [of h v w] assms by (auto simp: live_def)
next
  case False
  then have "v \<noteq> w" by blast
  with False show ?thesis by (simp add: live_def)
qed

lemma mget_detached:
  "mwf (assignments h) \<Longrightarrow> mget (filter (\<lambda>(a, v). v \<noteq> w) (assignments h)) a = Some v \<longleftrightarrow>
     mget (assignments h) a = Some v \<and> v \<noteq> w"
  by (simp only: mget_filter) (auto simp del: map_of_eq_Some_iff split: option.splits)

lemma routes_ok_detach:
  assumes ok: "routes_ok h" and l: "live h w" shows "routes_ok (snd (drop_detach w h))"
proof (rule routes_okI, goal_cases)
  case (4 a v)
  then show ?case
    using routes_okD(6) [OF ok] drop_detach_live [OF l] mget_detached [OF routes_okD(2) [OF ok]]
    by (simp del: map_of_eq_Some_iff) blast
next
  case (3 i v)
  then have "mget (workers h) i = Some v" by (simp split: if_splits)
  then show ?case using routes_okD(3-5) [OF ok] by simp
next
  case (5 v)
  then show ?case using routes_okD(7) [OF ok] by simp
qed (use routes_okD(1,2) [OF ok] in simp_all)

lemma pin_back_Cons:
  "fst (pin_back w (a # as) asg) =
     fst (pin_back w as (if a = [] \<or> (mget asg a \<noteq> None \<and> mget asg a \<noteq> Some w) then asg else mset_key a w asg))"
  by (simp add: Let_def split_beta split: option.split)

lemma pin_back_mget:
  "mget (fst (pin_back w as asg)) a =
     (if mget asg a = None \<and> a \<in> set as \<and> a \<noteq> [] then Some w else mget asg a)"
proof (induction as arbitrary: asg)
  case (Cons x as)
  show ?case
    by (subst pin_back_Cons, subst Cons.IH) (cases "x = a"; cases "mget asg x"; auto)
qed simp

lemma pin_back_mwf: "mwf asg \<Longrightarrow> mwf (fst (pin_back w as asg))"
proof (induction as arbitrary: asg)
  case (Cons x as)
  show ?case
    by (subst pin_back_Cons, rule Cons.IH) (use Cons.prems in simp)
qed simp

definition hello_ok :: "Hub \<Rightarrow> Frame \<Rightarrow> Limits \<Rightarrow> bool" where
  "hello_ok h hello limits \<longleftrightarrow>
     Type hello = FrameHello \<and> WorkerID hello \<noteq> [] \<and> Protocol hello = ProtocolVersion \<and>
     FLimits hello = Some limits \<and> Validate limits = None \<and> mget (workers h) (WorkerID hello) = None"

definition new_conn :: "int \<Rightarrow> Frame \<Rightarrow> Limits \<Rightarrow> worker" where
  "new_conn now hello limits =
     \<lparr>w_id = WorkerID hello, w_version = Version hello, w_limits = limits, w_connectedAt = now,
      nextID = 0, pending = [], w_closed = False, closeErr = None, sent = []\<rparr>"

lemma serve_hello_serving:
  "hello_ok h hello limits \<Longrightarrow> serve_hello now (Some hello) h =
     (Serving (next_conn h) (FrameBytes limits),
      h\<lparr>conns := mset_key (next_conn h) (new_conn now hello limits) (conns h), next_conn := Suc (next_conn h),
         workers := mset_key (WorkerID hello) (next_conn h) (workers h),
         assignments := fst (pin_back (next_conn h) (Agents hello) (assignments h))\<rparr>)"
  by (simp add: hello_ok_def new_conn_def serve_hello_def Let_def split_beta)

lemma serve_hello_refused:
  assumes "\<And>hello limits. first = Some hello \<Longrightarrow> \<not> hello_ok h hello limits"
  shows "snd (serve_hello now first h) = h \<and> (\<exists>st why. fst (serve_hello now first h) = Refused st why)"
proof (cases first)
  case None
  then show ?thesis by (simp add: serve_hello_def)
next
  case (Some hello)
  show ?thesis
  proof (cases "FLimits hello")
    case None
    then show ?thesis by (simp add: Some serve_hello_def)
  next
    case (Some limits)
    with assms [OF \<open>first = Some hello\<close>, of limits] show ?thesis
      by (simp add: \<open>first = Some hello\<close> serve_hello_def hello_ok_def Let_def split_beta split: option.split) auto
  qed
qed

lemma hello_fields:
  assumes "hello_ok h hello limits" "h' = snd (serve_hello now (Some hello) h)"
  shows "workers h' = mset_key (WorkerID hello) (next_conn h) (workers h)"
    "assignments h' = fst (pin_back (next_conn h) (Agents hello) (assignments h))"
    "conn_of h' v = (if v = next_conn h then new_conn now hello limits else conn_of h v)"
    "known h' v \<longleftrightarrow> v = next_conn h \<or> known h v" "next_conn h' = Suc (next_conn h)"
    "bus h' = bus h" "chans h' = chans h" "next_chan h' = next_chan h"
  using assms(2) by (simp_all add: serve_hello_serving [OF assms(1)] conn_of_def known_def)

lemma hello_live:
  assumes "routes_ok h" "hello_ok h hello limits"
  shows "live (snd (serve_hello now (Some hello) h)) v \<longleftrightarrow> live h v \<or> v = next_conn h"
proof -
  have "\<not> known h (next_conn h)" using routes_okD(7) [OF assms(1)] by blast
  moreover have "w_id (conn_of h v) \<noteq> WorkerID hello" if "live h v"
    using that assms(2) by (auto simp: live_def hello_ok_def)
  ultimately show ?thesis
    by (auto simp: live_def hello_fields [OF assms(2) refl] new_conn_def)
qed

lemma routes_ok_hello:
  assumes ok: "routes_ok h" shows "routes_ok (snd (serve_hello now first h))"
proof (cases "\<exists>hello limits. first = Some hello \<and> hello_ok h hello limits")
  case True
  then obtain hello limits where f: "first = Some hello" and hk: "hello_ok h hello limits" by blast
  note hf = hello_fields [OF hk refl]
  have new: "\<not> known h (next_conn h)" using routes_okD(7) [OF ok] by blast
  show ?thesis
    unfolding f
  proof (rule routes_okI, goal_cases)
    case 1
    show ?case using routes_okD(1) [OF ok] by (simp add: hf)
  next
    case 2
    show ?case using pin_back_mwf [OF routes_okD(2) [OF ok]] by (simp add: hf)
  next
    case (3 i w)
    show ?case
    proof (cases "i = WorkerID hello")
      case True
      with 3 show ?thesis by (simp add: hf new_conn_def)
    next
      case False
      with 3 have "mget (workers h) i = Some w" by (simp add: hf)
      with routes_okD(3-5) [OF ok this] new show ?thesis by (auto simp: hf)
    qed
  next
    case (4 a w)
    then have "live h w \<or> w = next_conn h"
      using routes_okD(6) [OF ok, of a w] by (simp add: hf pin_back_mget split: if_splits)
    then show ?case by (simp add: hello_live [OF ok hk])
  next
    case (5 w)
    then show ?case using routes_okD(7) [OF ok, of w] by (auto simp: hf)
  qed
next
  case False
  then show ?thesis using serve_hello_refused [of first h now] ok by metis
qed

end
