(* ===== verification/Worker_Hub_Waiters.thy ===== *)
theory Worker_Hub_Waiters imports Worker_Hub_Routes begin

text \<open>
  The hub under concurrency. The state is the hub together with what its goroutines hold between
  two critical sections: \<open>flight\<close>, the frames a reader or a drop has taken a waiter out for and
  not yet put into its channel, and \<open>waiting\<close>, the calls in their final \<open>select\<close>. Every atomic
  step of \<open>serve\<close>, \<open>deliver\<close>, \<open>drop\<close>, \<open>workerFor\<close> and \<open>call\<close> is a rule, so a run of
  \<open>sys_step\<close> is any interleaving of them.
\<close>

record sys =
  hub :: Hub
  flight :: "(nat \<times> Frame) list"
  waiting :: "(nat \<times> u64 \<times> nat) list"

abbreviation pend :: "Hub \<Rightarrow> nat \<Rightarrow> (u64, nat) gomap" where
  "pend h w \<equiv> pending (conn_of h w)"

definition lost_frame :: "gerr \<Rightarrow> u64 \<Rightarrow> Frame" where
  "lost_frame reason i = zeroFrame\<lparr>Type := FrameResult, ID := i, OK := False, Error := err_text reason\<rparr>"

definition init_sys :: "Broadcaster \<Rightarrow> sys" where
  "init_sys b = \<lparr>hub = newHub b, flight = [], waiting = []\<rparr>"

inductive sys_step :: "sys \<Rightarrow> sys \<Rightarrow> bool" where
  hello: "sys_step s (s\<lparr>hub := snd (serve_hello now first (hub s))\<rparr>)"
| take_waiter: "live (hub s) w \<Longrightarrow> Type f = FrameResult \<Longrightarrow> deliver_take w f (hub s) = (Some c, h') \<Longrightarrow>
    sys_step s (s\<lparr>hub := h', flight := flight s @ [(c, f)]\<rparr>)"
| put: "(c, f) \<in> set (flight s) \<Longrightarrow> put_chan c f (hub s) = Some h' \<Longrightarrow>
    sys_step s (s\<lparr>hub := h', flight := filter (\<lambda>x. fst x \<noteq> c) (flight s)\<rparr>)"
| publish: "publish_on (hub s) e = Some h' \<Longrightarrow> sys_step s (s\<lparr>hub := h'\<rparr>)"
| detach: "live (hub s) w \<Longrightarrow> sys_step s (s\<lparr>hub := snd (drop_detach w (hub s))\<rparr>)"
| close: "known (hub s) w \<Longrightarrow> \<not> live (hub s) w \<Longrightarrow>
    sys_step s (s\<lparr>hub := snd (drop_close w reason (hub s)),
      flight := flight s @ map (\<lambda>(i, c). (c, lost_frame reason i)) (fst (drop_close w reason (hub s)))\<rparr>)"
| pin: "sys_step s (s\<lparr>hub := snd (workerFor (hub s) a)\<rparr>)"
| enter: "known (hub s) w \<Longrightarrow> register w (hub s) = (Inr (i, c), h') \<Longrightarrow> i \<noteq> 0 \<Longrightarrow>
    sys_step s (s\<lparr>hub := h', waiting := (w, i, c) # waiting s\<rparr>)"
| transmit: "sys_step s (s\<lparr>hub := snd (send_frame w f outcome (hub s))\<rparr>)"
| abandon: "(w, i, c) \<in> set (waiting s) \<Longrightarrow>
    sys_step s (s\<lparr>hub := unregister w i (hub s), waiting := filter (\<lambda>x. x \<noteq> (w, i, c)) (waiting s)\<rparr>)"
| answered: "(w, i, c) \<in> set (waiting s) \<Longrightarrow> receive c (hub s) = (Some f, h') \<Longrightarrow>
    sys_step s (s\<lparr>hub := h', waiting := filter (\<lambda>x. x \<noteq> (w, i, c)) (waiting s)\<rparr>)"

inductive sys_reach :: "sys \<Rightarrow> bool" where
  start: "bc_inv b \<Longrightarrow> sys_reach (init_sys b)"
| more: "sys_reach s \<Longrightarrow> sys_step s s' \<Longrightarrow> sys_reach s'"

lemma deliver_take_Some: "deliver_take w f h = (Some c, h') \<longleftrightarrow> mget (pend h w) (ID f) = Some c \<and> h' = unregister w (ID f) h"
  by (auto simp: deliver_take_def unregister_def)

section \<open>The waiter invariant\<close>

text \<open>\<open>i \<noteq> 0\<close> in the rule \<open>enter\<close> says a connection has not used up all 2^64 request ids.\<close>

definition chans_ok :: "Hub \<Rightarrow> (nat \<times> Frame) list \<Rightarrow> bool" where
  "chans_ok h fl \<longleftrightarrow>
     (\<forall>w i c. mget (pend h w) i = Some c \<longrightarrow> mget (chans h) c = Some [] \<and> c \<notin> fst ` set fl \<and> unat i \<le> unat (nextID (conn_of h w))) \<and>
     (\<forall>w i c w' i'. mget (pend h w) i = Some c \<longrightarrow> mget (pend h w') i' = Some c \<longrightarrow> w = w' \<and> i = i') \<and>
     (\<forall>w. mwf (pend h w)) \<and>
     (\<forall>w. w_closed (conn_of h w) \<longrightarrow> pend h w = []) \<and>
     distinct (map fst fl) \<and>
     (\<forall>c. c \<in> fst ` set fl \<longrightarrow> mget (chans h) c = Some []) \<and>
     (\<forall>c. mget (chans h) c \<noteq> None \<longrightarrow> c < next_chan h)"

definition waits_ok :: "Hub \<Rightarrow> (nat \<times> Frame) list \<Rightarrow> (nat \<times> u64 \<times> nat) list \<Rightarrow> bool" where
  "waits_ok h fl ws \<longleftrightarrow>
     (\<forall>w i c. (w, i, c) \<in> set ws \<longrightarrow>
        unat i \<le> unat (nextID (conn_of h w)) \<and> (\<forall>c'. mget (pend h w) i = Some c' \<longrightarrow> c' = c) \<and>
        (mget (pend h w) i = Some c \<or> c \<in> fst ` set fl \<or> (\<exists>f. mget (chans h) c = Some [f]))) \<and>
     (\<forall>w i c w' i'. (w, i, c) \<in> set ws \<longrightarrow> (w', i', c) \<in> set ws \<longrightarrow> w = w' \<and> i = i')"

lemma chans_okD:
  assumes "chans_ok h fl"
  shows "mget (pend h w) i = Some c \<Longrightarrow> mget (chans h) c = Some []"
    "mget (pend h w) i = Some c \<Longrightarrow> c \<notin> fst ` set fl"
    "mget (pend h w) i = Some c \<Longrightarrow> unat i \<le> unat (nextID (conn_of h w))"
    "mget (pend h w) i = Some c \<Longrightarrow> mget (pend h w') i' = Some c \<Longrightarrow> w = w' \<and> i = i'"
    "mwf (pend h w)" "w_closed (conn_of h w) \<Longrightarrow> pend h w = []" "distinct (map fst fl)"
    "c \<in> fst ` set fl \<Longrightarrow> mget (chans h) c = Some []" "mget (chans h) c \<noteq> None \<Longrightarrow> c < next_chan h"
proof -
  note a = assms [unfolded chans_ok_def]
  note a1 = a [THEN conjunct1, rule_format] and b = a [THEN conjunct2]
  note a2 = b [THEN conjunct1, rule_format] and d = b [THEN conjunct2]
  note a3 = d [THEN conjunct1, rule_format] and e = d [THEN conjunct2]
  note a4 = e [THEN conjunct1, rule_format] and f = e [THEN conjunct2]
  note a5 = f [THEN conjunct1] and g = f [THEN conjunct2]
  show "mget (pend h w) i = Some c \<Longrightarrow> mget (chans h) c = Some []" by (rule a1 [THEN conjunct1])
  show "mget (pend h w) i = Some c \<Longrightarrow> c \<notin> fst ` set fl" by (rule a1 [THEN conjunct2, THEN conjunct1])
  show "mget (pend h w) i = Some c \<Longrightarrow> unat i \<le> unat (nextID (conn_of h w))"
    by (rule a1 [THEN conjunct2, THEN conjunct2])
  show "mget (pend h w) i = Some c \<Longrightarrow> mget (pend h w') i' = Some c \<Longrightarrow> w = w' \<and> i = i'" by (rule a2) 
  show "mwf (pend h w)" by (rule a3)
  show "w_closed (conn_of h w) \<Longrightarrow> pend h w = []" by (rule a4)
  show "distinct (map fst fl)" by (rule a5)
  show "c \<in> fst ` set fl \<Longrightarrow> mget (chans h) c = Some []" by (rule g [THEN conjunct1, rule_format])
  show "mget (chans h) c \<noteq> None \<Longrightarrow> c < next_chan h" by (rule g [THEN conjunct2, rule_format])
qed

lemma chans_okI:
  assumes "\<And>w i c. mget (pend h w) i = Some c \<Longrightarrow>
      mget (chans h) c = Some [] \<and> c \<notin> fst ` set fl \<and> unat i \<le> unat (nextID (conn_of h w))"
    "\<And>w i c w' i'. mget (pend h w) i = Some c \<Longrightarrow> mget (pend h w') i' = Some c \<Longrightarrow> w = w' \<and> i = i'"
    "\<And>w. mwf (pend h w)" "\<And>w. w_closed (conn_of h w) \<Longrightarrow> pend h w = []" "distinct (map fst fl)"
    "\<And>c. c \<in> fst ` set fl \<Longrightarrow> mget (chans h) c = Some []" "\<And>c. mget (chans h) c \<noteq> None \<Longrightarrow> c < next_chan h"
  shows "chans_ok h fl"
proof -
  have "\<forall>w i c. mget (pend h w) i = Some c \<longrightarrow>
      mget (chans h) c = Some [] \<and> c \<notin> fst ` set fl \<and> unat i \<le> unat (nextID (conn_of h w))"
    using assms(1) by (intro allI impI)
  moreover have "\<forall>w i c w' i'. mget (pend h w) i = Some c \<longrightarrow> mget (pend h w') i' = Some c \<longrightarrow> w = w' \<and> i = i'"
    using assms(2) by (intro allI impI)
  moreover have "\<forall>w. mwf (pend h w)" using assms(3) by (rule allI)
  moreover have "\<forall>w. w_closed (conn_of h w) \<longrightarrow> pend h w = []" using assms(4) by (intro allI impI)
  moreover have "\<forall>c. c \<in> fst ` set fl \<longrightarrow> mget (chans h) c = Some []" using assms(6) by (intro allI impI)
  moreover have "\<forall>c. mget (chans h) c \<noteq> None \<longrightarrow> c < next_chan h" using assms(7) by (intro allI impI)
  ultimately show ?thesis unfolding chans_ok_def using assms(5) by (intro conjI)
qed

lemma waits_okD:
  assumes "waits_ok h fl ws" "(w, i, c) \<in> set ws"
  shows "unat i \<le> unat (nextID (conn_of h w))" "mget (pend h w) i = Some c' \<Longrightarrow> c' = c"
    "mget (pend h w) i = Some c \<or> c \<in> fst ` set fl \<or> (\<exists>f. mget (chans h) c = Some [f])"
    "(w', i', c) \<in> set ws \<Longrightarrow> w = w' \<and> i = i'"
  using assms unfolding waits_ok_def by blast+

lemma waits_okI:
  assumes "\<And>w i c. (w, i, c) \<in> set ws \<Longrightarrow> unat i \<le> unat (nextID (conn_of h w))"
    "\<And>w i c c'. (w, i, c) \<in> set ws \<Longrightarrow> mget (pend h w) i = Some c' \<Longrightarrow> c' = c"
    "\<And>w i c. (w, i, c) \<in> set ws \<Longrightarrow> mget (pend h w) i = Some c \<or> c \<in> fst ` set fl \<or> (\<exists>f. mget (chans h) c = Some [f])"
    "\<And>w i c w' i'. (w, i, c) \<in> set ws \<Longrightarrow> (w', i', c) \<in> set ws \<Longrightarrow> w = w' \<and> i = i'"
  shows "waits_ok h fl ws"
  using assms unfolding waits_ok_def by blast

text \<open>Both only look at the pending tables, the closed flags, the counters and the channels.\<close>

lemma chans_ok_cong:
  assumes ok: "chans_ok h fl" and eq: "\<And>w. pend h' w = pend h w" "\<And>w. nextID (conn_of h' w) = nextID (conn_of h w)"
    "\<And>w. w_closed (conn_of h' w) \<Longrightarrow> pend h w \<noteq> [] \<Longrightarrow> w_closed (conn_of h w)" "chans h' = chans h" "next_chan h' = next_chan h"
  shows "chans_ok h' fl"
proof (rule chans_okI, goal_cases)
  case (4 w)
  then show ?case using eq(3) [of w] chans_okD(6) [OF ok, of w] unfolding eq(1) by blast
next
  case (1 w i c)
  then have "mget (pend h w) i = Some c" by (simp only: eq)
  from chans_okD(1-3) [OF ok this] show ?case by (simp only: eq) blast
next
  case (2 w i c w' i')
  then have "mget (pend h w) i = Some c" "mget (pend h w') i' = Some c" by (simp_all only: eq)
  then show ?case by (rule chans_okD(4) [OF ok])
next
  case (6 c)
  from chans_okD(8) [OF ok this] show ?case by (simp only: eq)
next
  case (7 c)
  then have "mget (chans h) c \<noteq> None" by (simp only: eq(4) not_False_eq_True)
  from chans_okD(9) [OF ok this] show ?case by (simp only: eq)
qed (use chans_okD(5,7) [OF ok] in \<open>simp_all only: eq\<close>)

lemma waits_ok_cong:
  assumes "waits_ok h fl ws" "\<And>w. pend h' w = pend h w" "\<And>w. nextID (conn_of h' w) = nextID (conn_of h w)"
    "chans h' = chans h"
  shows "waits_ok h' fl ws"
  using assms unfolding waits_ok_def by simp

section \<open>Removing a waiter\<close>

lemma unknown_conn: "\<not> known h w \<Longrightarrow> pend h w = []" "\<not> known h w \<Longrightarrow> w_closed (conn_of h w)"
  by (simp_all add: conn_of_def known_def)

lemma unregister_views [simp]:
  "pend (unregister w i h) v = (if v = w then mdel i (pend h w) else pend h v)"
  "nextID (conn_of (unregister w i h) v) = nextID (conn_of h v)"
  "w_closed (conn_of (unregister w i h) v) = w_closed (conn_of h v)"
  "w_id (conn_of (unregister w i h) v) = w_id (conn_of h v)"
  "chans (unregister w i h) = chans h" "next_chan (unregister w i h) = next_chan h"
  "bus (unregister w i h) = bus h" "known (unregister w i h) = known h"
  by (cases "known h w"; simp add: unregister_def unknown_conn fun_eq_iff)+

lemma chans_ok_unregister:
  assumes ok: "chans_ok h fl" shows "chans_ok (unregister w i h) fl"
proof (rule chans_okI, goal_cases)
  case (1 v j c)
  then have "mget (pend h v) j = Some c" by (simp split: if_splits)
  then show ?case using chans_okD(1-3) [OF ok] by simp
next
  case (2 v j c v' j')
  then have "mget (pend h v) j = Some c" "mget (pend h v') j' = Some c" by (simp_all split: if_splits)
  then show ?case by (rule chans_okD(4) [OF ok])
next
  case (3 v)
  then show ?case using chans_okD(5) [OF ok] by simp
next
  case (4 v)
  then have "pend h v = []" using chans_okD(6) [OF ok] by simp
  then show ?case by (cases "v = w") simp_all
next
  case (7 c)
  then show ?case using chans_okD(9) [OF ok] by simp
qed (use chans_okD(7,8) [OF ok] in simp_all)

lemma chans_ok_take:
  assumes ok: "chans_ok h fl" and p: "mget (pend h w) i = Some c"
  shows "chans_ok (unregister w i h) (fl @ [(c, f)])"
proof (rule chans_okI, goal_cases)
  case (1 v j d)
  then have q: "mget (pend h v) j = Some d" "\<not> (v = w \<and> j = i)" by (simp_all split: if_splits)
  with chans_okD(4) [OF ok q(1), of w i] p have "d \<noteq> c" by blast
  with chans_okD(1-3) [OF ok q(1)] show ?case by simp
next
  case (2 v j d v' j')
  then have "mget (pend h v) j = Some d" "mget (pend h v') j' = Some d" by (simp_all split: if_splits)
  then show ?case by (rule chans_okD(4) [OF ok])
next
  case 5
  show ?case using chans_okD(7) [OF ok] chans_okD(2) [OF ok p] by simp
next
  case (6 d)
  then show ?case using chans_okD(8) [OF ok, of d] chans_okD(1) [OF ok p] by auto
next
  case (7 d)
  then show ?case using chans_okD(9) [OF ok] by simp
qed (use chans_okD(3) [OF chans_ok_unregister [OF ok]] chans_okD(5,6) [OF chans_ok_unregister [OF ok, of w i]] in blast)+

lemma waits_ok_take:
  assumes ok: "waits_ok h fl ws" and p: "mget (pend h w) i = Some c"
  shows "waits_ok (unregister w i h) (fl @ [(c, f)]) ws"
proof (rule waits_okI, goal_cases)
  case (3 v j d)
  show ?case
  proof (cases "v = w \<and> j = i")
    case True
    with waits_okD(2) [OF ok 3] p have "c = d" by blast
    then show ?thesis by simp
  next
    case False
    then have "mget (pend (unregister w i h) v) j = mget (pend h v) j" by auto
    with waits_okD(3) [OF ok 3] show ?thesis by (simp del: unregister_views(1)) blast
  qed
next
  case (1 v j d)
  then show ?case using waits_okD(1) [OF ok 1] by simp
next
  case (2 v j d d')
  then have "mget (pend h v) j = Some d'" by (simp split: if_splits)
  then show ?case by (rule waits_okD(2) [OF ok 2(1)])
next
  case (4 v j d v' j')
  then show ?case by (rule waits_okD(4) [OF ok])
qed

lemma waits_ok_abandon:
  assumes ok: "waits_ok h fl ws" and co: "chans_ok h fl" and m: "(w, i, c) \<in> set ws"
  shows "waits_ok (unregister w i h) fl (filter (\<lambda>x. x \<noteq> (w, i, c)) ws)"
proof (rule waits_okI, goal_cases)
  case (3 v j d)
  then have v: "(v, j, d) \<in> set ws" "(v, j, d) \<noteq> (w, i, c)" by auto
  show ?case
  proof (cases "v = w \<and> j = i")
    case True
    then have "d \<noteq> c" using v(2) by auto
    have "mget (pend h v) j \<noteq> Some d"
    proof
      assume "mget (pend h v) j = Some d"
      with True waits_okD(2) [OF ok m, of d] have "d = c" by simp
      with \<open>d \<noteq> c\<close> show False ..
    qed
    with waits_okD(3) [OF ok v(1)] show ?thesis by simp
  next
    case False
    then have "mget (pend (unregister w i h) v) j = mget (pend h v) j" by auto
    with waits_okD(3) [OF ok v(1)] show ?thesis by simp
  qed
next
  case (1 v j d)
  then have "(v, j, d) \<in> set ws" by simp
  from waits_okD(1) [OF ok this] show ?case by simp
next
  case (2 v j d d')
  then have "mget (pend h v) j = Some d'" "(v, j, d) \<in> set ws" by (simp_all split: if_splits)
  then show ?case using waits_okD(2) [OF ok] by blast
next
  case (4 v j d v' j')
  then show ?case using waits_okD(4) [OF ok] by simp blast
qed

section \<open>Answering and closing\<close>

lemma put_chan_Some:
  "put_chan c f h = Some h' \<longleftrightarrow> mget (chans h) c = Some [] \<and> h' = h\<lparr>chans := mset_key c [f] (chans h)\<rparr>"
  by (auto simp: put_chan_def split: option.splits list.splits)

lemma chans_ok_put:
  assumes ok: "chans_ok h fl" and m: "(c, f) \<in> set fl" and p: "put_chan c f h = Some h'"
  shows "chans_ok h' (filter (\<lambda>x. fst x \<noteq> c) fl)"
proof -
  have h': "h' = h\<lparr>chans := mset_key c [f] (chans h)\<rparr>" and c: "mget (chans h) c = Some []"
    using p by (simp_all add: put_chan_Some)
  have cin: "c \<in> fst ` set fl" using m by force
  show ?thesis
    unfolding h'
  proof (rule chans_okI, goal_cases)
    case (1 w i d)
    then have q: "mget (pend h w) i = Some d" by simp
    then have "d \<noteq> c" using chans_okD(2) [OF ok q] cin by blast
    with chans_okD(1-3) [OF ok q] show ?case by auto
  next
    case (2 w i d w' i')
    then have "mget (pend h w) i = Some d" "mget (pend h w') i' = Some d" by simp_all
    then show ?case by (rule chans_okD(4) [OF ok])
  next
    case 5
    show ?case using chans_okD(7) [OF ok] by (induction fl) auto
  next
    case (6 d)
    then have "d \<in> fst ` set fl" "d \<noteq> c" by auto
    with chans_okD(8) [OF ok, of d] show ?case by simp
  next
    case (7 d)
    then have "mget (chans h) d \<noteq> None" using c by (simp split: if_splits)
    from chans_okD(9) [OF ok this] show ?case by simp
  qed (use chans_okD(5,6) [OF ok] in simp_all)
qed

lemma waits_ok_put:
  assumes ok: "waits_ok h fl ws" and p: "put_chan c f h = Some h'"
  shows "waits_ok h' (filter (\<lambda>x. fst x \<noteq> c) fl) ws"
proof -
  have h': "h' = h\<lparr>chans := mset_key c [f] (chans h)\<rparr>" using p by (simp add: put_chan_Some)
  show ?thesis
    unfolding h'
  proof (rule waits_okI, goal_cases)
    case (3 w i d)
    from waits_okD(3) [OF ok 3] show ?case by (cases "d = c") auto
  next
    case (1 w i d)
    from waits_okD(1) [OF ok 1] show ?case by simp
  next
    case (2 w i d d')
    then show ?case using waits_okD(2) [OF ok 2(1), of d'] by simp
  next
    case (4 w i d w' i')
    then show ?case by (rule waits_okD(4) [OF ok])
  qed
qed

lemma drop_close_views [simp]:
  "fst (drop_close w r h) = pend h w"
  "pend (snd (drop_close w r h)) v = (if v = w then [] else pend h v)"
  "nextID (conn_of (snd (drop_close w r h)) v) = nextID (conn_of h v)"
  "w_closed (conn_of (snd (drop_close w r h)) v) \<longleftrightarrow> v = w \<or> w_closed (conn_of h v)"
  "w_id (conn_of (snd (drop_close w r h)) v) = w_id (conn_of h v)"
  "chans (snd (drop_close w r h)) = chans h" "next_chan (snd (drop_close w r h)) = next_chan h"
  "bus (snd (drop_close w r h)) = bus h" "known (snd (drop_close w r h)) = known h"
  by (simp add: drop_close_def)
    (cases "known h w"; simp add: drop_close_def unknown_conn fun_eq_iff; blast intro: unknown_conn)+

lemma doomed_chans:
  assumes ok: "chans_ok h fl"
  shows "fst ` set (map (\<lambda>(i, c). (c, lost_frame r i)) (pend h w)) = {c. \<exists>i. mget (pend h w) i = Some c}"
    and "distinct (map fst (map (\<lambda>(i, c). (c, lost_frame r i)) (pend h w)))"
proof -
  have wf: "mwf (pend h w)" by (rule chans_okD(5) [OF ok])
  have m: "map fst (map (\<lambda>(i, c). (c, lost_frame r i)) xs) = map snd xs" for xs :: "(u64 \<times> nat) list"
    by (induction xs) auto
  have inj: "inj_on snd (set (pend h w))"
  proof (rule inj_onI)
    fix x y assume a: "x \<in> set (pend h w)" "y \<in> set (pend h w)" "snd x = snd y"
    then have "mget (pend h w) (fst x) = Some (snd x)" "mget (pend h w) (fst y) = Some (snd x)"
      using in_set_mget [OF wf, of "fst x" "snd x"] in_set_mget [OF wf, of "fst y" "snd y"]
      unfolding prod.collapse by (simp_all del: map_of_eq_Some_iff)
    from chans_okD(4) [OF ok this] a(3) show "x = y" by (simp add: prod_eq_iff)
  qed
  have "distinct (pend h w)" using wf by (simp add: distinct_map)
  with inj show "distinct (map fst (map (\<lambda>(i, c). (c, lost_frame r i)) (pend h w)))"
    unfolding m by (simp add: distinct_map)
  have "fst ` set (map (\<lambda>(i, c). (c, lost_frame r i)) (pend h w)) = snd ` set (pend h w)"
    by (simp only: m flip: list.set_map)
  also have "\<dots> = {c. \<exists>i. mget (pend h w) i = Some c}"
  proof (intro set_eqI iffI)
    fix c assume "c \<in> snd ` set (pend h w)"
    then obtain i where "(i, c) \<in> set (pend h w)" by auto
    from in_set_mget [OF wf this] show "c \<in> {c. \<exists>i. mget (pend h w) i = Some c}" by blast
  next
    fix c assume "c \<in> {c. \<exists>i. mget (pend h w) i = Some c}"
    then obtain i where "mget (pend h w) i = Some c" by blast
    from mget_in_set [OF this] show "c \<in> snd ` set (pend h w)" by force
  qed
  finally show "fst ` set (map (\<lambda>(i, c). (c, lost_frame r i)) (pend h w)) = {c. \<exists>i. mget (pend h w) i = Some c}" .
qed

lemma chans_ok_close:
  assumes ok: "chans_ok h fl"
  shows "chans_ok (snd (drop_close w r h)) (fl @ map (\<lambda>(i, c). (c, lost_frame r i)) (pend h w))" (is "chans_ok ?h (fl @ ?new)")
proof -
  note new = doomed_chans [OF ok, where r = r and w = w]
  show ?thesis
  proof (rule chans_okI, goal_cases)
    case (1 v i c)
    then have q: "mget (pend h v) i = Some c" "v \<noteq> w" by (simp_all split: if_splits)
    have "c \<notin> fst ` set ?new" unfolding new(1) using chans_okD(4) [OF ok q(1), of w] q(2) by blast
    with chans_okD(1-3) [OF ok q(1)] show ?case unfolding set_append image_Un by simp
  next
    case (2 v i c v' i')
    then have "mget (pend h v) i = Some c" "mget (pend h v') i' = Some c" by (simp_all split: if_splits)
    then show ?case by (rule chans_okD(4) [OF ok])
  next
    case 5
    have "set (map fst fl) \<inter> set (map fst ?new) = {}"
      using chans_okD(2) [OF ok] new(1) by (fastforce simp only: list.set_map)
    then show ?case unfolding map_append using chans_okD(7) [OF ok] new(2) by simp
  next
    case (6 c)
    then have "c \<in> fst ` set fl \<or> c \<in> fst ` set ?new" unfolding set_append image_Un by blast
    then have "mget (chans h) c = Some []" unfolding new(1) using chans_okD(1,8) [OF ok] by blast
    then show ?case by simp
  next
    case (4 v)
    then show ?case using chans_okD(6) [OF ok, of v] by auto
  next
    case (7 c)
    then show ?case using chans_okD(9) [OF ok] by simp
  qed (use chans_okD(5) [OF ok] in simp_all)
qed

lemma waits_ok_close:
  assumes ok: "waits_ok h fl ws" and co: "chans_ok h fl"
  shows "waits_ok (snd (drop_close w r h)) (fl @ map (\<lambda>(i, c). (c, lost_frame r i)) (pend h w)) ws"
proof (rule waits_okI, goal_cases)
  case (3 v i c)
  from waits_okD(3) [OF ok 3] have "(mget (pend h v) i = Some c \<and> v \<noteq> w) \<or> c \<in> {c. \<exists>i. mget (pend h w) i = Some c} \<or>
    c \<in> fst ` set fl \<or> (\<exists>f. mget (chans h) c = Some [f])" by blast
  then show ?case unfolding doomed_chans(1) [OF co, where r = r, symmetric] set_append image_Un by auto
next
  case (1 v i c)
  from waits_okD(1) [OF ok 1] show ?case by simp
next
  case (2 v i c c')
  then have "mget (pend h v) i = Some c'" by (simp split: if_splits)
  then show ?case by (rule waits_okD(2) [OF ok 2(1)])
next
  case (4 v i c v' i')
  then show ?case by (rule waits_okD(4) [OF ok])
qed

section \<open>Entering and leaving\<close>

lemma register_ok:
  assumes "register w h = (Inr (i, c), h')" "known h w"
  shows "i = nextID (conn_of h w) + 1" "c = next_chan h" "\<not> w_closed (conn_of h w)"
    "h' = (upd_conn w (\<lambda>wk. wk\<lparr>nextID := i, pending := mset_key i c (pending wk)\<rparr>) h)
            \<lparr>chans := mset_key c [] (chans h), next_chan := Suc c\<rparr>"
    "pend h' v = (if v = w then mset_key i c (pend h w) else pend h v)"
    "nextID (conn_of h' v) = (if v = w then i else nextID (conn_of h v))"
    "w_closed (conn_of h' v) = w_closed (conn_of h v)" "w_id (conn_of h' v) = w_id (conn_of h v)"
    "chans h' = mset_key c [] (chans h)" "next_chan h' = Suc c"
  using assms by (auto simp: register_def Let_def split: if_splits)

lemma next_id:
  assumes "(i :: u64) = n + 1" "i \<noteq> 0" shows "unat i = Suc (unat n)"
  using assms by (metis Suc_eq_plus1 add.commute unatSuc)

lemma chans_ok_register:
  assumes ok: "chans_ok h fl" and reg: "register w h = (Inr (i, c), h')" and k: "known h w" and i0: "i \<noteq> 0"
  shows "chans_ok h' fl"
proof -
  note r = register_ok [OF reg k]
  have ni: "unat i = Suc (unat (nextID (conn_of h w)))" using next_id [OF r(1) i0] .
  have fresh: "mget (chans h) c = None" using chans_okD(9) [OF ok, of c] r(2) by (metis less_irrefl)
  show ?thesis
  proof (rule chans_okI, goal_cases)
    case (1 v j d)
    consider "v = w" "j = i" "d = c" | "mget (pend h v) j = Some d" "\<not> (v = w \<and> j = i)"
      using 1 unfolding r(5) by (cases "v = w"; cases "j = i"; simp del: map_of_eq_Some_iff)
    then show ?case
    proof cases
      case 1
      have "c \<notin> fst ` set fl" using fresh chans_okD(8) [OF ok, of c] by (metis option.distinct(1))
      with 1 show ?thesis by (simp add: r(6,9))
    next
      case 2
      have "d \<noteq> c" using chans_okD(1) [OF ok 2(1)] fresh by (metis option.distinct(1))
      with chans_okD(1-3) [OF ok 2(1)] ni show ?thesis by (cases "v = w") (simp_all add: r(6,9))
    qed
  next
    case (2 v j d v' j')
    have old: "e \<noteq> c" if "mget (pend h u) l = Some e" for u l e
      using chans_okD(1) [OF ok that] fresh by (metis option.distinct(1))
    have split: "u = w \<and> l = i \<and> e = c \<or> mget (pend h u) l = Some e" if "mget (pend h' u) l = Some e" for u l e
      using that unfolding r(5) by (cases "u = w"; cases "l = i"; simp del: map_of_eq_Some_iff)
    from split [OF 2(1)] split [OF 2(2)] old chans_okD(4) [OF ok] show ?case by metis
  next
    case (3 v)
    show ?case using chans_okD(5) [OF ok] by (simp add: r(5))
  next
    case (4 v)
    then show ?case using chans_okD(6) [OF ok, of v] r(3) by (auto simp: r(5,7))
  next
    case (6 d)
    from chans_okD(8) [OF ok this] fresh show ?case by (auto simp: r(9))
  next
    case (7 d)
    then show ?case using chans_okD(9) [OF ok, of d] by (auto simp: r(2,9,10) split: if_splits)
  qed (rule chans_okD(7) [OF ok])
qed

lemma waits_ok_register:
  assumes ok: "waits_ok h fl ws" and co: "chans_ok h fl" and reg: "register w h = (Inr (i, c), h')"
    and k: "known h w" and i0: "i \<noteq> 0"
  shows "waits_ok h' fl ((w, i, c) # ws)"
proof -
  note r = register_ok [OF reg k]
  have ni: "unat i = Suc (unat (nextID (conn_of h w)))" using next_id [OF r(1) i0] .
  have fresh: "mget (chans h) c = None" using chans_okD(9) [OF co, of c] r(2) by (metis less_irrefl)
  have new: "d \<noteq> c \<and> \<not> (v = w \<and> j = i)" if "(v, j, d) \<in> set ws" for v j d
  proof
    show "d \<noteq> c"
      using waits_okD(3) [OF ok that] chans_okD(1,8) [OF co] fresh by (metis option.distinct(1))
    show "\<not> (v = w \<and> j = i)" using waits_okD(1) [OF ok that] ni by auto
  qed
  show ?thesis
  proof (rule waits_okI, goal_cases)
    case (1 v j d)
    then show ?case using waits_okD(1) [OF ok, of v j d] ni by (auto simp: r(6))
  next
    case (2 v j d d')
    then show ?case using waits_okD(2) [OF ok, of v j d d'] new [of v j d] by (auto simp: r(5) split: if_splits)
  next
    case (3 v j d)
    show ?case
    proof (cases "(v, j, d) = (w, i, c)")
      case True
      then show ?thesis by (simp add: r(5))
    next
      case False
      with 3 have m: "(v, j, d) \<in> set ws" by auto
      have "mget (pend h' v) j = mget (pend h v) j" "mget (chans h') d = mget (chans h) d"
        using new [OF m] by (auto simp: r(5,9))
      with waits_okD(3) [OF ok m] show ?thesis by simp
    qed
  next
    case (4 v j d v' j')
    then show ?case using waits_okD(4) [OF ok, of v j d v' j'] new by auto
  qed
qed

lemma receive_Some:
  assumes "receive c h = (Some f, h')"
  shows "\<exists>fs. mget (chans h) c = Some (f # fs) \<and> h' = h\<lparr>chans := mset_key c fs (chans h)\<rparr>"
  using assms by (auto simp: receive_def split: option.splits list.splits)

lemma answered_ok:
  assumes co: "chans_ok h fl" and ok: "waits_ok h fl ws" and m: "(w, i, c) \<in> set ws" and rc: "receive c h = (Some f, h')"
  shows "chans_ok h' fl" and "waits_ok h' fl (filter (\<lambda>x. x \<noteq> (w, i, c)) ws)"
proof -
  obtain fs where c: "mget (chans h) c = Some (f # fs)" and h': "h' = h\<lparr>chans := mset_key c fs (chans h)\<rparr>"
    using receive_Some [OF rc] by blast
  have np: "mget (pend h v) j \<noteq> Some c" for v j using chans_okD(1) [OF co, of v j c] c by auto
  have nf: "c \<notin> fst ` set fl" using chans_okD(8) [OF co, of c] c by auto
  show "chans_ok h' fl"
    unfolding h'
  proof (rule chans_okI, goal_cases)
    case (1 v j d)
    then have q: "mget (pend h v) j = Some d" by simp
    with chans_okD(1-3) [OF co q] np show ?case by auto
  next
    case (2 v j d v' j')
    then have "mget (pend h v) j = Some d" "mget (pend h v') j' = Some d" by simp_all
    then show ?case by (rule chans_okD(4) [OF co])
  next
    case (6 d)
    with nf have "d \<noteq> c" by blast
    with chans_okD(8) [OF co 6] show ?case by simp
  next
    case (7 d)
    then have "mget (chans h) d \<noteq> None" using c by (simp split: if_splits)
    from chans_okD(9) [OF co this] show ?case by simp
  qed (use chans_okD(5-7) [OF co] in simp_all)
  show "waits_ok h' fl (filter (\<lambda>x. x \<noteq> (w, i, c)) ws)"
    unfolding h'
  proof (rule waits_okI, goal_cases)
    case (3 v j d)
    then have v: "(v, j, d) \<in> set ws" "(v, j, d) \<noteq> (w, i, c)" by simp_all
    then have "d \<noteq> c" using waits_okD(4) [OF ok m] by blast
    with waits_okD(3) [OF ok v(1)] show ?case by simp
  next
    case (1 v j d)
    then have "(v, j, d) \<in> set ws" by simp
    from waits_okD(1) [OF ok this] show ?case by simp
  next
    case (2 v j d d')
    then have "(v, j, d) \<in> set ws" "mget (pend h v) j = Some d'" by simp_all
    then show ?case by (rule waits_okD(2) [OF ok])
  next
    case (4 v j d v' j')
    then show ?case using waits_okD(4) [OF ok, of v j d v' j'] by simp
  qed
qed

section \<open>Every reachable state is well formed\<close>

definition sys_inv :: "sys \<Rightarrow> bool" where
  "sys_inv s \<longleftrightarrow>
     routes_ok (hub s) \<and> bc_inv (bus (hub s)) \<and> chans_ok (hub s) (flight s) \<and> waits_ok (hub s) (flight s) (waiting s)"

lemma sys_inv_init: "bc_inv b \<Longrightarrow> sys_inv (init_sys b)"
  by (simp add: sys_inv_def init_sys_def routes_ok_new chans_ok_def waits_ok_def)
    (simp add: newHub_def conn_of_def)

lemma publish_on_views:
  assumes "bc_inv (bus h)"
  shows "\<exists>b'. publish_on h e = Some (h\<lparr>bus := b'\<rparr>) \<and> bc_inv b'"
proof -
  obtain st b' where "Publish (bus h) e = Some (st, b')"
    using Publish_spec [OF assms, of e] by metis
  with bc_inv_Publish [OF assms] show ?thesis by (auto simp: publish_on_def)
qed

lemma workerFor_views [simp]:
  "conn_of (snd (workerFor h a)) = conn_of h" "chans (snd (workerFor h a)) = chans h"
  "next_chan (snd (workerFor h a)) = next_chan h" "bus (snd (workerFor h a)) = bus h"
  "known (snd (workerFor h a)) = known h" "workers (snd (workerFor h a)) = workers h"
  by (auto simp: workerFor_def split: option.splits)

lemma send_frame_views [simp]:
  "pend (snd (send_frame w f out h)) v = pend h v" "nextID (conn_of (snd (send_frame w f out h)) v) = nextID (conn_of h v)"
  "w_closed (conn_of (snd (send_frame w f out h)) v) = w_closed (conn_of h v)"
  "w_id (conn_of (snd (send_frame w f out h)) v) = w_id (conn_of h v)"
  "chans (snd (send_frame w f out h)) = chans h" "next_chan (snd (send_frame w f out h)) = next_chan h"
  "bus (snd (send_frame w f out h)) = bus h" "known (snd (send_frame w f out h)) = known h"
  "workers (snd (send_frame w f out h)) = workers h" "assignments (snd (send_frame w f out h)) = assignments h"
  "next_conn (snd (send_frame w f out h)) = next_conn h"
  by (auto simp: send_frame_def fun_eq_iff)

lemma unknown_nextID: "\<not> known h v \<Longrightarrow> nextID (conn_of h v) = 0"
  by (simp add: conn_of_def known_def)

lemma hello_views:
  assumes "routes_ok h" "h' = snd (serve_hello now first h)"
  shows "pend h' v = pend h v \<and> nextID (conn_of h' v) = nextID (conn_of h v) \<and>
    (w_closed (conn_of h' v) \<longrightarrow> w_closed (conn_of h v)) \<and>
    chans h' = chans h \<and> next_chan h' = next_chan h \<and> bus h' = bus h"
proof -
  have u: "\<not> known h (next_conn h)" using routes_okD(7) [OF assms(1)] by blast
  consider hello limits where "first = Some hello" "hello_ok h hello limits" | "h' = h"
    using serve_hello_refused [of first h now] assms(2) by blast
  then show ?thesis
  proof cases
    case (1 hello limits)
    note f = hello_fields [OF 1(2) assms(2) [unfolded 1(1)]]
    show ?thesis
      using u by (simp add: f new_conn_def unknown_conn unknown_nextID)
  qed simp
qed

lemma sys_inv_same:
  assumes "sys_inv s" "routes_ok h'" "bc_inv (bus h')"
    and "\<And>w. pend h' w = pend (hub s) w" "\<And>w. nextID (conn_of h' w) = nextID (conn_of (hub s) w)"
    and "\<And>w. w_closed (conn_of h' w) \<Longrightarrow> w_closed (conn_of (hub s) w)"
    and "chans h' = chans (hub s)" "next_chan h' = next_chan (hub s)"
  shows "sys_inv (s\<lparr>hub := h'\<rparr>)"
proof -
  have i: "chans_ok (hub s) (flight s)" "waits_ok (hub s) (flight s) (waiting s)"
    using assms(1) by (simp_all add: sys_inv_def)
  have "chans_ok h' (flight s)" by (rule chans_ok_cong [OF i(1)]) (use assms(4-8) in blast)+
  moreover have "waits_ok h' (flight s) (waiting s)" by (rule waits_ok_cong [OF i(2)]) (use assms(4-8) in blast)+
  ultimately show ?thesis using assms(2,3) by (simp add: sys_inv_def)
qed

lemma sys_invD:
  assumes "sys_inv s"
  shows "routes_ok (hub s)" "bc_inv (bus (hub s))" "chans_ok (hub s) (flight s)" "waits_ok (hub s) (flight s) (waiting s)"
  using assms by (simp_all add: sys_inv_def)

lemma sys_inv_step:
  assumes "sys_step s s'" "sys_inv s" shows "sys_inv s'"
  using assms(1)
proof cases
  case (hello now first)
  note v = hello_views [OF sys_invD(1) [OF assms(2)] refl, of now first]
  show ?thesis
    unfolding hello using v routes_ok_hello [OF sys_invD(1) [OF assms(2)]] sys_invD(2) [OF assms(2)]
    by (intro sys_inv_same [OF assms(2)]) simp_all
next
  case (take_waiter w f c h')
  note t = take_waiter(4) [unfolded deliver_take_Some]
  have "routes_ok (unregister w (ID f) (hub s))"
    unfolding unregister_def by (rule routes_ok_upd) (simp_all add: sys_invD(1) [OF assms(2)])
  with chans_ok_take [OF sys_invD(3) [OF assms(2)] t [THEN conjunct1]] waits_ok_take [OF sys_invD(4) [OF assms(2)] t [THEN conjunct1]]
    sys_invD(2) [OF assms(2)]
  show ?thesis by (simp add: sys_inv_def take_waiter(1) t)
next
  case (put c f h')
  from chans_ok_put [OF sys_invD(3) [OF assms(2)] put(2,3)] waits_ok_put [OF sys_invD(4) [OF assms(2)] put(3)]
    sys_invD(1,2) [OF assms(2)] put(3)
  show ?thesis by (simp add: sys_inv_def put(1) put_chan_Some)
next
  case (publish e h')
  then obtain b' where "h' = (hub s)\<lparr>bus := b'\<rparr>" "bc_inv b'"
    using publish_on_views [OF sys_invD(2) [OF assms(2)], of e] by auto
  then show ?thesis
    unfolding publish(1) using sys_invD(1) [OF assms(2)] by (intro sys_inv_same [OF assms(2)]) simp_all
next
  case (detach w)
  show ?thesis
    unfolding detach(1) using sys_invD(2) [OF assms(2)] routes_ok_detach [OF sys_invD(1) [OF assms(2)] detach(2)]
    by (intro sys_inv_same [OF assms(2)]) simp_all
next
  case (close w reason)
  have "routes_ok (snd (drop_close w reason (hub s)))"
    unfolding drop_close_def snd_conv by (rule routes_ok_upd) (use close(3) sys_invD(1) [OF assms(2)] in simp_all)
  with chans_ok_close [OF sys_invD(3) [OF assms(2)]] waits_ok_close [OF sys_invD(4,3) [OF assms(2)]] sys_invD(2) [OF assms(2)]
  show ?thesis by (simp add: sys_inv_def close(1))
next
  case (pin a)
  show ?thesis
    unfolding pin using sys_invD(2) [OF assms(2)] routes_ok_workerFor [OF sys_invD(1) [OF assms(2)]]
    by (intro sys_inv_same [OF assms(2)]) simp_all
next
  case (enter w i c h')
  note r = register_ok [OF enter(3,2)]
  have "routes_ok (upd_conn w (\<lambda>wk. wk\<lparr>nextID := i, pending := mset_key i c (pending wk)\<rparr>) (hub s))"
    by (rule routes_ok_upd) (simp_all add: sys_invD(1) [OF assms(2)])
  then have "routes_ok h'" "bus h' = bus (hub s)" by (simp_all add: r(4))
  with chans_ok_register [OF sys_invD(3) [OF assms(2)] enter(3,2,4)]
    waits_ok_register [OF sys_invD(4,3) [OF assms(2)] enter(3,2,4)] sys_invD(2) [OF assms(2)]
  show ?thesis by (simp add: sys_inv_def enter(1))
next
  case (transmit w f outcome)
  have "routes_ok (upd_conn w (\<lambda>wk. wk\<lparr>sent := sent wk @ [f]\<rparr>) (hub s))"
    by (rule routes_ok_upd) (simp_all add: sys_invD(1) [OF assms(2)])
  then have "routes_ok (snd (send_frame w f outcome (hub s)))"
    using sys_invD(1) [OF assms(2)] by (simp add: send_frame_def)
  then show ?thesis
    unfolding transmit using sys_invD(2) [OF assms(2)] by (intro sys_inv_same [OF assms(2)]) simp_all
next
  case (abandon w i c)
  have "routes_ok (unregister w i (hub s))"
    unfolding unregister_def by (rule routes_ok_upd) (simp_all add: sys_invD(1) [OF assms(2)])
  with chans_ok_unregister [OF sys_invD(3) [OF assms(2)]] waits_ok_abandon [OF sys_invD(4,3) [OF assms(2)] abandon(2)]
    sys_invD(2) [OF assms(2)]
  show ?thesis by (simp add: sys_inv_def abandon(1))
next
  case (answered w i c f h')
  note a = answered_ok [OF sys_invD(3,4) [OF assms(2)] answered(2,3)]
  obtain fs where "h' = (hub s)\<lparr>chans := mset_key c fs (chans (hub s))\<rparr>"
    using receive_Some [OF answered(3)] by blast
  with a sys_invD(1,2) [OF assms(2)] show ?thesis by (simp add: sys_inv_def answered(1))
qed

lemma sys_reach_inv: "sys_reach s \<Longrightarrow> sys_inv s"
  by (induction rule: sys_reach.induct) (auto intro: sys_inv_init sys_inv_step)

end
