(* ===== verification/Worker_Hub_Ops.thy ===== *)
theory Worker_Hub_Ops imports Worker_Hub_Waiters begin

text \<open>
  Package \<open>internal/workerhub\<close>, file \<open>ops.go\<close>: what the tools and the REST API call, each one
  request to the worker pinned to the agent. An operation returns a value and an error, as in Go;
  \<open>None\<close> is an operation still waiting for its worker.
\<close>

definition finish :: "(json \<Rightarrow> 'a res) \<Rightarrow> 'a \<Rightarrow> json option res option \<Rightarrow> ('a \<times> gerr option) option" where
  "finish un zero r =
     (case r of
        None \<Rightarrow> None
      | Some (Inl e) \<Rightarrow> Some (zero, Some e)
      | Some (Inr raw) \<Rightarrow> (case un_raw un raw of Inl e \<Rightarrow> Some (zero, Some e) | Inr a \<Rightarrow> Some (a, None)))"

definition hub_Exec where
  "hub_Exec others werr ctx agentID rq h =
     (let (r, h') = call others werr ctx agentID OpExec (exec_request_json rq) h
      in (map_option (\<lambda>(out, err).
             if err \<noteq> None then (out, err)
             else if ex_ErrorKind out = ErrorKindTimeout then (out, Some ErrCommandTimeout)
             else if ex_ErrorKind out = ErrorKindStopped then (out, Some ErrCommandStopped)
             else (out, None)) (finish un_exec_response zeroExecResponse r), h'))"

definition hub_ReadFile where
  "hub_ReadFile others werr ctx agentID path h =
     (let (r, h') = call others werr ctx agentID OpReadFile (read_request_json \<lparr>rfq_Path = path\<rparr>) h
      in (map_option (\<lambda>(out, err). (rfs_Content out, err))
            (finish un_read_response \<lparr>rfs_Path = [], rfs_Content = []\<rparr> r), h'))"

text \<open>The first \<open>workerFor\<close> of \<open>WriteFile\<close> is its own critical section, before those of \<open>call\<close>.\<close>

definition hub_WriteFile where
  "hub_WriteFile first others werr ctx agentID path content h =
     (let (r, h1) = workerFor (first h) agentID in
      case r of
        Inl e \<Rightarrow> (Some (0, Some (Wrap [] e ('' for sandbox '' @ agentID))), h1)
      | Inr w \<Rightarrow>
          (let most = sint (MaxFileBytes (w_limits (conn_of h1 w))) in
           if most < int (length content) then (Some (0, Some (ErrFileTooLarge path (int (length content)) most)), h1)
           else
             (let (r, h') = call others werr ctx agentID OpWriteFile
                              (write_request_json \<lparr>wfq_Path = path, wfq_Content = content\<rparr>) h1
              in (map_option (\<lambda>(out, err). (wfs_Bytes out, err))
                    (finish un_write_response \<lparr>wfs_Path = [], wfs_Bytes = 0\<rparr> r), h'))))"

definition hub_ListDir where
  "hub_ListDir others werr ctx agentID path h =
     (let (r, h') = call others werr ctx agentID OpListDir (list_request_json \<lparr>ldq_Path = path\<rparr>) h
      in (map_option (\<lambda>(out, err).
             if err \<noteq> None then (None, err)
             else (Some (case lds_Files out of None \<Rightarrow> [] | Some fs \<Rightarrow> fs), None))
            (finish un_list_response \<lparr>lds_Path = [], lds_Files = None\<rparr> r), h'))"

definition hub_DeleteFile where
  "hub_DeleteFile others werr ctx agentID path h =
     (let (r, h') = call others werr ctx agentID OpDeleteFile (delete_request_json \<lparr>dfq_Path = path\<rparr>) h
      in (finish un_delete_response \<lparr>dfs_Path = [], dfs_Existed = False, dfs_WasDirectory = False\<rparr> r, h'))"

definition hub_Status where
  "hub_Status others werr ctx agentID h =
     (let (r, h') = call others werr ctx agentID OpStatus status_request_json h
      in (finish un_status_response \<lparr>st_RootDir = [], st_DefaultTimeout = [], st_MaxOutputBytes = 0, st_EnvNames = None,
            st_RunningCommands = 0, st_WorkerID = []\<rparr> r, h'))"

definition hub_Kill where
  "hub_Kill others werr ctx agentID byActor reason h =
     (let (r, h') = call others werr ctx agentID OpKill (kill_request_json \<lparr>kq_ByActor = byActor, kq_Reason = reason\<rparr>) h
      in (map_option (\<lambda>(out, err).
             if (case err of Some e \<Rightarrow> errors_is e ErrNoWorker | None \<Rightarrow> False) then (0, None)
             else (ks_Killed out, err))
            (finish un_kill_response \<lparr>ks_Killed = 0\<rparr> r), h'))"

section \<open>One call, start to end\<close>

lemma finish_simps [simp]:
  "finish un z None = None" "finish un z (Some (Inl e)) = Some (z, Some e)"
  "finish un z (Some (Inr None)) = Some (z, Some (Plain ''unexpected end of JSON input''))"
  "un (wire j) = Inr a \<Longrightarrow> finish un z (Some (Inr (Some j))) = Some (a, None)"
  by (simp_all add: finish_def un_raw_def)

lemma call_no_worker:
  assumes "workerFor (others 0 h) a = (Inl e, h1)"
  shows "call others werr ctx a op raw h = (Some (Inl (Wrap [] e ('' for sandbox '' @ a))), h1)"
  using assms by (simp add: call_def)

lemma call_too_large:
  assumes "workerFor (others 0 h) a = (Inr w, h1)" "sint (MaxPayloadBytes (w_limits (conn_of h1 w))) < int (jlen raw)"
  shows "call others werr ctx a op raw h =
    (Some (Inl (ErrPayloadTooLarge op (int (jlen raw)) (sint (MaxPayloadBytes (w_limits (conn_of h1 w)))))), h1)"
  using assms by (simp add: call_def Let_def)

lemma call_answered:
  assumes "workerFor (others 0 h) a = (Inr w, h1)" "int (jlen raw) \<le> sint (MaxPayloadBytes (w_limits (conn_of h1 w)))"
    and "register w (others 1 h1) = (Inr (i, c), h2)" "werr 0 = None"
    and "receive c (others 3 (snd (send_frame w (zeroFrame\<lparr>Type := FrameRequest, ID := i, AgentID := a, FOp := op,
            Payload := Some raw\<rparr>) None (others 2 h2)))) = (Some f, h4)"
  shows "call others werr None a op raw h = (Some (answer_of f), h4)"
  using assms by (simp add: call_def Let_def send_frame_def)

text \<open>A call that its context ends leaves no entry behind and tells the worker to cancel.\<close>

lemma call_cancelled:
  assumes "workerFor (others 0 h) a = (Inr w, h1)" "int (jlen raw) \<le> sint (MaxPayloadBytes (w_limits (conn_of h1 w)))"
    and "register w (others 1 h1) = (Inr (i, c), h2)" "werr 0 = None"
    and "h3 = snd (send_frame w (zeroFrame\<lparr>Type := FrameRequest, ID := i, AgentID := a, FOp := op, Payload := Some raw\<rparr>)
          None (others 2 h2))"
  shows "call others werr (Some e) a op raw h =
    (Some (Inl e), snd (send_frame w (zeroFrame\<lparr>Type := FrameCancel, ID := i\<rparr>) (werr 1) (others 4 (unregister w i (others 3 h3)))))"
proof -
  have f: "fst (send_frame w f out g) = out" for f out g by (simp add: send_frame_def)
  show ?thesis
    using assms by (simp add: call_def Let_def split_beta f)
qed

lemma cancel_told:
  assumes "known h w"
  shows "mget (pend (snd (send_frame w f out h)) w) i = mget (pend h w) i"
    and "last (sent (conn_of (snd (send_frame w f None h)) w)) = f"
  using assms by (simp_all add: send_frame_def)

section \<open>A sample state\<close>

text \<open>One worker that claims agent \<open>a\<close>; agent \<open>b\<close> is new.\<close>

lemma sample_state:
  "\<exists>s. sys_reach s \<and> mget (assignments (hub s)) ''a'' = Some 0 \<and> mget (assignments (hub s)) ''b'' = None \<and>
     live (hub s) 0 \<and> (\<forall>v. live (hub s) v \<longrightarrow> v = 0) \<and>
     w_limits (conn_of (hub s) 0) = \<lparr>MaxOutputBytes = 1024, MaxFileBytes = 1024\<rparr> \<and>
     nextID (conn_of (hub s) 0) = 0 \<and> next_chan (hub s) = 0 \<and> chans (hub s) = [] \<and> waiting s = []"
proof -
  let ?lim = "\<lparr>MaxOutputBytes = 1024, MaxFileBytes = 1024\<rparr>"
  let ?hello = "zeroFrame\<lparr>Type := FrameHello, WorkerID := ''w'', Protocol := 1, FLimits := Some ?lim, Agents := [''a'']\<rparr>"
  let ?s0 = "init_sys (NewBroadcaster 0)"
  let ?s1 = "?s0\<lparr>hub := snd (serve_hello 0 (Some ?hello) (hub ?s0))\<rparr>"
  have lim: "Validate ?lim = None" by code_simp
  have ok: "hello_ok (hub ?s0) ?hello ?lim"
    using lim by (simp add: hello_ok_def init_sys_def newHub_def ProtocolVersion_def zeroFrame_def)
  have r0: "routes_ok (hub ?s0)" by (simp add: init_sys_def routes_ok_new)
  have "sys_reach ?s1" by (rule sys_reach.more [OF sys_reach.start [OF bc_inv_new] sys_step.hello])
  moreover have "live (hub ?s1) v \<longleftrightarrow> v = 0" for v
    using hello_live [OF r0 ok, of 0 v] by (simp add: init_sys_def newHub_def live_def known_def)
  moreover note hello_fields [OF ok refl, of 0]
  ultimately show ?thesis
    by (intro exI [of _ ?s1]) (simp add: pin_back_mget init_sys_def newHub_def zeroFrame_def new_conn_def)
qed

section \<open>Properties\<close>

text \<open>C7: no interleaving of connecting, answering, dropping, routing, calling, cancelling and
  publishing blocks a goroutine for ever on a waiter's channel or panics on a watcher's: the one
  frame in flight for a waiter always finds its buffer empty, and a publish always succeeds.\<close>

theorem hub_never_blocks:
  assumes "sys_reach s"
  shows "list_all (\<lambda>(c, f). put_chan c f (hub s) \<noteq> None) (flight s) \<and> publish_on (hub s) e \<noteq> None"
proof -
  note inv = sys_invD [OF sys_reach_inv [OF assms]]
  have "put_chan c f (hub s) \<noteq> None" if "(c, f) \<in> set (flight s)" for c f
    using chans_okD(8) [OF inv(3), of c] that by (force simp: put_chan_def)
  moreover have "publish_on (hub s) e \<noteq> None" using publish_on_views [OF inv(2), of e] by auto
  ultimately show ?thesis by (auto simp: list_all_iff)
qed

lemma hub_never_blocks_witness:
  "publish_on (hub (init_sys (NewBroadcaster 0))) zeroEvent \<noteq> None"
  using hub_never_blocks [OF sys_reach.start [OF bc_inv_new]] by blast

text \<open>C5: no call is lost. Whatever happened, a call still waiting either has exactly one answer
  in its channel, or one on its way there, or is still listed on a connection that is open; in
  particular a call whose worker was lost has its answer, which is the error the drop sent.\<close>

theorem no_call_is_lost:
  assumes "sys_reach s" "(w, i, c) \<in> set (waiting s)"
  shows "(\<exists>f. mget (chans (hub s)) c = Some [f]) \<or> c \<in> fst ` set (flight s) \<or>
    (mget (pend (hub s) w) i = Some c \<and> \<not> w_closed (conn_of (hub s) w))"
proof -
  note inv = sys_invD [OF sys_reach_inv [OF assms(1)]]
  have "\<not> w_closed (conn_of (hub s) w)" if "mget (pend (hub s) w) i = Some c"
  proof
    assume "w_closed (conn_of (hub s) w)"
    from chans_okD(6) [OF inv(3) this] that show False by simp
  qed
  with waits_okD(3) [OF inv(4) assms(2)] show ?thesis by blast
qed

text \<open>C8: routing. In every reachable state an agent is assigned only to a connected worker that
  is registered under its own name, and no step moves an agent: it keeps its worker until that
  worker is lost, and is then unassigned.\<close>

theorem routing_is_sticky:
  assumes "sys_reach s" "sys_step s s'" "mget (assignments (hub s)) a = Some w"
  shows "live (hub s) w \<and> (mget (assignments (hub s')) a = Some w \<or>
    (mget (assignments (hub s')) a = None \<and> \<not> live (hub s') w))"
proof
  note inv = sys_invD [OF sys_reach_inv [OF assms(1)]]
  show "live (hub s) w" by (rule routes_okD(6) [OF inv(1) assms(3)])
  have keep: "mget (assignments (hub s')) a = Some w" if "assignments (hub s') = assignments (hub s)"
    using that assms(3) by simp
  from assms(2) show "mget (assignments (hub s')) a = Some w \<or> (mget (assignments (hub s')) a = None \<and> \<not> live (hub s') w)"
  proof cases
    case (hello now first)
    consider hello limits where "first = Some hello" "hello_ok (hub s) hello limits" | "snd (serve_hello now first (hub s)) = hub s"
      using serve_hello_refused [of first "hub s" now] by blast
    then show ?thesis
    proof cases
      case (1 hello limits)
      have "mget (assignments (hub s')) a = Some w"
        using hello_fields(2) [OF 1(2) refl, of now] assms(3) by (simp add: hello 1(1) pin_back_mget)
      then show ?thesis ..
    next
      case 2
      then show ?thesis using keep by (simp add: hello)
    qed
  next
    case (detach v)
    note ns = mget_detached [OF routes_okD(2) [OF inv(1)], of v a]
    show ?thesis
    proof (cases "v = w")
      case True
      have "mget (filter (\<lambda>(a, x). x \<noteq> v) (assignments (hub s))) a \<noteq> Some u" for u
        using ns [of u] assms(3) True by auto
      then have "mget (filter (\<lambda>(a, x). x \<noteq> v) (assignments (hub s))) a = None" by (simp only: not_Some_eq [symmetric]) blast
      then have "mget (assignments (hub s')) a = None" by (simp add: detach(1) del: map_of_eq_Some_iff map_of_eq_None_iff)
      with drop_detach_live [OF detach(2)] True show ?thesis by (simp add: detach(1))
    next
      case False
      with ns [of w] assms(3) show ?thesis by (simp add: detach(1) del: map_of_eq_Some_iff)
    qed
  next
    case (pin b)
    then show ?thesis using assms(3) by (auto simp: workerFor_def split: option.splits)
  next
    case (publish e h')
    then have "assignments (hub s') = assignments (hub s)" by (auto simp: publish_on_def)
    then show ?thesis using keep by blast
  next
    case (answered w i c f h')
    then have "assignments (hub s') = assignments (hub s)" using receive_Some by fastforce
    then show ?thesis using keep by blast
  next
    case (put c f h')
    then have "assignments (hub s') = assignments (hub s)" by (auto simp: put_chan_Some)
    then show ?thesis using keep by blast
  next
    case (enter v i c h')
    then have "assignments (hub s') = assignments (hub s)" using register_ok(4) [OF enter(3,2)] by simp
    then show ?thesis using keep by blast
  next
    case (take_waiter v f c)
    then have "assignments (hub s') = assignments (hub s)" by (simp add: deliver_take_Some unregister_def)
    then show ?thesis using keep by blast
  next
    case (close v r)
    then have "assignments (hub s') = assignments (hub s)" by (simp add: drop_close_def)
    then show ?thesis using keep by blast
  next
    case (transmit v f out)
    then have "assignments (hub s') = assignments (hub s)" by simp
    then show ?thesis using keep by blast
  next
    case (abandon v i c)
    then have "assignments (hub s') = assignments (hub s)" by (simp add: unregister_def)
    then show ?thesis using keep by blast
  qed
qed

lemma routing_is_sticky_witness:
  "\<exists>s s'. sys_reach s \<and> sys_step s s' \<and> mget (assignments (hub s)) ''a'' = Some 0 \<and> mget (assignments (hub s')) ''a'' = None"
proof -
  obtain s where s: "sys_reach s" "mget (assignments (hub s)) ''a'' = Some 0" "live (hub s) 0"
    using sample_state by blast
  let ?s' = "s\<lparr>hub := snd (drop_detach 0 (hub s))\<rparr>"
  note st = sys_step.detach [OF s(3)]
  from routing_is_sticky [OF s(1) st s(2)]
  have "mget (assignments (hub ?s')) ''a'' \<noteq> Some 0 \<Longrightarrow> mget (assignments (hub ?s')) ''a'' = None" by blast
  moreover have "mget (assignments (hub ?s')) ''a'' \<noteq> Some 0"
    using mget_detached [OF routes_okD(2) [OF sys_invD(1) [OF sys_reach_inv [OF s(1)]]], of 0 "''a''" 0]
    by (simp del: map_of_eq_Some_iff)
  ultimately show ?thesis using s(1,2) st by blast
qed

lemma no_call_is_lost_witness:
  "\<exists>s. sys_reach s \<and> waiting s = [(0, 1, 0)] \<and> ((\<exists>f. mget (chans (hub s)) 0 = Some [f]) \<or> 0 \<in> fst ` set (flight s) \<or>
    (mget (pend (hub s) 0) 1 = Some 0 \<and> \<not> w_closed (conn_of (hub s) 0)))"
proof -
  obtain s where s: "sys_reach s" "live (hub s) 0" "nextID (conn_of (hub s) 0) = 0" "next_chan (hub s) = 0" "waiting s = []"
    using sample_state by blast
  have op: "\<not> w_closed (conn_of (hub s) 0)" "known (hub s) 0"
    using s(2) routes_okD(5) [OF sys_invD(1) [OF sys_reach_inv [OF s(1)]]] by (auto simp: live_def)
  then obtain h' where r: "register 0 (hub s) = (Inr (1, 0), h')"
    using s(3,4) by (simp add: register_def Let_def)
  let ?s' = "s\<lparr>hub := h', waiting := [(0, 1, 0)]\<rparr>"
  have "sys_reach ?s'" using sys_reach.more [OF s(1) sys_step.enter [OF op(2) r]] s(5) by simp
  from no_call_is_lost [OF this, of 0 1 0] this show ?thesis by (intro exI [of _ ?s']) simp
qed

text \<open>A new agent goes to a connected worker that serves the fewest agents, the least name
  among equals, so the choice does not depend on the order in which the map of workers is visited;
  an agent already assigned is not moved, and without a worker the answer is \<open>ErrNoWorker\<close>.\<close>

theorem least_loaded_worker:
  assumes "sys_reach s"
  shows "case fst (workerFor (hub s) a) of
      Inl e \<Rightarrow> e = ErrNoWorker \<and> (\<forall>v. \<not> live (hub s) v)
    | Inr w \<Rightarrow> live (hub s) w \<and> mget (assignments (snd (workerFor (hub s) a))) a = Some w \<and>
        (mget (assignments (hub s)) a = Some w \<or>
         (mget (assignments (hub s)) a = None \<and>
          (\<forall>v. live (hub s) v \<longrightarrow> v = w \<or> load_of (hub s) (w_id (conn_of (hub s) w)) < load_of (hub s) (w_id (conn_of (hub s) v)) \<or>
             (load_of (hub s) (w_id (conn_of (hub s) w)) = load_of (hub s) (w_id (conn_of (hub s) v)) \<and>
              w_id (conn_of (hub s) w) < w_id (conn_of (hub s) v)))))"
  using workerFor_spec [OF sys_invD(1) [OF sys_reach_inv [OF assms]], of a]
  unfolding better_def by (elim disjE exE conjE) (simp_all add: ErrNoWorker_def)

lemma least_loaded_worker_witness: "fst (workerFor (hub (init_sys (NewBroadcaster 0))) ''a'') = Inl ErrNoWorker"
  using least_loaded_worker [OF sys_reach.start [OF bc_inv_new], of 0 "''a''"]
  by (cases "fst (workerFor (hub (init_sys (NewBroadcaster 0))) ''a'')")
    (auto simp: init_sys_def newHub_def live_def known_def)

text \<open>C9: a connection is registered exactly when its hello names a free worker id, speaks this
  protocol and declares limits that validate; it then gets every agent it claims that nobody
  serves, and takes none from a worker that does. A refused hello changes nothing.\<close>

theorem hello_reclaims_agents:
  assumes "serve_hello now first h = (out, h')"
  shows "case out of
      Refused st why \<Rightarrow> h' = h \<and> (case first of None \<Rightarrow> True | Some hello \<Rightarrow>
        \<not> (\<exists>limits. hello_ok h hello limits))
    | Serving w n \<Rightarrow> (\<exists>hello limits. first = Some hello \<and> hello_ok h hello limits \<and> w = next_conn h \<and> n = FrameBytes limits \<and>
        mget (workers h') (WorkerID hello) = Some w \<and> w_limits (conn_of h' w) = limits \<and>
        (\<forall>a. mget (assignments h') a =
          (if mget (assignments h) a = None \<and> a \<in> set (Agents hello) \<and> a \<noteq> [] then Some w else mget (assignments h) a)))"
proof (cases "\<exists>hello limits. first = Some hello \<and> hello_ok h hello limits")
  case True
  then obtain hello limits where f: "first = Some hello" and ok: "hello_ok h hello limits" by blast
  have h': "h' = snd (serve_hello now (Some hello) h)" and out: "out = Serving (next_conn h) (FrameBytes limits)"
    using assms serve_hello_serving [OF ok, of now] by (simp_all add: f)
  note hf = hello_fields [OF ok h']
  show ?thesis
    unfolding out hello_outcome.case
    by (intro exI [of _ hello] exI [of _ limits]) (simp add: f ok hf new_conn_def pin_back_mget del: map_of_eq_Some_iff)
next
  case False
  with serve_hello_refused [of first h now] obtain st why where "h' = h" "out = Refused st why"
    using assms by (metis fst_conv snd_conv)
  with False show ?thesis by (simp split: option.split)
qed

lemma hello_reclaims_agents_witness:
  "\<not> (\<exists>limits. hello_ok (newHub (NewBroadcaster 0)) (zeroFrame\<lparr>Type := FrameHello\<rparr>) limits)"
proof -
  have "serve_hello 0 (Some (zeroFrame\<lparr>Type := FrameHello\<rparr>)) (newHub (NewBroadcaster 0)) =
     (Refused StatusProtocolError ''first frame must be a hello naming the worker'', newHub (NewBroadcaster 0))"
    by (simp add: serve_hello_def zeroFrame_def)
  from hello_reclaims_agents [OF this] show ?thesis by simp
qed

text \<open>\<open>Exec\<close> from end to end. When the worker's answer arrives, the caller gets the response it
  carried, with bytes that are not UTF-8 replaced, and the error kind on the wire is turned back
  into the error the caller tells a timeout from a stop by; a refused request is the error text.\<close>

theorem Exec_returns_the_answer:
  assumes "workerFor (others 0 h) a = (Inr w, h1)"
    and "int (jlen (exec_request_json rq)) \<le> sint (MaxPayloadBytes (w_limits (conn_of h1 w)))"
    and "register w (others 1 h1) = (Inr (i, c), h2)" "werr 0 = None"
    and "receive c (others 3 (snd (send_frame w (zeroFrame\<lparr>Type := FrameRequest, ID := i, AgentID := a, FOp := OpExec,
            Payload := Some (exec_request_json rq)\<rparr>) None (others 2 h2)))) = (Some f, h4)"
    and "Payload f = Some (exec_response_json r)"
  shows "hub_Exec others werr None a rq h =
    (Some (if \<not> OK f then (zeroExecResponse, Some (Plain (Error f)))
           else (san_exec_response r,
                 if ex_ErrorKind r = ''timeout'' then Some ErrCommandTimeout
                 else if ex_ErrorKind r = ''stopped'' then Some ErrCommandStopped else None)), h4)"
proof -
  have k: "to_valid s = k \<longleftrightarrow> s = k" if "k \<in> {''timeout'', ''stopped''}" for s k
  proof
    assume "to_valid s = k"
    with that have "list_all (\<lambda>c. of_char c < (128::nat)) (to_valid s)" by auto
    then show "s = k" using \<open>to_valid s = k\<close> to_valid_ascii_only by metis
  qed (use that to_valid_ascii in auto)
  have c: "call others werr None a OpExec (exec_request_json rq) h = (Some (answer_of f), h4)"
    by (rule call_answered [where others = others and werr = werr and w = w and i = i and c = c, OF assms(1-5)])
  show ?thesis
    unfolding hub_Exec_def c answer_of_def
    using k assms(6) exec_response_roundtrip [of r]
    by (simp add: san_exec_response_def ErrorKindTimeout_def ErrorKindStopped_def zeroExecResponse_def)
qed

lemma Exec_returns_the_answer_witness:
  "\<exists>h h4. hub_Exec (\<lambda>i h. if i = 3 then h\<lparr>chans := [(0, [result_frame 1 (exec_response_json (zeroExecResponse\<lparr>ex_ErrorKind := ''stopped''\<rparr>))])]\<rparr> else h)
      (\<lambda>_. None) None ''a'' \<lparr>er_Command = ''ls'', er_Args = None, er_TimeoutSec = 0, er_WorkDir = []\<rparr> h =
    (Some (san_exec_response (zeroExecResponse\<lparr>ex_ErrorKind := ''stopped''\<rparr>), Some ErrCommandStopped), h4)"
proof -
  let ?others = "\<lambda>(i :: nat) h. if i = 3 then h\<lparr>chans := [(0, [result_frame 1 (exec_response_json (zeroExecResponse\<lparr>ex_ErrorKind := ''stopped''\<rparr>))])]\<rparr> else h"
  let ?rq = "\<lparr>er_Command = ''ls'', er_Args = None, er_TimeoutSec = 0, er_WorkDir = []\<rparr>"
  obtain s where s: "sys_reach s" "mget (assignments (hub s)) ''a'' = Some 0" "live (hub s) 0"
    "w_limits (conn_of (hub s) 0) = \<lparr>MaxOutputBytes = 1024, MaxFileBytes = 1024\<rparr>"
    "nextID (conn_of (hub s) 0) = 0" "next_chan (hub s) = 0" "chans (hub s) = []"
    using sample_state by blast
  have op: "\<not> w_closed (conn_of (hub s) 0)"
    using s(3) routes_okD(5) [OF sys_invD(1) [OF sys_reach_inv [OF s(1)]]] by (auto simp: live_def)
  have pl: "sint (MaxPayloadBytes \<lparr>MaxOutputBytes = 1024, MaxFileBytes = 1024\<rparr>) = 4096" by code_simp
  have "length (jquote ''command'') = 9" "length (jquote ''ls'') = 4" by (simp_all add: jquote_plain plain_char_def)
  then have len: "jlen (exec_request_json ?rq) = 16"
    by (simp add: exec_request_json_def opt_defs jlen_def)
  obtain h2 where reg: "register 0 (?others 1 (hub s)) = (Inr (1, 0), h2)"
    using op s(5,6) by (simp add: register_def Let_def)
  have wf: "workerFor (?others 0 (hub s)) ''a'' = (Inr 0, hub s)" using s(2) by (simp add: workerFor_def)
  have "receive 0 (?others 3 (snd (send_frame 0 (zeroFrame\<lparr>Type := FrameRequest, ID := 1, AgentID := ''a'', FOp := OpExec,
            Payload := Some (exec_request_json ?rq)\<rparr>) None (?others 2 h2)))) =
    (Some (result_frame 1 (exec_response_json (zeroExecResponse\<lparr>ex_ErrorKind := ''stopped''\<rparr>))),
     snd (receive 0 (?others 3 (snd (send_frame 0 (zeroFrame\<lparr>Type := FrameRequest, ID := 1, AgentID := ''a'', FOp := OpExec,
            Payload := Some (exec_request_json ?rq)\<rparr>) None (?others 2 h2))))))"
    by (simp add: receive_def)
  from Exec_returns_the_answer [where others = ?others and werr = "\<lambda>_. None" and r = "zeroExecResponse\<lparr>ex_ErrorKind := ''stopped''\<rparr>",
      OF wf _ reg _ this] s(4) pl len
  show ?thesis
    by (intro exI) (simp add: result_frame_def)
qed

text \<open>Stopping an agent that has no worker is not free of effect when a worker is connected:
  the agent is pinned to one, and the kill request is sent there.\<close>

theorem Kill_pins_an_idle_agent:
  assumes "sys_reach s" "mget (assignments (hub s)) a = None" "live (hub s) w"
    and "\<And>v. live (hub s) v \<Longrightarrow> int (jlen (kill_request_json \<lparr>kq_ByActor = by, kq_Reason = why\<rparr>)) \<le> sint (MaxPayloadBytes (w_limits (conn_of (hub s) v)))"
  shows "\<exists>v h'. hub_Kill (\<lambda>_ h. h) (\<lambda>_. None) None a by why (hub s) = (None, h') \<and> live (hub s) v \<and>
    mget (assignments h') a = Some v \<and> FOp (last (sent (conn_of h' v))) = OpKill"
proof -
  let ?h = "hub s" and ?raw = "kill_request_json \<lparr>kq_ByActor = by, kq_Reason = why\<rparr>"
  note inv = sys_invD [OF sys_reach_inv [OF assms(1)]]
  obtain v where v: "workerFor ?h a = (Inr v, ?h\<lparr>assignments := mset_key a v (assignments ?h)\<rparr>)" "live ?h v"
    using workerFor_spec [OF inv(1), of a] assms(2,3) by auto
  let ?h1 = "?h\<lparr>assignments := mset_key a v (assignments ?h)\<rparr>"
  have kv: "known ?h v" and opn: "\<not> w_closed (conn_of ?h v)"
    using v(2) routes_okD(5) [OF inv(1)] by (auto simp: live_def)
  let ?i = "nextID (conn_of ?h v) + 1" and ?c = "next_chan ?h"
  let ?h2 = "(upd_conn v (\<lambda>wk. wk\<lparr>nextID := ?i, pending := mset_key ?i ?c (pending wk)\<rparr>) ?h1)
               \<lparr>chans := mset_key ?c [] (chans ?h), next_chan := Suc ?c\<rparr>"
  have reg: "register v ?h1 = (Inr (?i, ?c), ?h2)" using opn by (simp add: register_def Let_def)
  let ?f = "zeroFrame\<lparr>Type := FrameRequest, ID := ?i, AgentID := a, FOp := OpKill, Payload := Some ?raw\<rparr>"
  have "\<not> sint (MaxPayloadBytes (w_limits (conn_of ?h1 v))) < int (jlen ?raw)" using assms(4) [OF v(2)] by simp
  then have "call (\<lambda>_ h. h) (\<lambda>_. None) None a OpKill ?raw ?h = (None, snd (send_frame v ?f None ?h2))"
    by (simp add: call_def Let_def v(1) reg) (simp add: send_frame_def receive_def)
  then have "hub_Kill (\<lambda>_ h. h) (\<lambda>_. None) None a by why ?h = (None, snd (send_frame v ?f None ?h2))"
    by (simp add: hub_Kill_def)
  moreover have "mget (assignments (snd (send_frame v ?f None ?h2))) a = Some v" by simp
  moreover have "last (sent (conn_of (snd (send_frame v ?f None ?h2)) v)) = ?f" using kv by (simp add: send_frame_def)
  ultimately show ?thesis using v(2) by auto
qed

lemma Kill_pins_an_idle_agent_witness:
  "\<exists>s v h'. sys_reach s \<and> mget (assignments (hub s)) ''b'' = None \<and>
     hub_Kill (\<lambda>_ h. h) (\<lambda>_. None) None ''b'' ''op'' ''why'' (hub s) = (None, h') \<and> mget (assignments h') ''b'' = Some v"
proof -
  obtain s where s: "sys_reach s" "mget (assignments (hub s)) ''b'' = None" "live (hub s) 0" "\<forall>v. live (hub s) v \<longrightarrow> v = 0"
    "w_limits (conn_of (hub s) 0) = \<lparr>MaxOutputBytes = 1024, MaxFileBytes = 1024\<rparr>"
    using sample_state by blast
  have pl: "sint (MaxPayloadBytes \<lparr>MaxOutputBytes = 1024, MaxFileBytes = 1024\<rparr>) = 4096" by code_simp
  have "length (jquote ''by_actor'') = 10" "length (jquote ''op'') = 4" "length (jquote ''reason'') = 8" "length (jquote ''why'') = 5"
    by (simp_all add: jquote_plain plain_char_def)
  then have "jlen (kill_request_json \<lparr>kq_ByActor = ''op'', kq_Reason = ''why''\<rparr>) = 32"
    by (simp add: kill_request_json_def jlen_def)
  with pl s(4,5) Kill_pins_an_idle_agent [OF s(1-3), of "''op''" "''why''"] s(1,2) show ?thesis by fastforce
qed

end
