(* ===== verification/Event_Sink.thy ===== *)
theory Event_Sink imports Stream_Live begin

text \<open>
  The interface \<open>EventSink\<close> of \<open>sandbox.go\<close>: where what happens in a sandbox is published. A sink may
  fail (\<open>None\<close> is a panic), so what a publisher relies on are two laws: a sink in good order accepts
  every event and stays in good order, and it numbers the events of each sandbox by one, without
  touching the numbers of another.
\<close>

fun feed :: "('e \<Rightarrow> 'b \<Rightarrow> 'b option) \<Rightarrow> 'e list \<Rightarrow> 'b \<Rightarrow> 'b option" where
  "feed pub [] b = Some b"
| "feed pub (e # es) b = (case pub e b of None \<Rightarrow> None | Some b' \<Rightarrow> feed pub es b')"

locale event_sink =
  fixes pub :: "Event \<Rightarrow> 'b \<Rightarrow> 'b option" and ok :: "'b \<Rightarrow> bool"
  assumes accepts: "ok b \<Longrightarrow> \<exists>b'. pub e b = Some b' \<and> ok b'"
begin

lemma feed_accepts: "ok b \<Longrightarrow> \<exists>b'. feed pub es b = Some b' \<and> ok b'"
proof (induction es arbitrary: b)
  case (Cons e es)
  obtain b1 where "pub e b = Some b1" "ok b1" using accepts [OF Cons.prems] by blast
  with Cons.IH show ?case by simp
qed simp

end

locale numbered_sink = event_sink +
  fixes next_number :: "'b \<Rightarrow> string \<Rightarrow> u64"
  assumes numbers: "ok b \<Longrightarrow> pub e b = Some b' \<Longrightarrow>
    next_number b' sid = (if sid = SandboxID e then next_number b sid + 1 else next_number b sid)"
begin

lemma feed_numbers: "ok b \<Longrightarrow> feed pub es b = Some b' \<Longrightarrow>
  next_number b' sid = next_number b sid + of_nat (length (filter (\<lambda>e. SandboxID e = sid) es))"
proof (induction es arbitrary: b)
  case (Cons e es)
  obtain b1 where b1: "pub e b = Some b1" "ok b1" using accepts [OF Cons.prems(1)] by blast
  have "feed pub es b1 = Some b'" using Cons.prems(2) b1(1) by simp
  from Cons.IH [OF b1(2) this] numbers [OF Cons.prems(1) b1(1), of sid] show ?case by simp
qed simp

end

lemma Publish_numbers:
  assumes "bc_inv b"
  shows "\<exists>st b'. Publish b e = Some (st, b') \<and> bc_inv b' \<and>
    (\<forall>sid. nextSeq (ring_of b' sid) = (if sid = SandboxID e then nextSeq (ring_of b sid) + 1 else nextSeq (ring_of b sid)))"
proof -
  obtain b' where b': "Publish b e = Some (snd (ring_append (ring_of b (SandboxID e)) e), b')"
    "\<And>sid. ring_of b' sid = (if sid = SandboxID e then fst (ring_append (ring_of b sid) e) else ring_of b sid)"
    using Publish_spec [OF assms] by metis
  moreover have "nextSeq (fst (ring_append r e)) = nextSeq r + 1" for r
    by (simp add: ring_append_def Let_def split_beta)
  ultimately show ?thesis using bc_inv_Publish [OF assms b'(1)] by auto
qed

interpretation bus_sink: numbered_sink "\<lambda>e b. map_option snd (Publish b e)" bc_inv "\<lambda>b sid. nextSeq (ring_of b sid)"
proof
  fix b e assume "bc_inv b"
  from Publish_numbers [OF this] show "\<exists>b'. map_option snd (Publish b e) = Some b' \<and> bc_inv b'" by fastforce
next
  fix b e b' sid assume "bc_inv b" "map_option snd (Publish b e) = Some b'"
  with Publish_numbers [of b e] show "nextSeq (ring_of b' sid) =
      (if sid = SandboxID e then nextSeq (ring_of b sid) + 1 else nextSeq (ring_of b sid))" by fastforce
qed

end
