(* ===== verification/Worker_Hub_Drop.thy ===== *)
theory Worker_Hub_Drop imports Worker_Hub_Ops Event_Sink begin

text \<open>
  The operations of \<open>workerhub.go\<close> as runs of the step relation: what \<open>deliver\<close> and \<open>drop\<close> do from
  their first line to their last, with nothing in between, is a path of \<open>sys_step\<close>, so every state
  they leave is one the invariants of \<open>Worker_Hub_Ops\<close> speak of.
\<close>

section \<open>One answer\<close>

lemma upd_conn_same: "f (conn_of h w) = conn_of h w \<Longrightarrow> upd_conn w f h = h"
  by (auto simp: upd_conn_def conn_of_def update_triv split: option.splits)

text \<open>A result nobody waits for changes nothing.\<close>

lemma deliver_take_None: "mget (pend h w) (ID f) = None \<Longrightarrow> deliver_take w f h = (None, h)"
  by (simp add: deliver_take_def upd_conn_same map_of_eq_None_iff)

lemma deliver_runs:
  assumes "sys_inv s" "live (hub s) w" "Type f = FrameResult" "mget (pend (hub s) w) (ID f) = Some c"
  shows "\<exists>h'. deliver w f (hub s) = Some h' \<and> sys_step\<^sup>*\<^sup>* s (s\<lparr>hub := h'\<rparr>) \<and> mget (chans h') c = Some [f] \<and>
    mget (pend h' w) (ID f) = None"
proof -
  let ?h1 = "unregister w (ID f) (hub s)" and ?s1 = "s\<lparr>hub := unregister w (ID f) (hub s), flight := flight s @ [(c, f)]\<rparr>"
  have t: "deliver_take w f (hub s) = (Some c, ?h1)" using assms(4) by (simp add: deliver_take_Some)
  have s1: "sys_step s ?s1" by (rule sys_step.take_waiter [OF assms(2,3) t])
  have inv: "sys_inv ?s1" by (rule sys_inv_step [OF s1 assms(1)])
  have "mget (chans ?h1) c = Some []" using chans_okD(8) [OF sys_invD(3) [OF inv], of c] by simp
  then have p: "put_chan c f ?h1 = Some (?h1\<lparr>chans := mset_key c [f] (chans ?h1)\<rparr>)" by (simp add: put_chan_def)
  have c: "c \<notin> fst ` set (flight s)" using chans_okD(2) [OF sys_invD(3) [OF assms(1)] assms(4)] .
  have "sys_step ?s1 (?s1\<lparr>hub := ?h1\<lparr>chans := mset_key c [f] (chans ?h1)\<rparr>, flight := filter (\<lambda>x. fst x \<noteq> c) (flight ?s1)\<rparr>)"
    by (rule sys_step.put) (use p in simp_all)
  moreover have "filter (\<lambda>x. fst x \<noteq> c) (flight ?s1) = flight s" using c by (force simp: filter_id_conv)
  ultimately have "sys_step\<^sup>*\<^sup>* s (s\<lparr>hub := ?h1\<lparr>chans := mset_key c [f] (chans ?h1)\<rparr>\<rparr>)"
    using s1 by (auto intro: rtranclp.rtrancl_into_rtrancl)
  moreover have "mget (pend (?h1\<lparr>chans := mset_key c [f] (chans ?h1)\<rparr>) w) (ID f) = None"
    using assms(2) by (simp add: unregister_def live_def)
  ultimately show ?thesis using t p by (simp add: deliver_def)
qed

section \<open>Losing a worker\<close>

lemma fail_waiters_runs:
  assumes "sys_inv s" "flight s = fl @ map (\<lambda>(i, c). (c, lost_frame r i)) ws"
  shows "\<exists>ch. fail_waiters r ws (hub s) = Some ((hub s)\<lparr>chans := ch\<rparr>) \<and> sys_step\<^sup>*\<^sup>* s (s\<lparr>hub := (hub s)\<lparr>chans := ch\<rparr>, flight := fl\<rparr>) \<and>
    (\<forall>(i, c) \<in> set ws. mget ch c = Some [lost_frame r i]) \<and> (\<forall>c. c \<notin> snd ` set ws \<longrightarrow> mget ch c = mget (chans (hub s)) c)"
  using assms
proof (induction ws arbitrary: s)
  case Nil
  then have "s\<lparr>flight := fl\<rparr> = s" by (cases s) simp
  then show ?case by (intro exI [of _ "chans (hub s)"]) simp
next
  case (Cons x ws)
  obtain i c where x: "x = (i, c)" by (cases x)
  let ?f = "lost_frame r i" and ?new = "map (\<lambda>(i, c). (c, lost_frame r i)) ws"
  let ?h1 = "(hub s)\<lparr>chans := mset_key c [?f] (chans (hub s))\<rparr>" and ?s1 = "s\<lparr>hub := (hub s)\<lparr>chans := mset_key c [lost_frame r i] (chans (hub s))\<rparr>, flight := fl @ ?new\<rparr>"
  have fl: "flight s = fl @ (c, ?f) # ?new" using Cons.prems(2) by (simp add: x)
  note ok = sys_invD(3) [OF Cons.prems(1)]
  have "distinct (map fst fl @ c # map fst ?new)" using chans_okD(7) [OF ok] by (simp only: fl map_append list.map fst_conv)
  then have dist: "c \<notin> fst ` set fl" "c \<notin> fst ` set ?new"
    unfolding distinct_append distinct.simps list.set set_map by blast+
  have "fst ` set ?new = snd ` set ws" by (simp add: image_image split_beta)
  with dist have notin: "c \<notin> snd ` set ws" by metis
  have "mget (chans (hub s)) c = Some []" using chans_okD(8) [OF ok, of c] by (simp add: fl)
  then have p: "put_chan c ?f (hub s) = Some ?h1" by (simp add: put_chan_def)
  have "filter (\<lambda>x. fst x \<noteq> c) fl = fl" "filter (\<lambda>x. fst x \<noteq> c) ?new = ?new"
    using dist by (force simp: filter_id_conv)+
  then have "filter (\<lambda>x. fst x \<noteq> c) (flight s) = fl @ ?new" by (simp add: fl)
  moreover have "(c, ?f) \<in> set (flight s)" by (simp add: fl)
  ultimately have st: "sys_step s ?s1" using sys_step.put [OF _ p] by metis
  from Cons.IH [OF sys_inv_step [OF st Cons.prems(1)]] obtain ch where ch:
    "fail_waiters r ws ?h1 = Some (?h1\<lparr>chans := ch\<rparr>)" "sys_step\<^sup>*\<^sup>* ?s1 (?s1\<lparr>hub := ?h1\<lparr>chans := ch\<rparr>, flight := fl\<rparr>)"
    "\<forall>(i, c) \<in> set ws. mget ch c = Some [lost_frame r i]" "\<forall>d. d \<notin> snd ` set ws \<longrightarrow> mget ch d = mget (chans ?h1) d" by auto
  have "fail_waiters r (x # ws) (hub s) = Some ((hub s)\<lparr>chans := ch\<rparr>)" using p ch(1) by (simp add: x lost_frame_def)
  moreover have "sys_step\<^sup>*\<^sup>* s (s\<lparr>hub := (hub s)\<lparr>chans := ch\<rparr>, flight := fl\<rparr>)"
    using converse_rtranclp_into_rtranclp [of sys_step, OF st] ch(2) by simp
  moreover have "mget ch c = Some [?f]" using ch(4) notin by simp
  ultimately show ?case using ch(3,4) by (intro exI [of _ ch]) (auto simp: x)
qed

lemma tell_watchers_runs:
  assumes "sys_inv s"
  shows "\<exists>b. tell_watchers now wid as (hub s) = Some ((hub s)\<lparr>bus := b\<rparr>) \<and> sys_step\<^sup>*\<^sup>* s (s\<lparr>hub := (hub s)\<lparr>bus := b\<rparr>\<rparr>)"
  using assms
proof (induction as arbitrary: s)
  case Nil
  then show ?case by (intro exI [of _ "bus (hub s)"]) simp
next
  case (Cons a as)
  obtain b where b: "publish_on (hub s) (orphan_event now a wid) = Some ((hub s)\<lparr>bus := b\<rparr>)"
    using publish_on_views [OF sys_invD(2) [OF Cons.prems]] by blast
  have st: "sys_step s (s\<lparr>hub := (hub s)\<lparr>bus := b\<rparr>\<rparr>)" by (rule sys_step.publish [OF b])
  from Cons.IH [OF sys_inv_step [OF st Cons.prems]] converse_rtranclp_into_rtranclp [of sys_step, OF st]
  show ?case by (auto simp: b)
qed

section \<open>Telling the watchers\<close>

text \<open>The hub is a sink of events.\<close>

interpretation hub_sink: numbered_sink "\<lambda>e h. publish_on h e" "\<lambda>h. bc_inv (bus h)" "\<lambda>h sid. nextSeq (ring_of (bus h) sid)"
proof
  fix h :: Hub and e assume "bc_inv (bus h)"
  from publish_on_views [OF this, of e] show "\<exists>h'. publish_on h e = Some h' \<and> bc_inv (bus h')" by auto
next
  fix h :: Hub and e h' sid assume "bc_inv (bus h)" "publish_on h e = Some h'"
  with Publish_numbers [of "bus h" e] show "nextSeq (ring_of (bus h') sid) =
      (if sid = SandboxID e then nextSeq (ring_of (bus h) sid) + 1 else nextSeq (ring_of (bus h) sid))"
    by (auto simp: publish_on_def)
qed

lemma tell_watchers_feed:
  "tell_watchers now wid as h = feed (\<lambda>e h. publish_on h e) (map (\<lambda>a. orphan_event now a wid) as) h"
  by (induction as arbitrary: h) (auto split: option.split)

lemma orphans_once:
  "mwf m \<Longrightarrow> length (filter (\<lambda>x. x = a) (map fst (filter (\<lambda>(a, v). v = w) m))) = (if mget m a = Some w then 1 else 0)"
proof (induction m)
  case (Cons p m)
  obtain b v where p: "p = (b, v)" by (cases p)
  have "mget m b = None" using Cons.prems by (simp add: p map_of_eq_None_iff)
  moreover from this have "filter (\<lambda>x. (case x of (a, v) \<Rightarrow> v = w) \<and> fst x = b) m = []"
    by (force simp: filter_empty_conv map_of_eq_None_iff)
  ultimately show ?case using Cons by (cases "a = b") (auto simp: p)
qed simp

lemma tell_watchers_numbers:
  assumes "bc_inv (bus h)" "tell_watchers now wid as h = Some h'"
  shows "nextSeq (ring_of (bus h') a) = nextSeq (ring_of (bus h) a) + of_nat (length (filter (\<lambda>x. x = a) as))"
  using hub_sink.feed_numbers [OF assms(1) assms(2) [unfolded tell_watchers_feed], of a]
  by (simp add: filter_map comp_def orphan_event_def)

text \<open>The whole of \<open>drop\<close>, uninterrupted: it returns, the worker is gone with its assignments, every call
  it owed an answer has the error in its channel, nothing is left on the way, and each agent it served
  has one event more.\<close>

lemma drop_worker_runs:
  assumes "sys_inv s" "live (hub s) w"
  shows "\<exists>s'. drop_worker (\<lambda>i h. h) now w reason (hub s) = Some (hub s') \<and> sys_step\<^sup>*\<^sup>* s s' \<and> flight s' = flight s \<and>
    waiting s' = waiting s \<and> \<not> live (hub s') w \<and> (\<forall>a. mget (assignments (hub s')) a \<noteq> Some w) \<and>
    (\<forall>i c. mget (pend (hub s) w) i = Some c \<longrightarrow> mget (chans (hub s')) c = Some [lost_frame reason i]) \<and>
    (\<forall>a. nextSeq (ring_of (bus (hub s')) a) =
       nextSeq (ring_of (bus (hub s)) a) + (if mget (assignments (hub s)) a = Some w then 1 else 0))"
proof -
  let ?h1 = "snd (drop_detach w (hub s))" and ?s1 = "s\<lparr>hub := snd (drop_detach w (hub s))\<rparr>"
  let ?h2 = "snd (drop_close w reason (snd (drop_detach w (hub s))))" and ?ws = "pend (hub s) w"
  let ?s2 = "?s1\<lparr>hub := ?h2, flight := flight s @ map (\<lambda>(i, c). (c, lost_frame reason i)) ?ws\<rparr>"
  have st1: "sys_step s ?s1" by (rule sys_step.detach [OF assms(2)])
  have gone: "\<not> live ?h1 w" by (simp add: live_def)
  have "known (hub ?s1) w" "\<not> live (hub ?s1) w" using assms(2) gone by (simp_all add: live_def)
  from sys_step.close [OF this, of reason] have st2: "sys_step ?s1 ?s2" by simp
  have inv2: "sys_inv ?s2" by (rule sys_inv_step [OF st2 sys_inv_step [OF st1 assms(1)]])
  obtain ch where ch: "fail_waiters reason ?ws ?h2 = Some (?h2\<lparr>chans := ch\<rparr>)"
    "sys_step\<^sup>*\<^sup>* ?s2 (?s2\<lparr>hub := ?h2\<lparr>chans := ch\<rparr>, flight := flight s\<rparr>)" "\<forall>(i, c) \<in> set ?ws. mget ch c = Some [lost_frame reason i]"
    using fail_waiters_runs [OF inv2, of "flight s" reason ?ws] by auto
  let ?s3 = "?s2\<lparr>hub := ?h2\<lparr>chans := ch\<rparr>, flight := flight s\<rparr>"
  have run3: "sys_step\<^sup>*\<^sup>* s ?s3"
    using converse_rtranclp_into_rtranclp [of sys_step, OF st1 converse_rtranclp_into_rtranclp [of sys_step, OF st2 ch(2)]] .
  have inv3: "sys_inv ?s3" using ch(2) inv2 by (induction rule: rtranclp_induct) (auto intro: sys_inv_step)
  obtain b where b: "tell_watchers now (w_id (conn_of (hub s) w)) (fst (drop_detach w (hub s))) (hub ?s3) = Some ((hub ?s3)\<lparr>bus := b\<rparr>)"
    "sys_step\<^sup>*\<^sup>* ?s3 (?s3\<lparr>hub := (hub ?s3)\<lparr>bus := b\<rparr>\<rparr>)"
    using tell_watchers_runs [OF inv3] by blast
  let ?s4 = "?s3\<lparr>hub := (hub ?s3)\<lparr>bus := b\<rparr>\<rparr>"
  have "drop_worker (\<lambda>i h. h) now w reason (hub s) = Some (hub ?s4)"
    using ch(1) b(1) by (simp add: drop_worker_def split_beta Let_def)
  moreover have "sys_step\<^sup>*\<^sup>* s ?s4" by (rule rtranclp_trans [OF run3 b(2)])
  moreover have "\<not> live (hub ?s4) w"
    by (simp add: live_def conn_of_def drop_close_def) (simp add: conn_of_def [symmetric])
  moreover have "mget (assignments (hub ?s4)) a \<noteq> Some w" for a
    by (auto simp: drop_close_def dest: mget_in_set)
  moreover have "nextSeq (ring_of (bus (hub ?s4)) a) =
      nextSeq (ring_of (bus (hub s)) a) + (if mget (assignments (hub s)) a = Some w then 1 else 0)" for a
    using tell_watchers_numbers [OF sys_invD(2) [OF inv3] b(1), of a]
      orphans_once [OF routes_okD(2) [OF sys_invD(1) [OF assms(1)]], of a w]
    by (simp add: drop_detach_def)
  moreover have "mget (chans (hub ?s4)) c = Some [lost_frame reason i]" if "mget ?ws i = Some c" for i c
    using ch(3) mget_in_set [OF that] by auto
  ultimately show ?thesis by (intro exI [of _ ?s4]) simp
qed

lemma reach_inv: "sys_step\<^sup>*\<^sup>* s s' \<Longrightarrow> sys_reach s \<Longrightarrow> sys_reach s'"
  by (induction rule: rtranclp_induct) (auto intro: sys_reach.more)

text \<open>C6: losing a worker. From any reachable state the drop of a connected worker returns, through steps
  of the system, to a state in which that worker serves nobody, no agent is assigned to it, and each
  call it still owed an answer holds exactly one, the error that says why the worker was lost. The
  watchers of each agent it served, and of no other, are told by one event.\<close>

theorem lost_worker_answers_its_calls:
  assumes "sys_reach s" "live (hub s) w"
  shows "\<exists>s'. drop_worker (\<lambda>i h. h) now w reason (hub s) = Some (hub s') \<and> sys_reach s' \<and> flight s' = flight s \<and>
    waiting s' = waiting s \<and> \<not> live (hub s') w \<and> (\<forall>a. mget (assignments (hub s')) a \<noteq> Some w) \<and>
    (\<forall>i c. mget (pend (hub s) w) i = Some c \<longrightarrow> mget (chans (hub s')) c = Some [lost_frame reason i]) \<and>
    (\<forall>a. nextSeq (ring_of (bus (hub s')) a) =
       nextSeq (ring_of (bus (hub s)) a) + (if mget (assignments (hub s)) a = Some w then 1 else 0))"
  using drop_worker_runs [OF sys_reach_inv [OF assms(1)] assms(2), of now reason] reach_inv [OF _ assms(1)] by metis

lemma lost_worker_answers_its_calls_witness:
  "\<exists>(s::sys) (s'::sys). waiting s = [(0, 1, 0)] \<and> drop_worker (\<lambda>i h. h) 5 0 (Plain ''gone'') (hub s) = Some (hub s') \<and>
    mget (chans (hub s')) 0 = Some [lost_frame (Plain ''gone'') 1]"
proof -
  obtain s where s: "sys_reach s" "live (hub s) 0" "nextID (conn_of (hub s) 0) = 0" "next_chan (hub s) = 0" "waiting s = []"
    using sample_state by blast
  have op: "\<not> w_closed (conn_of (hub s) 0)" "known (hub s) 0"
    using s(2) routes_okD(5) [OF sys_invD(1) [OF sys_reach_inv [OF s(1)]]] by (auto simp: live_def)
  then obtain h' where r: "register 0 (hub s) = (Inr (1, 0), h')"
    using s(3,4) by (simp add: register_def Let_def)
  let ?s = "s\<lparr>hub := h', waiting := [(0, 1, 0)]\<rparr>"
  have reach: "sys_reach ?s" using sys_reach.more [OF s(1) sys_step.enter [OF op(2) r]] s(5) by simp
  have l: "live (hub ?s) 0" "mget (pend (hub ?s) 0) 1 = Some 0"
    using s(2) r op register_ok [OF r op(2)] by (auto simp: live_def)
  show ?thesis
    using lost_worker_answers_its_calls [OF reach l(1), of 5 "Plain ''gone''"]
  proof (elim exE conjE)
    fix s' :: sys assume d: "drop_worker (\<lambda>i h. h) 5 0 (Plain ''gone'') (hub ?s) = Some (hub s')"
      and q: "\<forall>i c. mget (pend (hub ?s) 0) i = Some c \<longrightarrow> mget (chans (hub s')) c = Some [lost_frame (Plain ''gone'') i]"
    have "mget (chans (hub s')) 0 = Some [lost_frame (Plain ''gone'') 1]" by (rule q [rule_format, OF l(2)])
    with d show ?thesis by - (rule exI [where x = ?s], rule exI [where x = s'], simp)
  qed
qed

end
