(* ===== verification/Go_Path.thy ===== *)
theory Go_Path imports Prelude begin

text \<open>
  Package \<open>path/filepath\<close> on Unix, as far as the sandbox uses it: \<open>Clean\<close>, \<open>IsAbs\<close>, \<open>Join\<close>,
  \<open>Rel\<close>, \<open>Dir\<close>, \<open>Base\<close> and \<open>SplitList\<close>. A path is taken apart into whether it is rooted and its
  components; the lexical operations work on those.
\<close>

definition slash :: char where "slash = CHR ''/''"

definition dotdot :: string where "dotdot = ''..''"

definition IsAbs :: "string \<Rightarrow> bool" where
  "IsAbs p \<longleftrightarrow> (case p of [] \<Rightarrow> False | c # cs \<Rightarrow> c = slash)"

text \<open>The components, with empty ones and dots dropped and \<open>..\<close> resolved where it can be; the
  accumulator holds the components so far, last one first.\<close>

fun resolve_dots :: "bool \<Rightarrow> string list \<Rightarrow> string list \<Rightarrow> string list" where
  "resolve_dots rooted acc [] = rev acc"
| "resolve_dots rooted acc (c # cs) =
     (if c = [] \<or> c = ''.'' then resolve_dots rooted acc cs
      else if c = dotdot
      then (case acc of
              a # as \<Rightarrow> if a \<noteq> dotdot then resolve_dots rooted as cs else resolve_dots rooted (c # acc) cs
            | [] \<Rightarrow> if rooted then resolve_dots rooted [] cs else resolve_dots rooted [c] cs)
      else resolve_dots rooted (c # acc) cs)"

definition comps :: "string \<Rightarrow> string list" where
  "comps p = resolve_dots (IsAbs p) [] (split_on slash p)"

definition render :: "bool \<Rightarrow> string list \<Rightarrow> string" where
  "render rooted cs =
     (if rooted then slash # join_with [slash] cs else if cs = [] then ''.'' else join_with [slash] cs)"

definition Clean :: "string \<Rightarrow> string" where
  "Clean p = render (IsAbs p) (comps p)"

fun Join :: "string list \<Rightarrow> string" where
  "Join [] = []"
| "Join (e # es) = (if e = [] then Join es else Clean (join_with [slash] (e # es)))"

fun common_prefix :: "string list \<Rightarrow> string list \<Rightarrow> nat" where
  "common_prefix (a # as) (b # bs) = (if a = b then Suc (common_prefix as bs) else 0)"
| "common_prefix as bs = 0"

definition Rel :: "string \<Rightarrow> string \<Rightarrow> string res" where
  "Rel base targ =
     (if Clean base = Clean targ then Inr ''.''
      else if IsAbs base \<noteq> IsAbs targ
      then Inl (Plain (''Rel: can't make '' @ targ @ '' relative to '' @ base))
      else
        (let n = common_prefix (comps base) (comps targ);
             rb = drop n (comps base); rt = drop n (comps targ)
         in if rb \<noteq> [] \<and> hd rb = dotdot
            then Inl (Plain (''Rel: can't make '' @ targ @ '' relative to '' @ base))
            else Inr (join_with [slash] (replicate (length rb) dotdot @ rt))))"

text \<open>\<open>Dir\<close> cleans everything up to the last slash; \<open>Base\<close> is the last element.\<close>

definition up_to_slash :: "string \<Rightarrow> string" where
  "up_to_slash p = rev (dropWhile (\<lambda>c. c \<noteq> slash) (rev p))"

definition Dir :: "string \<Rightarrow> string" where
  "Dir p = Clean (up_to_slash p)"

definition Base :: "string \<Rightarrow> string" where
  "Base p =
     (if p = [] then ''.''
      else (let q = rev (dropWhile (\<lambda>c. c = slash) (rev p));
                b = rev (takeWhile (\<lambda>c. c \<noteq> slash) (rev q))
            in if b = [] then [slash] else b))"

definition SplitList :: "string \<Rightarrow> string list" where
  "SplitList p = (if p = [] then [] else split_on (CHR '':'') p)"

section \<open>Splitting and joining\<close>

definition plain_comp :: "string \<Rightarrow> bool" where
  "plain_comp c \<longleftrightarrow> c \<noteq> [] \<and> c \<noteq> ''.'' \<and> c \<noteq> dotdot \<and> slash \<notin> set c"

lemma split_on_nonempty [simp]: "split_on c s \<noteq> []"
  by (induction s) (auto split: list.splits)

lemma split_on_notin: "c \<notin> set s \<Longrightarrow> split_on c s = [s]"
  by (induction s) auto

lemma split_on_append: "c \<notin> set s \<Longrightarrow> split_on c (s @ c # t) = s # split_on c t"
  by (induction s) (auto split: list.splits)

lemma split_on_sep: "w \<in> set (split_on c s) \<Longrightarrow> c \<notin> set w"
  by (induction s arbitrary: w) (auto split: list.splits if_splits)

lemma split_on_join:
  assumes "cs \<noteq> []" "\<And>c. c \<in> set cs \<Longrightarrow> sep \<notin> set c"
  shows "split_on sep (join_with [sep] cs) = cs"
  using assms
  by (induction cs rule: induct_list012) (simp_all add: split_on_notin split_on_append)

lemma split_on_append_join: "split_on c (s @ c # t) = split_on c s @ split_on c t"
  by (induction s) (auto split: list.splits)

section \<open>Resolving\<close>

lemma resolve_plain:
  "\<forall>c\<in>set cs. plain_comp c \<Longrightarrow> resolve_dots r acc cs = rev acc @ cs"
  by (induction cs arbitrary: acc) (auto simp: plain_comp_def)

definition ups_then_plain :: "bool \<Rightarrow> string list \<Rightarrow> bool" where
  "ups_then_plain rooted cs \<longleftrightarrow>
     (\<exists>n ps. cs = replicate n dotdot @ ps \<and> (\<forall>c\<in>set ps. plain_comp c) \<and> (rooted \<longrightarrow> n = 0))"

lemma ups_snoc: "ups_then_plain r cs \<Longrightarrow> plain_comp c \<Longrightarrow> ups_then_plain r (cs @ [c])"
  unfolding ups_then_plain_def by (elim exE conjE, rename_tac n ps, rule_tac x = n in exI, rule_tac x = "ps @ [c]" in exI) auto

lemma ups_butlast:
  assumes "ups_then_plain r (cs @ [c])" "c \<noteq> dotdot" shows "ups_then_plain r cs"
proof -
  obtain n ps where n: "cs @ [c] = replicate n dotdot @ ps" "\<forall>c\<in>set ps. plain_comp c" "r \<longrightarrow> n = 0"
    using assms(1) by (auto simp: ups_then_plain_def)
  show ?thesis
  proof (cases ps rule: rev_cases)
    case Nil
    with n(1) have "c \<in> set (replicate n dotdot)" by (metis append_Nil2 in_set_conv_decomp)
    with assms(2) show ?thesis by simp
  next
    case (snoc ps' p)
    with n(1) have "cs = replicate n dotdot @ ps'" by simp
    with n(2,3) snoc show ?thesis by (auto simp: ups_then_plain_def)
  qed
qed

lemma ups_dotdots:
  assumes "ups_then_plain False (cs @ [dotdot])" shows "ups_then_plain False (cs @ [dotdot, dotdot])"
proof -
  obtain n ps where n: "cs @ [dotdot] = replicate n dotdot @ ps" "\<forall>c\<in>set ps. plain_comp c"
    using assms by (auto simp: ups_then_plain_def)
  have "ps = []" using n by (cases ps rule: rev_cases) (auto simp: plain_comp_def)
  with n have "cs @ [dotdot, dotdot] = replicate (Suc n) dotdot"
    by (metis append.assoc append_Cons append_Nil append_self_conv replicate_append_same replicate_Suc)
  then show ?thesis by (auto simp: ups_then_plain_def intro!: exI [of _ "Suc n"])
qed

lemma resolve_dots_shape:
  assumes "ups_then_plain r (rev acc)" "\<forall>c\<in>set cs. slash \<notin> set c"
  shows "ups_then_plain r (resolve_dots r acc cs)"
  using assms
proof (induction r acc cs rule: resolve_dots.induct)
  case (2 rooted acc c cs)
  note ih = "2.IH" and up = "2.prems"(1) and sl = "2.prems"(2)
  consider "c = [] \<or> c = ''.''" | "c = dotdot" "c \<noteq> []" "c \<noteq> ''.''" | "plain_comp c" "c \<noteq> []" "c \<noteq> ''.''" "c \<noteq> dotdot"
    using sl by (auto simp: plain_comp_def)
  then show ?case
  proof cases
    case 1
    with 2 show ?thesis by simp
  next
    case 2
    show ?thesis
    proof (cases acc)
      case Nil
      have "ups_then_plain False [c]" using 2(1) by (auto simp: ups_then_plain_def intro!: exI [of _ 1])
      moreover have "ups_then_plain True []" by (simp add: ups_then_plain_def)
      ultimately show ?thesis using Nil 2 ih(2,3) sl by (cases rooted) simp_all
    next
      case (Cons a as)
      show ?thesis
      proof (cases "a = dotdot")
        case False
        with Cons up ups_butlast [of rooted "rev as" a] have "ups_then_plain rooted (rev as)" by simp
        with Cons False 2 ih(4) sl show ?thesis by simp
      next
        case True
        have "\<not> rooted"
        proof
          assume rooted
          with up have "\<forall>c\<in>set (rev acc). plain_comp c" by (auto simp: ups_then_plain_def)
          with Cons True show False by (simp add: plain_comp_def)
        qed
        with up Cons True 2 ups_dotdots [of "rev as"] have "ups_then_plain rooted (rev (c # acc))" by simp
        with Cons True 2 ih(5) sl show ?thesis by simp
      qed
    qed
  next
    case 3
    with up ups_snoc have "ups_then_plain rooted (rev (c # acc))" by simp
    with 3 ih(6) sl show ?thesis by simp
  qed
qed simp

lemma comps_shape: "ups_then_plain (IsAbs p) (comps p)"
  unfolding comps_def
  by (rule resolve_dots_shape) (auto simp: ups_then_plain_def dest: split_on_sep)

lemma abs_plain: "IsAbs p \<Longrightarrow> c \<in> set (comps p) \<Longrightarrow> plain_comp c"
  using comps_shape [of p] by (auto simp: ups_then_plain_def)

section \<open>Rendering and reading back\<close>

lemma ups_no_slash: "ups_then_plain r cs \<Longrightarrow> c \<in> set cs \<Longrightarrow> slash \<notin> set c \<and> c \<noteq> [] \<and> c \<noteq> ''.''"
proof -
  assume u: "ups_then_plain r cs" and c: "c \<in> set cs"
  then obtain n ps where "cs = replicate n dotdot @ ps" "\<forall>c\<in>set ps. plain_comp c" by (auto simp: ups_then_plain_def)
  with c have "c = dotdot \<or> plain_comp c" by auto
  then show ?thesis by (auto simp: plain_comp_def dotdot_def slash_def)
qed

lemma join_nonempty: "cs \<noteq> [] \<Longrightarrow> hd cs \<noteq> [] \<Longrightarrow> join_with [slash] cs \<noteq> [] \<and> hd (join_with [slash] cs) = hd (hd cs)"
  by (cases cs; cases "tl cs") (auto simp: hd_append)

lemma IsAbs_render:
  assumes "ups_then_plain r cs" shows "IsAbs (render r cs) \<longleftrightarrow> r"
proof (cases "r \<or> cs = []")
  case True
  then show ?thesis by (auto simp: render_def IsAbs_def slash_def)
next
  case False
  then have h: "hd cs \<in> set cs" by simp
  have "hd cs \<noteq> []" "slash \<notin> set (hd cs)" using ups_no_slash [OF assms h] by auto
  then have "hd (hd cs) \<noteq> slash" by (metis hd_in_set)
  with False join_nonempty [of cs] \<open>hd cs \<noteq> []\<close> show ?thesis
    by (auto simp: render_def IsAbs_def split: list.splits)
qed

lemma resolve_ups: "resolve_dots False (replicate m dotdot) (replicate n dotdot @ ps) = resolve_dots False (replicate (m + n) dotdot) ps"
proof (induction n arbitrary: m)
  case (Suc n)
  have "resolve_dots False (replicate m dotdot) (replicate (Suc n) dotdot @ ps) =
      resolve_dots False (replicate (Suc m) dotdot) (replicate n dotdot @ ps)"
    by (cases m) (simp_all add: dotdot_def)
  with Suc [of "Suc m"] show ?case by simp
qed simp

lemma resolve_shape:
  assumes "ups_then_plain r cs" shows "resolve_dots r [] cs = cs"
proof -
  obtain n ps where n: "cs = replicate n dotdot @ ps" "\<forall>c\<in>set ps. plain_comp c" "r \<longrightarrow> n = 0"
    using assms by (auto simp: ups_then_plain_def)
  show ?thesis
  proof (cases r)
    case True
    with n show ?thesis by (simp add: resolve_plain)
  next
    case False
    with n resolve_ups [of 0 n ps] show ?thesis by (simp add: resolve_plain)
  qed
qed

lemma comps_render:
  assumes "ups_then_plain r cs" shows "comps (render r cs) = cs"
proof -
  have s: "split_on slash (join_with [slash] cs) = cs" if "cs \<noteq> []"
    using split_on_join [OF that, of slash] ups_no_slash [OF assms] by blast
  have "resolve_dots r [] (split_on slash (render r cs)) = cs"
  proof (cases "cs = []")
    case True
    then show ?thesis by (simp add: render_def slash_def)
  next
    case False
    with s resolve_shape [OF assms] show ?thesis by (cases r) (simp_all add: render_def)
  qed
  then show ?thesis by (simp add: comps_def IsAbs_render [OF assms])
qed

lemma render_nonempty [simp]: "ups_then_plain r cs \<Longrightarrow> render r cs \<noteq> []"
  using join_nonempty [of cs] ups_no_slash [of r cs "hd cs"] by (auto simp: render_def)

lemma Clean_nonempty [simp]: "Clean p \<noteq> []"
  by (simp add: Clean_def comps_shape)

lemma comps_Clean [simp]: "comps (Clean p) = comps p" and IsAbs_Clean [simp]: "IsAbs (Clean p) = IsAbs p"
  by (simp_all add: Clean_def comps_render comps_shape IsAbs_render)

lemma Clean_Clean [simp]: "Clean (Clean p) = Clean p"
  by (simp add: Clean_def [of "Clean p"]) (simp add: Clean_def)

section \<open>A name below a root\<close>

text \<open>\<open>inside n\<close>: a clean relative name whose components never leave the directory it is taken from.\<close>

definition inside :: "string \<Rightarrow> bool" where
  "inside n \<longleftrightarrow> \<not> IsAbs n \<and> Clean n = n \<and> list_all plain_comp (comps n)"

lemma inside_split:
  assumes "inside n" shows "split_on slash n = (if comps n = [] then [''.''] else comps n)"
proof -
  have "Clean n = n" "\<not> IsAbs n" using assms by (simp_all add: inside_def)
  then have n: "n = render False (comps n)" unfolding Clean_def by simp
  have "split_on slash (join_with [slash] (comps n)) = comps n" if "comps n \<noteq> []"
    using that assms by (intro split_on_join) (auto simp: inside_def list_all_iff plain_comp_def)
  moreover have "split_on slash ''.'' = [''.'']" by (simp add: slash_def)
  ultimately show ?thesis using n by (cases "comps n = []") (simp_all add: render_def)
qed

lemma resolve_append:
  "resolve_dots r acc (xs @ ys) = resolve_dots r (rev (resolve_dots r acc xs)) ys"
  by (induction r acc xs rule: resolve_dots.induct) (auto split: list.splits)

lemma inside_nonempty: "inside n \<Longrightarrow> n \<noteq> []"
  using Clean_nonempty [of n] by (auto simp: inside_def)

lemma Join_two: "root \<noteq> [] \<Longrightarrow> Join [root, n] = Clean (root @ slash # n)"
  by simp

lemma comps_below:
  assumes "IsAbs root" "inside n"
  shows "comps (root @ slash # n) = comps root @ comps n"
proof -
  have abs: "IsAbs (root @ slash # n)" using assms(1) by (auto simp: IsAbs_def split: list.splits)
  have "comps (root @ slash # n) = resolve_dots True (rev (comps root)) (split_on slash n)"
    using assms(1) by (simp add: comps_def abs split_on_append_join resolve_append)
  also have "\<dots> = comps root @ comps n"
    using assms(2) by (simp add: inside_split resolve_plain inside_def list_all_iff)
  finally show ?thesis .
qed

lemma Join_below:
  assumes "IsAbs root" "inside n"
  shows "comps (Join [root, n]) = comps root @ comps n" "IsAbs (Join [root, n])" "Clean (Join [root, n]) = Join [root, n]"
proof -
  have "root \<noteq> []" using assms(1) by (auto simp: IsAbs_def)
  then have j: "Join [root, n] = Clean (root @ slash # n)" by (rule Join_two)
  have a: "IsAbs (root @ slash # n)" using assms(1) by (auto simp: IsAbs_def split: list.splits)
  show "comps (Join [root, n]) = comps root @ comps n" unfolding j comps_Clean by (rule comps_below [OF assms])
  show "IsAbs (Join [root, n])" unfolding j IsAbs_Clean by (rule a)
  show "Clean (Join [root, n]) = Join [root, n]" unfolding j by (rule Clean_Clean)
qed

section \<open>Relative paths\<close>

lemma common_prefix_split: "take (common_prefix as bs) as = take (common_prefix as bs) bs"
  by (induction as bs rule: common_prefix.induct) auto

lemma Clean_eq_iff: "Clean p = Clean q \<longleftrightarrow> IsAbs p = IsAbs q \<and> comps p = comps q"
proof
  assume "Clean p = Clean q"
  then have "IsAbs (Clean p) = IsAbs (Clean q)" "comps (Clean p) = comps (Clean q)" by simp_all
  then show "IsAbs p = IsAbs q \<and> comps p = comps q" by simp
qed (simp add: Clean_def)

text \<open>Between absolute paths \<open>Rel\<close> succeeds; unless it starts with \<open>..\<close> the target is below the base.\<close>

lemma Rel_abs:
  assumes "IsAbs base" "IsAbs targ" "Rel base targ = Inr r" "\<not> (r = dotdot \<or> HasPrefix r (dotdot @ [slash]))"
  shows "inside r \<and> comps targ = comps base @ comps r"
proof (cases "Clean base = Clean targ")
  case True
  have "inside ''.''" by (simp add: inside_def IsAbs_def slash_def Clean_def comps_def render_def)
  moreover have "comps ''.'' = []" by (simp add: comps_def slash_def IsAbs_def)
  ultimately show ?thesis using True assms(3) by (simp add: Rel_def Clean_eq_iff)
next
  case False
  let ?n = "common_prefix (comps base) (comps targ)"
  let ?rb = "drop ?n (comps base)" and ?rt = "drop ?n (comps targ)"
  have plain: "\<forall>c\<in>set (comps base). plain_comp c" "\<forall>c\<in>set (comps targ). plain_comp c"
    using abs_plain assms(1,2) by blast+
  have r: "r = join_with [slash] (replicate (length ?rb) dotdot @ ?rt)"
    using False assms(1-3) by (auto simp: Rel_def Let_def split: if_splits)
  have "?rb = []"
  proof (rule ccontr)
    assume "?rb \<noteq> []"
    then obtain k where "length ?rb = Suc k" by (cases ?rb) auto
    then have "r = dotdot \<or> HasPrefix r (dotdot @ [slash])"
      unfolding r by (cases "replicate k dotdot @ ?rt") (auto simp: HasPrefix_def)
    with assms(4) show False ..
  qed
  then have base: "comps base = take ?n (comps targ)"
    using common_prefix_split [of "comps base" "comps targ"] append_take_drop_id [of ?n "comps base"] by simp
  have "?rt \<noteq> []"
  proof
    assume "?rt = []"
    then have "take ?n (comps targ) = comps targ" by simp
    with base have "comps base = comps targ" by (rule trans)
    with False assms(1,2) show False by (simp add: Clean_eq_iff)
  qed
  have up: "ups_then_plain False ?rt"
    unfolding ups_then_plain_def using plain(2) by (intro exI [of _ 0] exI [of _ ?rt]) (auto dest: in_set_dropD)
  have rr: "r = render False ?rt" using r \<open>?rb = []\<close> \<open>?rt \<noteq> []\<close> by (simp add: render_def)
  have c: "comps r = ?rt" "\<not> IsAbs r" using up by (simp_all add: rr comps_render IsAbs_render)
  moreover have "Clean r = r" using c by (simp add: Clean_def rr [symmetric])
  moreover have "list_all plain_comp ?rt" using plain(2) by (auto simp: list_all_iff dest: in_set_dropD)
  moreover have "comps targ = comps base @ ?rt"
    by (rule trans [OF append_take_drop_id [symmetric, of "comps targ" ?n]]) (simp only: base [symmetric])
  ultimately show ?thesis unfolding inside_def by metis
qed

lemma Clean_rel_inside:
  assumes "\<not> IsAbs p" "\<not> (Clean p = dotdot \<or> HasPrefix (Clean p) (dotdot @ [slash]))"
  shows "inside (Clean p)"
proof -
  obtain n ps where n: "comps p = replicate n dotdot @ ps" "\<forall>c\<in>set ps. plain_comp c"
    using comps_shape [of p] by (auto simp: ups_then_plain_def)
  have "n = 0"
  proof (rule ccontr)
    assume "n \<noteq> 0"
    then obtain k where "n = Suc k" by (cases n) auto
    with n(1) have "Clean p = join_with [slash] (dotdot # replicate k dotdot @ ps)" using assms(1) by (simp add: Clean_def render_def)
    then have "Clean p = dotdot \<or> HasPrefix (Clean p) (dotdot @ [slash])"
      by (cases "replicate k dotdot @ ps") (auto simp: HasPrefix_def)
    with assms(2) show False ..
  qed
  with n assms(1) show ?thesis by (auto simp: inside_def list_all_iff)
qed

end
