(* ===== verification/Sandbox_Env.thy ===== *)
theory Sandbox_Env imports Sandbox_Config Go_Path begin

text \<open>
  Package \<open>internal/sandbox\<close>, files \<open>env.go\<close> and \<open>lookpath.go\<close>: the environment a command is
  given, the program its name stands for, and the line a watcher is shown. The server's own
  environment (\<open>os.LookupEnv\<close>) and the file system (\<open>os.Stat\<close>) are arguments.
\<close>

section \<open>env.go\<close>

definition FallbackPATH :: string where
  "FallbackPATH = ''/usr/local/bin:/usr/bin:/bin:/usr/local/sbin:/usr/sbin:/sbin''"

definition deniedEnvNames :: "string list" where
  "deniedEnvNames = [''DB_DSN'', ''OIDC_CLIENT_SECRET'', ''SESSION_ENCRYPTION_KEY'']"

definition managedEnvNames :: "string list" where
  "managedEnvNames = [''HOME'', ''PWD'', ''VIRTUAL_ENV'']"

text \<open>\<open>%q\<close> of a name; the text is only ever shown, and quoting is its only effect modelled.\<close>

definition quoted :: "string \<Rightarrow> string" where
  "quoted s = CHR 0x22 # s @ [CHR 0x22]"

fun ValidateEnvPassthrough :: "string list \<Rightarrow> gerr option" where
  "ValidateEnvPassthrough [] = None"
| "ValidateEnvPassthrough (n # ns) =
     (let name = TrimSpace n in
      if name = [] then ValidateEnvPassthrough ns
      else if name \<in> set deniedEnvNames
      then Some (Plain (''environment variable '' @ quoted name
        @ '' holds this service's own credentials and cannot be passed to sandboxed commands''))
      else if name \<in> set managedEnvNames
      then Some (Plain (''environment variable '' @ quoted name @ '' is set by the sandbox itself and cannot be passed through''))
      else if CHR ''='' \<in> set name
      then Some (Plain (''environment passthrough takes variable names, not assignments: '' @ quoted name))
      else ValidateEnvPassthrough ns)"

text \<open>\<open>strings.ToUpper\<close> as far as an ASCII marker can be found in its result: besides the ASCII
  letters only dotless i and long s have an ASCII upper case.\<close>

definition up_byte :: "char \<Rightarrow> char" where
  "up_byte c = (let n = of_char c :: nat in if 97 \<le> n \<and> n \<le> 122 then char_of (n - 32) else c)"

fun upper :: "string \<Rightarrow> string" where
  "upper (c # d # s) =
     (if c = CHR 0xC4 \<and> d = CHR 0xB1 then CHR ''I'' # upper s
      else if c = CHR 0xC5 \<and> d = CHR 0xBF then CHR ''S'' # upper s
      else up_byte c # upper (d # s))"
| "upper [c] = [up_byte c]"
| "upper [] = []"

definition secret_markers :: "string list" where
  "secret_markers = [''SECRET'', ''TOKEN'', ''PASSWORD'', ''PASSWD'', ''CREDENTIAL'', ''PRIVATE_KEY'']"

definition SuspiciousEnvNames :: "string list \<Rightarrow> string list" where
  "SuspiciousEnvNames names = filter (\<lambda>n. list_ex (contains_str (upper n)) secret_markers) names"

text \<open>One turn of the loop over \<open>cfg.EnvPassthrough\<close>.\<close>

definition inherit :: "(string \<Rightarrow> string option) \<Rightarrow> string \<Rightarrow> string \<Rightarrow> string list" where
  "inherit look venvBin n =
     (let name = TrimSpace n in
      if name = [] \<or> name \<in> set deniedEnvNames \<or> name \<in> set managedEnvNames then []
      else if name = ''PATH''
      then (let value = (case look name of Some v \<Rightarrow> v | None \<Rightarrow> FallbackPATH);
                value' = (if venvBin \<noteq> [] then venvBin @ CHR '':'' # value else value)
            in [''PATH='' @ value'])
      else (case look name of None \<Rightarrow> [] | Some v \<Rightarrow> [name @ ''='' @ v]))"

definition passthrough :: "Config \<Rightarrow> string list" where
  "passthrough cfg = (case EnvPassthrough cfg of None \<Rightarrow> [] | Some ns \<Rightarrow> ns)"

definition buildEnv :: "(string \<Rightarrow> string option) \<Rightarrow> Config \<Rightarrow> string \<Rightarrow> string \<Rightarrow> string list" where
  "buildEnv look cfg workDir venvBin =
     concat (map (inherit look venvBin) (passthrough cfg)) @ ExtraEnv cfg
     @ [''HOME='' @ RootDir cfg, ''PWD='' @ workDir]
     @ (if venvBin \<noteq> [] then [''VIRTUAL_ENV='' @ Dir venvBin] else [])"

fun envNames :: "string list \<Rightarrow> string list" where
  "envNames [] = []"
| "envNames (e # es) =
     (case cut_at (CHR ''='') e of Some (name, v) \<Rightarrow> name # envNames es | None \<Rightarrow> envNames es)"

section \<open>lookpath.go\<close>

text \<open>What \<open>os.Stat\<close> says of a file: is it a directory, and its permission bits.\<close>

type_synonym stat_fun = "string \<Rightarrow> (bool \<times> nat) res"

definition executable :: "stat_fun \<Rightarrow> string \<Rightarrow> gerr option" where
  "executable stat name =
     (case stat name of
        Inl e \<Rightarrow> Some e
      | Inr (isdir, perm) \<Rightarrow>
          if isdir then Some (Plain ''is a directory'')
          else if and perm 73 = 0 then Some (Sentinel ''permission denied'')
          else None)"

fun env_value_from :: "string \<Rightarrow> string \<Rightarrow> string list \<Rightarrow> string" where
  "env_value_from name value [] = value"
| "env_value_from name value (e # es) =
     (let (suffix, ok) = CutPrefix e (name @ ''='')
      in env_value_from name (if ok then suffix else value) es)"

definition envValue :: "string list \<Rightarrow> string \<Rightarrow> string" where
  "envValue env name = env_value_from name [] env"

fun search_path :: "stat_fun \<Rightarrow> string \<Rightarrow> string list \<Rightarrow> string option" where
  "search_path stat program [] = None"
| "search_path stat program (dir # dirs) =
     (if dir = [] then search_path stat program dirs
      else if executable stat (Join [dir, program]) = None then Some (Join [dir, program])
      else search_path stat program dirs)"

definition lookProgram :: "stat_fun \<Rightarrow> string \<Rightarrow> string list \<Rightarrow> string res" where
  "lookProgram stat program env =
     (if TrimSpace program = [] then Inl ErrEmptyProgram
      else if slash \<in> set program then Inr program
      else
        (let pathEnv = envValue env ''PATH'' in
         if pathEnv = [] then Inl (Plain (''cannot resolve '' @ quoted program @ '': no PATH in the command environment''))
         else case search_path stat program (SplitList pathEnv) of
                Some r \<Rightarrow> Inr r
              | None \<Rightarrow> Inl (Plain (quoted program @ '' not found in PATH ('' @ pathEnv @ '')''))))"

definition special_chars :: "char list" where
  "special_chars = [CHR '' '', CHR 0x09, CHR 0x0A, CHR 0x22, CHR 0x27, CHR 0x5C]"

fun escape_arg :: "string \<Rightarrow> string" where
  "escape_arg [] = []"
| "escape_arg (c # cs) =
     (if c = CHR 0x5C then CHR 0x5C # CHR 0x5C # escape_arg cs
      else if c = CHR 0x22 then CHR 0x5C # CHR 0x22 # escape_arg cs
      else c # escape_arg cs)"

definition quoteArg :: "string \<Rightarrow> string" where
  "quoteArg arg =
     (if arg = [] then [CHR 0x22, CHR 0x22]
      else if \<not> list_ex (\<lambda>c. c \<in> set special_chars) arg then arg
      else CHR 0x22 # escape_arg arg @ [CHR 0x22])"

definition commandLine :: "string \<Rightarrow> string list \<Rightarrow> string" where
  "commandLine program args = join_with '' '' (quoteArg program # map quoteArg args)"

section \<open>Looking a variable up in what was built\<close>

lemma env_value_append: "env_value_from name v (xs @ ys) = env_value_from name (env_value_from name v xs) ys"
  by (induction xs arbitrary: v) (auto simp: Let_def split_beta)

lemma env_value_none: "(\<And>e. e \<in> set xs \<Longrightarrow> \<not> HasPrefix e (name @ ''='')) \<Longrightarrow> env_value_from name v xs = v"
  by (induction xs) (auto simp: CutPrefix_def)

lemma env_value_last: "env_value_from name v (xs @ [name @ ''='' @ w]) = w"
proof -
  have "CutPrefix (name @ ''='' @ w) (name @ ''='') = (w, True)"
    using CutPrefix_append [of "name @ ''=''" w] by simp
  then show ?thesis by (simp add: env_value_append)
qed

lemma HasPrefix_name:
  "CHR ''='' \<notin> set n \<Longrightarrow> CHR ''='' \<notin> set m \<Longrightarrow> HasPrefix (n @ ''='' @ v) (m @ ''='') \<longleftrightarrow> n = m"
proof
  assume e: "CHR ''='' \<notin> set n" "CHR ''='' \<notin> set m" and "HasPrefix (n @ ''='' @ v) (m @ ''='')"
  then obtain r where "n @ CHR ''='' # v = m @ CHR ''='' # r" by (auto simp: HasPrefix_iff)
  then have "takeWhile (\<lambda>c. c \<noteq> CHR ''='') (n @ CHR ''='' # v) = takeWhile (\<lambda>c. c \<noteq> CHR ''='') (m @ CHR ''='' # r)" by simp
  moreover have "takeWhile (\<lambda>c. c \<noteq> CHR ''='') (xs @ CHR ''='' # ys) = xs" if "CHR ''='' \<notin> set xs" for xs ys
    using that by (subst takeWhile_append2) auto
  ultimately show "n = m" using e by simp
qed (auto simp: HasPrefix_iff)

lemma env_value_set:
  assumes "CHR ''='' \<notin> set n" "CHR ''='' \<notin> set m"
  shows "env_value_from m v [n @ ''='' @ w] = (if n = m then w else v)"
  using HasPrefix_name [OF assms, of w] CutPrefix_append [of "m @ ''=''" w] by (auto simp: CutPrefix_def)

text \<open>Everything a command inherits carries a name that is neither denied nor managed.\<close>

lemma ValidateD:
  assumes "ValidateEnvPassthrough ns = None" "n \<in> set ns" "TrimSpace n \<noteq> []"
  shows "TrimSpace n \<notin> set deniedEnvNames" "TrimSpace n \<notin> set managedEnvNames" "CHR ''='' \<notin> set (TrimSpace n)"
  using assms by (induction ns) (auto simp: Let_def split: if_splits)

lemma inherit_entry:
  assumes "e \<in> set (inherit look venvBin n)"
  obtains v where "e = TrimSpace n @ ''='' @ v" "TrimSpace n \<notin> set deniedEnvNames" "TrimSpace n \<notin> set managedEnvNames"
    "TrimSpace n \<noteq> []"
  using assms
proof (cases "TrimSpace n = ''PATH''")
  case True
  then show ?thesis using assms that by (auto simp: inherit_def Let_def split: if_splits option.splits)
next
  case False
  then show ?thesis using assms that by (auto simp: inherit_def Let_def split: if_splits option.splits)
qed

section \<open>Reading a command line back\<close>

fun read_quoted :: "string \<Rightarrow> string \<times> string" where
  "read_quoted [] = ([], [])"
| "read_quoted (c # cs) =
     (if c = CHR 0x22 then ([], cs)
      else if c = CHR 0x5C
      then (case cs of [] \<Rightarrow> ([], []) | d # ds \<Rightarrow> (let (a, r) = read_quoted ds in (d # a, r)))
      else (let (a, r) = read_quoted cs in (c # a, r)))"

definition read_arg :: "string \<Rightarrow> string \<times> string" where
  "read_arg s =
     (case s of
        [] \<Rightarrow> ([], [])
      | c # cs \<Rightarrow> if c = CHR 0x22 then read_quoted cs else (takeWhile (\<lambda>c. c \<noteq> CHR '' '') s, dropWhile (\<lambda>c. c \<noteq> CHR '' '') s))"

lemma read_quoted_escape: "read_quoted (escape_arg a @ CHR 0x22 # rest) = (a, rest)"
  by (induction a) auto

lemma read_arg_raw:
  assumes "CHR '' '' \<notin> set a" "a \<noteq> []" "hd a \<noteq> CHR 0x22" "rest = [] \<or> hd rest = CHR '' ''"
  shows "read_arg (a @ rest) = (a, rest)"
proof -
  have "takeWhile (\<lambda>c. c \<noteq> CHR '' '') (a @ rest) = a @ takeWhile (\<lambda>c. c \<noteq> CHR '' '') rest"
    using assms(1) by (intro takeWhile_append2) auto
  moreover have "dropWhile (\<lambda>c. c \<noteq> CHR '' '') (a @ rest) = dropWhile (\<lambda>c. c \<noteq> CHR '' '') rest"
    using assms(1) by (intro dropWhile_append2) auto
  moreover have "takeWhile (\<lambda>c. c \<noteq> CHR '' '') rest = [] \<and> dropWhile (\<lambda>c. c \<noteq> CHR '' '') rest = rest"
    using assms(4) by (cases rest) simp_all
  moreover obtain c cs where "a = c # cs" using assms(2) by (cases a) auto
  ultimately show ?thesis using assms(3) by (simp add: read_arg_def)
qed

lemma read_arg_quoteArg:
  assumes "rest = [] \<or> hd rest = CHR '' ''" shows "read_arg (quoteArg a @ rest) = (a, rest)"
proof -
  consider "a = []" | "a \<noteq> []" "list_ex (\<lambda>c. c \<in> set special_chars) a" | "a \<noteq> []" "\<not> list_ex (\<lambda>c. c \<in> set special_chars) a"
    by blast
  then show ?thesis
  proof cases
    case 1
    then show ?thesis by (simp add: quoteArg_def read_arg_def)
  next
    case 2
    then have "quoteArg a @ rest = CHR 0x22 # escape_arg a @ CHR 0x22 # rest" by (simp add: quoteArg_def)
    with read_quoted_escape [of a rest] show ?thesis by (simp add: read_arg_def)
  next
    case 3
    then have "CHR '' '' \<notin> set a" "CHR 0x22 \<notin> set a" by (auto simp: special_chars_def list_ex_iff)
    moreover from this have "hd a \<noteq> CHR 0x22" using hd_in_set [OF 3(1)] by metis
    ultimately show ?thesis using 3 assms by (simp add: quoteArg_def read_arg_raw)
  qed
qed

text \<open>The tail of a line after its first argument.\<close>

definition line_rest :: "string list \<Rightarrow> string" where
  "line_rest as = (if as = [] then [] else CHR '' '' # join_with '' '' (map quoteArg as))"

lemma line_split: "join_with '' '' (map quoteArg (a # as)) = quoteArg a @ line_rest as"
  by (cases as) (simp_all add: line_rest_def)

lemma read_line: "read_arg (join_with '' '' (map quoteArg (a # as))) = (a, line_rest as)"
  unfolding line_split by (rule read_arg_quoteArg) (simp add: line_rest_def)

lemma line_rest_cancel: "line_rest as = line_rest bs \<Longrightarrow> as = bs"
proof (induction as arbitrary: bs)
  case Nil
  then show ?case by (simp add: line_rest_def split: if_splits)
next
  case (Cons a as)
  then obtain b bs' where bs: "bs = b # bs'" by (cases bs) (auto simp: line_rest_def)
  with Cons.prems have "join_with '' '' (map quoteArg (a # as)) = join_with '' '' (map quoteArg (b # bs'))"
    by (simp add: line_rest_def del: list.map)
  then have "(a, line_rest as) = (b, line_rest bs')" using read_line by metis
  with Cons.IH [of bs'] bs show ?case by simp
qed

lemma commandLine_cancel:
  assumes "commandLine p as = commandLine q bs" shows "p = q \<and> as = bs"
proof -
  have "commandLine p as = join_with '' '' (map quoteArg (p # as))" for p as by (simp add: commandLine_def)
  with assms read_line [of p as] read_line [of q bs] have "(p, line_rest as) = (q, line_rest bs)" by metis
  with line_rest_cancel show ?thesis by blast
qed

section \<open>Properties\<close>

text \<open>\<open>HOME\<close> and \<open>PWD\<close> always win: whatever is passed through, whatever the operator's extra
  entries say and whether or not there is a virtual environment, a command's home is the sandbox
  root and its \<open>PWD\<close> is its working directory.\<close>

theorem HOME_and_PWD_win:
  "envValue (buildEnv look cfg wd venvBin) ''HOME'' = RootDir cfg \<and>
   envValue (buildEnv look cfg wd venvBin) ''PWD'' = wd"
proof -
  let ?pre = "concat (map (inherit look venvBin) (passthrough cfg)) @ ExtraEnv cfg"
  let ?venv = "if venvBin \<noteq> [] then [''VIRTUAL_ENV='' @ Dir venvBin] else []"
  have env: "buildEnv look cfg wd venvBin = ?pre @ [''HOME='' @ RootDir cfg] @ [''PWD='' @ wd] @ ?venv"
    by (simp add: buildEnv_def)
  have venv: "env_value_from ''HOME'' x ?venv = x" "env_value_from ''PWD'' x ?venv = x" for x
    using env_value_set [of "''VIRTUAL_ENV''" "''HOME''" x "Dir venvBin"]
      env_value_set [of "''VIRTUAL_ENV''" "''PWD''" x "Dir venvBin"] by simp_all
  have set: "env_value_from ''HOME'' x [''HOME='' @ y] = y" "env_value_from ''HOME'' x [''PWD='' @ z] = x"
    "env_value_from ''PWD'' x [''PWD='' @ z] = z" for x y z
    using env_value_set [of "''HOME''" "''HOME''" x y] env_value_set [of "''PWD''" "''HOME''" x z]
      env_value_set [of "''PWD''" "''PWD''" x z] by simp_all
  show ?thesis
    unfolding envValue_def env env_value_append venv set by simp
qed

text \<open>C16: the service's own credentials are never inherited: with a passthrough list that
  validates, any entry of a command's environment that sets a denied name was put there by the
  operator's own literal list.\<close>

theorem credentials_not_inherited:
  assumes "ValidateEnvPassthrough (passthrough cfg) = None" "name \<in> set deniedEnvNames"
    and "e \<in> set (buildEnv look cfg wd venvBin)" "HasPrefix e (name @ ''='')"
  shows "e \<in> set (ExtraEnv cfg)"
proof -
  have n: "CHR ''='' \<notin> set name" "name \<notin> set managedEnvNames"
    using assms(2) by (auto simp: deniedEnvNames_def managedEnvNames_def)
  have no: "\<not> HasPrefix e (name @ ''='')" if np: "n \<in> set (passthrough cfg)" and en: "e \<in> set (inherit look venvBin n)" for n
  proof -
    obtain v where v: "e = TrimSpace n @ ''='' @ v" "TrimSpace n \<notin> set deniedEnvNames" "TrimSpace n \<noteq> []"
      using inherit_entry [OF en] by metis
    have "CHR ''='' \<notin> set (TrimSpace n)" by (rule ValidateD(3) [OF assms(1) np v(3)])
    then have "HasPrefix e (name @ ''='') \<longleftrightarrow> TrimSpace n = name" unfolding v(1) by (rule HasPrefix_name) (rule n(1))
    with v(2) assms(2) show ?thesis by auto
  qed
  have own: "\<not> HasPrefix (m @ ''='' @ v) (name @ ''='')" if "m \<in> set managedEnvNames" for m v
  proof -
    have "CHR ''='' \<notin> set m" using that by (auto simp: managedEnvNames_def)
    from HasPrefix_name [OF this n(1), of v] n(2) that show ?thesis by auto
  qed
  have "e \<noteq> ''HOME='' @ RootDir cfg \<and> e \<noteq> ''PWD='' @ wd \<and> e \<noteq> ''VIRTUAL_ENV='' @ Dir venvBin"
    using own [of "''HOME''" "RootDir cfg"] own [of "''PWD''" wd] own [of "''VIRTUAL_ENV''" "Dir venvBin"] assms(4)
    by (auto simp: managedEnvNames_def)
  with assms(3,4) no show ?thesis by (auto simp: buildEnv_def split: if_splits)
qed

lemma credentials_not_inherited_witness:
  "''DB_DSN=x'' \<in> set (ExtraEnv ((DefaultConfig ''/s'')\<lparr>ExtraEnv := [''DB_DSN=x''], EnvPassthrough := Some [''PATH'']\<rparr>))"
proof -
  let ?cfg = "(DefaultConfig ''/s'')\<lparr>ExtraEnv := [''DB_DSN=x''], EnvPassthrough := Some [''PATH'']\<rparr>"
  have "ValidateEnvPassthrough (passthrough ?cfg) = None" by code_simp
  moreover have "''DB_DSN'' \<in> set deniedEnvNames" by (simp add: deniedEnvNames_def)
  moreover have "''DB_DSN=x'' \<in> set (buildEnv (\<lambda>_. None) ?cfg ''/s'' [])" by (simp add: buildEnv_def)
  moreover have "HasPrefix ''DB_DSN=x'' (''DB_DSN'' @ ''='')" by (simp add: HasPrefix_def)
  ultimately show ?thesis by (rule credentials_not_inherited)
qed

text \<open>The \<open>PATH\<close> a command runs with. The virtual environment is first on it when \<open>PATH\<close> is
  passed through, and an operator's own \<open>PATH\<close> entry then replaces the whole of it, the virtual
  environment included.\<close>

theorem PATH_of_a_command:
  assumes "ValidateEnvPassthrough (passthrough cfg) = None"
  shows "envValue (buildEnv look cfg wd venvBin) ''PATH'' =
    env_value_from ''PATH''
      (if ''PATH'' \<in> TrimSpace ` set (passthrough cfg)
       then (if venvBin \<noteq> [] then venvBin @ '':'' else []) @ (case look ''PATH'' of Some v \<Rightarrow> v | None \<Rightarrow> FallbackPATH)
       else []) (ExtraEnv cfg)"
proof -
  let ?path = "(if venvBin \<noteq> [] then venvBin @ '':'' else []) @ (case look ''PATH'' of Some v \<Rightarrow> v | None \<Rightarrow> FallbackPATH)"
  have one: "env_value_from ''PATH'' x (inherit look venvBin n) = (if TrimSpace n = ''PATH'' then ?path else x)"
    if "n \<in> set (passthrough cfg)" for n x
  proof (cases "TrimSpace n = ''PATH''")
    case True
    then have "inherit look venvBin n = [''PATH'' @ ''='' @ ?path]"
      by (simp add: inherit_def Let_def deniedEnvNames_def managedEnvNames_def split: option.split)
    with env_value_set [of "''PATH''" "''PATH''" x ?path] True show ?thesis by simp
  next
    case False
    have "\<not> HasPrefix e (''PATH'' @ ''='')" if e: "e \<in> set (inherit look venvBin n)" for e
    proof -
      obtain v where v: "e = TrimSpace n @ ''='' @ v" "TrimSpace n \<noteq> []" using inherit_entry [OF e] by metis
      have "CHR ''='' \<notin> set (TrimSpace n)" by (rule ValidateD(3) [OF assms \<open>n \<in> set (passthrough cfg)\<close> v(2)])
      from HasPrefix_name [OF this, of "''PATH''" v] False show ?thesis by (simp add: v(1))
    qed
    with False show ?thesis by (simp add: env_value_none)
  qed
  have all: "env_value_from ''PATH'' x (concat (map (inherit look venvBin) ns)) =
      (if ''PATH'' \<in> TrimSpace ` set ns then ?path else x)" if "set ns \<subseteq> set (passthrough cfg)" for ns x
    using that by (induction ns arbitrary: x) (auto simp: env_value_append one)
  have tail: "env_value_from ''PATH'' x ([''HOME='' @ RootDir cfg, ''PWD='' @ wd] @
      (if venvBin \<noteq> [] then [''VIRTUAL_ENV='' @ Dir venvBin] else [])) = x" for x
    by (rule env_value_none) (auto simp: HasPrefix_def split: if_splits)
  show ?thesis
    unfolding envValue_def buildEnv_def env_value_append [of _ _ "ExtraEnv cfg"] env_value_append [of _ _ "concat _"]
    unfolding tail all [OF subset_refl] ..
qed

lemma PATH_of_a_command_witness:
  "envValue (buildEnv (\<lambda>_. None) ((DefaultConfig ''/s'')\<lparr>ExtraEnv := [''PATH=/opt'']\<rparr>) ''/s'' ''/s/.venv/bin'') ''PATH'' = ''/opt''"
proof -
  let ?cfg = "(DefaultConfig ''/s'')\<lparr>ExtraEnv := [''PATH=/opt'']\<rparr>"
  have "ValidateEnvPassthrough (passthrough ?cfg) = None" by code_simp
  from PATH_of_a_command [OF this, of "\<lambda>_. None" "''/s''" "''/s/.venv/bin''"]
  show ?thesis by (simp add: CutPrefix_def HasPrefix_def)
qed

text \<open>The line a watcher is shown determines what ran: two commands are shown as the same
  line only when program and arguments are the same.\<close>

theorem command_line_is_unambiguous:
  "commandLine p as = commandLine q bs \<longleftrightarrow> p = q \<and> as = bs"
  using commandLine_cancel by auto

text \<open>A bare name stands for the first executable of that name on the command's own \<open>PATH\<close>,
  a name with a slash for itself, and anything else is refused.\<close>

theorem lookProgram_first_on_PATH:
  "lookProgram stat program env = Inr r \<longleftrightarrow>
     TrimSpace program \<noteq> [] \<and>
     (if slash \<in> set program then r = program
      else envValue env ''PATH'' \<noteq> [] \<and>
        (\<exists>dir. find (\<lambda>d. d \<noteq> [] \<and> executable stat (Join [d, program]) = None) (SplitList (envValue env ''PATH'')) = Some dir \<and>
           r = Join [dir, program]))"
proof -
  have search: "search_path stat program dirs =
     map_option (\<lambda>d. Join [d, program]) (find (\<lambda>d. d \<noteq> [] \<and> executable stat (Join [d, program]) = None) dirs)" for dirs
    by (induction dirs) (simp_all del: Join.simps)
  show ?thesis
    unfolding lookProgram_def Let_def search
    by (cases "find (\<lambda>d. d \<noteq> [] \<and> executable stat (Join [d, program]) = None) (SplitList (envValue env ''PATH''))")
      (auto simp del: Join.simps)
qed

end
