(* ===== verification/Go_Root.thy ===== *)
theory Go_Root imports Go_Path begin

text \<open>
  \<open>os.Root\<close>, as far as the sandbox uses it. The file system is one map from absolute component
  lists to nodes, shared by everything on the machine; a root is the directory \<open>R\<close> it was opened
  at. Names are walked component by component: \<open>..\<close> goes back to the parent and is refused at the
  root, a symbolic link is spliced into the rest of the name, and an absolute link is refused.
  Permission bits are stored and not enforced, so an operation of the system may fail where the
  model's succeeds; times are the RFC 3339 texts they are later sent as.
\<close>

datatype node =
    FileN (content: string) (perm: nat) (mtime: string)
  | DirN (perm: nat) (mtime: string) (dirsize: int)
  | LinkN (target: string) (mtime: string)

type_synonym fs = "(string list, node) gomap"

definition ErrEscapes :: gerr where "ErrEscapes = Sentinel ''path escapes from parent''"
definition ErrNotExist :: gerr where "ErrNotExist = Sentinel ''no such file or directory''"
definition ErrNotDir :: gerr where "ErrNotDir = Sentinel ''not a directory''"
definition ErrIsDir :: gerr where "ErrIsDir = Sentinel ''is a directory''"
definition ErrLoop :: gerr where "ErrLoop = Sentinel ''too many levels of symbolic links''"

definition max_links :: nat where "max_links = 255"

definition root_parts :: "string \<Rightarrow> string list" where
  "root_parts name = filter (\<lambda>c. c \<noteq> [] \<and> c \<noteq> ''.'') (split_on slash name)"

text \<open>\<open>walk links fs R follow cur todo\<close>: \<open>cur\<close> is where the walk stands below \<open>R\<close>.\<close>

function walk :: "nat \<Rightarrow> fs \<Rightarrow> string list \<Rightarrow> bool \<Rightarrow> string list \<Rightarrow> string list \<Rightarrow> string list res" where
  "walk links fs R follow cur [] = Inr cur"
| "walk links fs R follow cur (c # cs) =
     (if c = dotdot
      then (if cur = [] then Inl ErrEscapes else walk links fs R follow (butlast cur) cs)
      else case mget fs (R @ cur @ [c]) of
        None \<Rightarrow> if cs = [] then Inr (cur @ [c]) else Inl ErrNotExist
      | Some (FileN _ _ _) \<Rightarrow> if cs = [] then Inr (cur @ [c]) else Inl ErrNotDir
      | Some (DirN _ _ _) \<Rightarrow> walk links fs R follow (cur @ [c]) cs
      | Some (LinkN t _) \<Rightarrow>
          if cs = [] \<and> \<not> follow then Inr (cur @ [c])
          else if IsAbs t then Inl ErrEscapes
          else (case links of 0 \<Rightarrow> Inl ErrLoop | Suc n \<Rightarrow> walk n fs R follow cur (root_parts t @ cs)))"
  by pat_completeness auto
termination
  by (relation "measures [\<lambda>(links, fs, R, follow, cur, todo). links, \<lambda>(links, fs, R, follow, cur, todo). length todo]") auto

definition locate :: "fs \<Rightarrow> string list \<Rightarrow> bool \<Rightarrow> string \<Rightarrow> string list res" where
  "locate fs R follow name =
     (if name = [] then Inl ErrNotExist
      else if IsAbs name then Inl ErrEscapes
      else walk max_links fs R follow [] (root_parts name))"

text \<open>The node a name stands for; the root itself is a directory.\<close>

definition node_at :: "fs \<Rightarrow> string list \<Rightarrow> bool \<Rightarrow> string \<Rightarrow> node res" where
  "node_at fs R follow name =
     (case locate fs R follow name of
        Inl e \<Rightarrow> Inl e
      | Inr p \<Rightarrow> (case mget fs (R @ p) of Some n \<Rightarrow> Inr n | None \<Rightarrow> Inl ErrNotExist))"

definition path_error :: "string \<Rightarrow> string \<Rightarrow> gerr \<Rightarrow> gerr" where
  "path_error op name e = Wrap (op @ '' '' @ name @ '': '') e []"

definition is_dir :: "node \<Rightarrow> bool" where
  "is_dir n = (case n of DirN _ _ _ \<Rightarrow> True | _ \<Rightarrow> False)"

definition node_size :: "node \<Rightarrow> int" where
  "node_size n = (case n of FileN c _ _ \<Rightarrow> int (length c) | DirN _ _ s \<Rightarrow> s | LinkN t _ \<Rightarrow> int (length t))"

definition root_Stat :: "fs \<Rightarrow> string list \<Rightarrow> string \<Rightarrow> node res" where
  "root_Stat fs R name = (case node_at fs R True name of Inl e \<Rightarrow> Inl (path_error ''statat'' name e) | Inr n \<Rightarrow> Inr n)"

definition root_Lstat :: "fs \<Rightarrow> string list \<Rightarrow> string \<Rightarrow> node res" where
  "root_Lstat fs R name = (case node_at fs R False name of Inl e \<Rightarrow> Inl (path_error ''lstatat'' name e) | Inr n \<Rightarrow> Inr n)"

definition root_ReadFile :: "fs \<Rightarrow> string list \<Rightarrow> string \<Rightarrow> string res" where
  "root_ReadFile fs R name =
     (case node_at fs R True name of
        Inl e \<Rightarrow> Inl (path_error ''openat'' name e)
      | Inr (FileN c _ _) \<Rightarrow> Inr c
      | Inr _ \<Rightarrow> Inl (path_error ''read'' name ErrIsDir))"

definition root_WriteFile :: "string \<Rightarrow> fs \<Rightarrow> string list \<Rightarrow> string \<Rightarrow> string \<Rightarrow> nat \<Rightarrow> gerr option \<times> fs" where
  "root_WriteFile now fs R name data pm =
     (case locate fs R True name of
        Inl e \<Rightarrow> (Some (path_error ''openat'' name e), fs)
      | Inr p \<Rightarrow>
          (case mget fs (R @ p) of
             None \<Rightarrow> if p = [] then (Some (path_error ''openat'' name ErrNotExist), fs)
                     else (None, mset_key (R @ p) (FileN data pm now) fs)
           | Some (FileN _ old _) \<Rightarrow> (None, mset_key (R @ p) (FileN data old now) fs)
           | Some _ \<Rightarrow> (Some (path_error ''openat'' name ErrIsDir), fs)))"

function mkdirs :: "nat \<Rightarrow> string \<Rightarrow> nat \<Rightarrow> string list \<Rightarrow> string list \<Rightarrow> string list \<Rightarrow> fs \<Rightarrow> gerr option \<times> fs" where
  "mkdirs links now pm R cur [] fs = (None, fs)"
| "mkdirs links now pm R cur (c # cs) fs =
     (if c = dotdot
      then (if cur = [] then (Some ErrEscapes, fs) else mkdirs links now pm R (butlast cur) cs fs)
      else case mget fs (R @ cur @ [c]) of
        None \<Rightarrow> mkdirs links now pm R (cur @ [c]) cs (mset_key (R @ cur @ [c]) (DirN pm now 0) fs)
      | Some (FileN _ _ _) \<Rightarrow> (Some ErrNotDir, fs)
      | Some (DirN _ _ _) \<Rightarrow> mkdirs links now pm R (cur @ [c]) cs fs
      | Some (LinkN t _) \<Rightarrow>
          if IsAbs t then (Some ErrEscapes, fs)
          else (case links of 0 \<Rightarrow> (Some ErrLoop, fs) | Suc n \<Rightarrow> mkdirs n now pm R cur (root_parts t @ cs) fs))"
  by pat_completeness auto
termination
  by (relation "measures [\<lambda>(links, now, pm, R, cur, todo, fs). links, \<lambda>(links, now, pm, R, cur, todo, fs). length todo]") auto

definition root_MkdirAll :: "string \<Rightarrow> fs \<Rightarrow> string list \<Rightarrow> string \<Rightarrow> nat \<Rightarrow> gerr option \<times> fs" where
  "root_MkdirAll now fs R name pm =
     (if name = [] then (Some (path_error ''mkdirat'' name ErrNotExist), fs)
      else if IsAbs name then (Some (path_error ''mkdirat'' name ErrEscapes), fs)
      else (case mkdirs max_links now pm R [] (root_parts name) fs of
              (None, fs') \<Rightarrow> (None, fs')
            | (Some e, fs') \<Rightarrow> (Some (path_error ''mkdirat'' name e), fs')))"

text \<open>Reading a directory: the entries directly below it, in directory order, as \<open>Info\<close> sees them.\<close>

definition children :: "fs \<Rightarrow> string list \<Rightarrow> (string \<times> node) list" where
  "children fs d = map (\<lambda>(p, n). (last p, n)) (filter (\<lambda>(p, n). p \<noteq> [] \<and> butlast p = d) fs)"

definition root_ReadDir :: "fs \<Rightarrow> string list \<Rightarrow> string \<Rightarrow> (string \<times> node) list res" where
  "root_ReadDir fs R name =
     (case locate fs R True name of
        Inl e \<Rightarrow> Inl (path_error ''openat'' name e)
      | Inr p \<Rightarrow>
          (case mget fs (R @ p) of
             None \<Rightarrow> Inl (path_error ''openat'' name ErrNotExist)
           | Some (DirN _ _ _) \<Rightarrow> Inr (children fs (R @ p))
           | Some _ \<Rightarrow> Inl (path_error ''readdirent'' name ErrNotDir)))"

definition remove_tree :: "string list \<Rightarrow> fs \<Rightarrow> fs" where
  "remove_tree d fs = filter (\<lambda>(p, n). take (length d) p \<noteq> d) fs"

text \<open>A name that is not there is no error; the root itself cannot be removed.\<close>

definition root_RemoveAll :: "fs \<Rightarrow> string list \<Rightarrow> string \<Rightarrow> gerr option \<times> fs" where
  "root_RemoveAll fs R name =
     (case locate fs R False name of
        Inl e \<Rightarrow> if e = ErrNotExist \<and> name \<noteq> [] then (None, fs) else (Some (path_error ''RemoveAll'' name e), fs)
      | Inr p \<Rightarrow> if p = [] then (Some (path_error ''RemoveAll'' name (Sentinel ''invalid argument'')), fs)
                 else (None, remove_tree (R @ p) fs))"

section \<open>Nothing outside the root is touched\<close>

definition below :: "string list \<Rightarrow> string list \<Rightarrow> bool" where
  "below R p \<longleftrightarrow> take (length R) p = R"

lemma below_append [simp]: "below R (R @ p)"
  by (simp add: below_def)

lemma below_iff: "below R p \<longleftrightarrow> (\<exists>q. p = R @ q)"
  unfolding below_def by (metis append_eq_conv_conj append_take_drop_id)

definition same_outside :: "string list \<Rightarrow> fs \<Rightarrow> fs \<Rightarrow> bool" where
  "same_outside R fs fs' \<longleftrightarrow> (\<forall>p. \<not> below R p \<longrightarrow> mget fs' p = mget fs p)"

lemma same_outside_refl [simp]: "same_outside R fs fs"
  by (simp add: same_outside_def)

lemma same_outside_trans: "same_outside R a b \<Longrightarrow> same_outside R b c \<Longrightarrow> same_outside R a c"
  by (simp add: same_outside_def)

lemma same_outside_set [simp]: "same_outside R fs (mset_key (R @ p) n fs)"
  by (auto simp: same_outside_def below_iff)

lemma same_outside_set_root [simp]: "same_outside R fs (mset_key R n fs)"
  using same_outside_set [of R fs "[]" n] by simp

lemma remove_tree_mget: "mget (remove_tree d fs) p = (if take (length d) p = d then None else mget fs p)"
  by (induction fs) (auto simp: remove_tree_def)

lemma same_outside_remove: "same_outside R fs (remove_tree (R @ p) fs)"
proof -
  have "take (length (R @ p)) q \<noteq> R @ p" if "\<not> below R q" for q
  proof
    assume "take (length (R @ p)) q = R @ p"
    then have "take (length R) (take (length (R @ p)) q) = R" by simp
    then have "take (length R) q = R" by (simp add: min_def)
    with that show False by (simp add: below_def)
  qed
  then show ?thesis by (simp add: same_outside_def remove_tree_mget)
qed

lemma same_outside_mkdirs: "same_outside R fs (snd (mkdirs links now pm R cur todo fs))"
proof (induction links now pm R cur todo fs rule: mkdirs.induct)
  case (2 links now pm R cur c cs fs)
  show ?case
  proof (cases "c = dotdot")
    case True
    with 2(1) show ?thesis by simp
  next
    case False
    show ?thesis
    proof (cases "mget fs (R @ cur @ [c])")
      case None
      with 2(2) False same_outside_trans [OF same_outside_set] show ?thesis by simp
    next
      case (Some n)
      with 2(3,4) False show ?thesis by (cases n) (auto split: nat.splits)
    qed
  qed
qed simp

lemma same_outside_WriteFile: "same_outside R fs (snd (root_WriteFile now fs R name data pm))"
  by (auto simp: root_WriteFile_def split: sum.splits option.splits node.splits)

lemma same_outside_MkdirAll: "same_outside R fs (snd (root_MkdirAll now fs R name pm))"
  using same_outside_mkdirs [of R fs max_links now pm "[]" "root_parts name"]
  by (auto simp: root_MkdirAll_def split: prod.splits option.splits)

lemma same_outside_RemoveAll: "same_outside R fs (snd (root_RemoveAll fs R name))"
  by (auto simp: root_RemoveAll_def same_outside_remove split: sum.splits)

text \<open>What is read comes from below the root: a file system that agrees there gives the same answer.\<close>

definition same_inside :: "string list \<Rightarrow> fs \<Rightarrow> fs \<Rightarrow> bool" where
  "same_inside R fs fs' \<longleftrightarrow> (\<forall>p. mget fs (R @ p) = mget fs' (R @ p))"

lemma walk_cong: "same_inside R fs fs' \<Longrightarrow> walk links fs R follow cur todo = walk links fs' R follow cur todo"
proof (induction links fs R follow cur todo rule: walk.induct)
  case (2 links fs R follow cur c cs)
  then have "mget fs (R @ cur @ [c]) = mget fs' (R @ cur @ [c])" by (simp add: same_inside_def)
  with 2 show ?case by (auto split: option.splits node.splits nat.splits)
qed simp

lemma locate_cong: "same_inside R fs fs' \<Longrightarrow> locate fs R follow name = locate fs' R follow name"
  by (simp add: locate_def walk_cong)

lemma node_at_cong:
  assumes "same_inside R fs fs'" shows "node_at fs R follow name = node_at fs' R follow name"
proof -
  have "mget fs (R @ p) = mget fs' (R @ p)" for p using assms by (simp add: same_inside_def)
  then show ?thesis
    unfolding node_at_def locate_cong [OF assms] by (cases "locate fs' R follow name") simp_all
qed

section \<open>Paths of the whole machine\<close>

text \<open>\<open>filepath.EvalSymlinks\<close> of an absolute path, and the directory \<open>os.OpenRoot\<close> opens.\<close>

function eval_links :: "nat \<Rightarrow> fs \<Rightarrow> string list \<Rightarrow> string list \<Rightarrow> string list res" where
  "eval_links links fs cur [] = Inr cur"
| "eval_links links fs cur (c # cs) =
     (if c = dotdot then eval_links links fs (butlast cur) cs
      else case mget fs (cur @ [c]) of
        None \<Rightarrow> Inl ErrNotExist
      | Some (FileN _ _ _) \<Rightarrow> if cs = [] then Inr (cur @ [c]) else Inl ErrNotDir
      | Some (DirN _ _ _) \<Rightarrow> eval_links links fs (cur @ [c]) cs
      | Some (LinkN t _) \<Rightarrow>
          (case links of
             0 \<Rightarrow> Inl ErrLoop
           | Suc n \<Rightarrow> eval_links n fs (if IsAbs t then [] else cur) (root_parts t @ cs)))"
  by pat_completeness auto
termination
  by (relation "measures [\<lambda>(links, fs, cur, todo). links, \<lambda>(links, fs, cur, todo). length todo]") auto

definition EvalSymlinks :: "fs \<Rightarrow> string \<Rightarrow> string res" where
  "EvalSymlinks fs path =
     (case eval_links max_links fs [] (root_parts path) of
        Inl e \<Rightarrow> Inl (path_error ''lstat'' path e)
      | Inr p \<Rightarrow> Inr (render True p))"

definition OpenRoot :: "fs \<Rightarrow> string \<Rightarrow> string list res" where
  "OpenRoot fs path =
     (case eval_links max_links fs [] (root_parts path) of
        Inl e \<Rightarrow> Inl (path_error ''open'' path e)
      | Inr p \<Rightarrow>
          (case mget fs p of
             Some (DirN _ _ _) \<Rightarrow> Inr p
           | Some _ \<Rightarrow> Inl (path_error ''open'' path ErrNotDir)
           | None \<Rightarrow> if p = [] then Inr [] else Inl (path_error ''open'' path ErrNotExist)))"

text \<open>A resolved path has no link left in it: every proper step is a real directory.\<close>

definition real_path :: "fs \<Rightarrow> string list \<Rightarrow> bool" where
  "real_path fs p \<longleftrightarrow> (\<forall>i<length p. \<exists>n. mget fs (take (Suc i) p) = Some n \<and> (\<forall>t m. n \<noteq> LinkN t m))"

lemma real_path_snoc:
  "real_path fs p \<Longrightarrow> mget fs (p @ [c]) = Some n \<Longrightarrow> (\<And>t m. n \<noteq> LinkN t m) \<Longrightarrow> real_path fs (p @ [c])"
  unfolding real_path_def by (auto simp: less_Suc_eq)

lemma real_path_butlast: "real_path fs p \<Longrightarrow> real_path fs (butlast p)"
  unfolding real_path_def by (auto simp: take_butlast)

lemma eval_links_real: "eval_links links fs cur todo = Inr p \<Longrightarrow> real_path fs cur \<Longrightarrow> real_path fs p"
proof (induction links fs cur todo rule: eval_links.induct)
  case (2 links fs cur c cs)
  show ?case
  proof (cases "c = dotdot")
    case True
    with 2 show ?thesis by (simp add: real_path_butlast)
  next
    case False
    show ?thesis
    proof (cases "mget fs (cur @ [c])")
      case None
      with 2(4) False show ?thesis by simp
    next
      case (Some n)
      note ih = "2.IH"(2,3) [OF False Some]
      show ?thesis
      proof (cases n)
        case (FileN c' pm t)
        with 2(4,5) False Some show ?thesis by (auto intro: real_path_snoc split: if_splits)
      next
        case (DirN pm t sz)
        with 2(4,5) False Some ih(1) real_path_snoc [OF 2(5) Some] show ?thesis by simp
      next
        case (LinkN t m)
        then obtain k where "links = Suc k" using 2(4) False Some by (cases links) auto
        moreover have "real_path fs []" by (simp add: real_path_def)
        ultimately show ?thesis using LinkN 2(4,5) False Some ih(2) [OF LinkN] by (cases "IsAbs t") simp_all
      qed
    qed
  qed
qed simp

end
