(* ===== verification/Sandbox_Op.thy ===== *)
theory Sandbox_Op imports Go_Root Go_Json Procexec begin

text \<open>
  Package \<open>internal/sandboxop\<close>: one file operation, performed by a child process that runs as the
  agent. A request and a response cross a pipe as JSON, so their strings arrive with ill-formed
  UTF-8 replaced while contents, which are base64, arrive as they are. How the child ended is an
  argument; \<open>find_exec\<close> is the system's answer to whether a path can be executed, seen from the
  directory the child runs in.
\<close>

type_synonym sb_op = string

definition OpRead :: sb_op where "OpRead = ''read''"
definition OpWrite :: sb_op where "OpWrite = ''write''"
definition OpList :: sb_op where "OpList = ''list''"
definition OpDelete :: sb_op where "OpDelete = ''delete''"
definition OpStat :: sb_op where "OpStat = ''stat''"
definition OpLook :: sb_op where "OpLook = ''look''"

lemmas sb_ops = OpRead_def OpWrite_def OpList_def OpDelete_def OpStat_def OpLook_def

record Request =
  rq_Root :: string
  rq_Op :: sb_op
  rq_Name :: string
  rq_Content :: string
  rq_Perm :: nat
  rq_PathEnv :: string

record EntryInfo =
  en_Name :: string
  en_Path :: string
  en_IsDir :: bool
  en_Size :: int
  en_ModTime :: string

record Response =
  rs_Error :: string
  rs_Content :: string
  rs_Files :: "EntryInfo list"
  rs_Existed :: bool
  rs_WasDirectory :: bool
  rs_Info :: "EntryInfo option"
  rs_Program :: string

definition zeroResponse :: Response where
  "zeroResponse = \<lparr>rs_Error = [], rs_Content = [], rs_Files = [], rs_Existed = False, rs_WasDirectory = False,
     rs_Info = None, rs_Program = []\<rparr>"

definition failed :: "gerr \<Rightarrow> Response" where
  "failed e = zeroResponse\<lparr>rs_Error := err_text e\<rparr>"

definition Err :: "Response \<Rightarrow> gerr option" where
  "Err r = (if rs_Error r = [] then None else Some (Plain (rs_Error r)))"

text \<open>\<open>exec.LookPath\<close>.\<close>

fun look_in :: "(string \<Rightarrow> gerr option) \<Rightarrow> string \<Rightarrow> string list \<Rightarrow> string res" where
  "look_in find_exec file [] =
     Inl (Plain (''exec: '' @ CHR 0x22 # file @ CHR 0x22 # '': executable file not found in $PATH''))"
| "look_in find_exec file (dir # dirs) =
     (let path = Join [if dir = [] then ''.'' else dir, file]
      in if find_exec path = None
         then (if IsAbs path then Inr path
               else Inl (Plain (''exec: '' @ CHR 0x22 # file @ CHR 0x22
                 # '': cannot run executable found relative to current directory'')))
         else look_in find_exec file dirs)"

definition LookPath :: "(string \<Rightarrow> gerr option) \<Rightarrow> string \<Rightarrow> string \<Rightarrow> string res" where
  "LookPath find_exec pathEnv file =
     (if slash \<in> set file
      then (case find_exec file of
              None \<Rightarrow> Inr file
            | Some e \<Rightarrow> Inl (Wrap (''exec: '' @ CHR 0x22 # file @ CHR 0x22 # '': '') e []))
      else look_in find_exec file (SplitList pathEnv))"

definition entry_info :: "string \<Rightarrow> string \<times> node \<Rightarrow> EntryInfo" where
  "entry_info name en =
     (case en of (nm, n) \<Rightarrow>
        \<lparr>en_Name = nm, en_Path = (if name \<noteq> ''.'' then Join [name, nm] else nm), en_IsDir = is_dir n,
         en_Size = node_size n, en_ModTime = mtime n\<rparr>)"

definition list_dir :: "fs \<Rightarrow> string list \<Rightarrow> string \<Rightarrow> Response" where
  "list_dir fs R name =
     (case root_ReadDir fs R name of
        Inl e \<Rightarrow> failed e
      | Inr entries \<Rightarrow> zeroResponse\<lparr>rs_Files := map (entry_info name) entries\<rparr>)"

text \<open>The arms of \<open>Perform\<close> that change the file system.\<close>

definition perform_write :: "string \<Rightarrow> fs \<Rightarrow> string list \<Rightarrow> Request \<Rightarrow> Response \<times> fs" where
  "perform_write now fs R req =
     (let pm = (if rq_Perm req = 0 then 384 else rq_Perm req);
          dir = Dir (rq_Name req);
          (merr, fs1) = (if dir \<noteq> ''.'' then root_MkdirAll now fs R dir 448 else (None, fs))
      in case merr of
           Some e \<Rightarrow> (failed e, fs1)
         | None \<Rightarrow>
             (let (werr, fs2) = root_WriteFile now fs1 R (rq_Name req) (rq_Content req) pm
              in (case werr of Some e \<Rightarrow> failed e | None \<Rightarrow> zeroResponse, fs2)))"

definition perform_delete :: "fs \<Rightarrow> string list \<Rightarrow> string \<Rightarrow> Response \<times> fs" where
  "perform_delete fs R name =
     (let out = (case root_Lstat fs R name of
                   Inr n \<Rightarrow> zeroResponse\<lparr>rs_Existed := True, rs_WasDirectory := is_dir n\<rparr>
                 | Inl e \<Rightarrow> zeroResponse);
          (err, fs1) = root_RemoveAll fs R name
      in (case err of Some e \<Rightarrow> failed e | None \<Rightarrow> out, fs1))"

definition perform_stat :: "fs \<Rightarrow> string list \<Rightarrow> string \<Rightarrow> Response" where
  "perform_stat fs R name =
     (case root_Stat fs R name of
        Inl e \<Rightarrow> failed e
      | Inr n \<Rightarrow> zeroResponse\<lparr>rs_Info := Some \<lparr>en_Name = Base name, en_Path = name,
                    en_IsDir = is_dir n, en_Size = node_size n, en_ModTime = mtime n\<rparr>\<rparr>)"

definition Perform :: "(string \<Rightarrow> gerr option) \<Rightarrow> string \<Rightarrow> fs \<Rightarrow> Request \<Rightarrow> Response \<times> fs" where
  "Perform find_exec now fs req =
     (if rq_Op req = OpLook
      then (case LookPath find_exec (rq_PathEnv req) (rq_Name req) of
              Inl e \<Rightarrow> (failed e, fs)
            | Inr program \<Rightarrow> (zeroResponse\<lparr>rs_Program := program\<rparr>, fs))
      else case OpenRoot fs (rq_Root req) of
        Inl e \<Rightarrow> (failed e, fs)
      | Inr R \<Rightarrow>
          if rq_Op req = OpRead
          then (case root_ReadFile fs R (rq_Name req) of
                  Inl e \<Rightarrow> (failed e, fs)
                | Inr data \<Rightarrow> (zeroResponse\<lparr>rs_Content := data\<rparr>, fs))
          else if rq_Op req = OpWrite then perform_write now fs R req
          else if rq_Op req = OpList then (list_dir fs R (rq_Name req), fs)
          else if rq_Op req = OpDelete then perform_delete fs R (rq_Name req)
          else if rq_Op req = OpStat then (perform_stat fs R (rq_Name req), fs)
          else (zeroResponse\<lparr>rs_Error := ''unknown sandbox operation '' @ CHR 0x22 # rq_Op req @ [CHR 0x22]\<rparr>, fs))"

text \<open>The pipe in both directions.\<close>

definition piped_request :: "Request \<Rightarrow> Request" where
  "piped_request r = r\<lparr>rq_Root := to_valid (rq_Root r), rq_Op := to_valid (rq_Op r), rq_Name := to_valid (rq_Name r),
     rq_PathEnv := to_valid (rq_PathEnv r)\<rparr>"

definition piped_entry :: "EntryInfo \<Rightarrow> EntryInfo" where
  "piped_entry e = e\<lparr>en_Name := to_valid (en_Name e), en_Path := to_valid (en_Path e)\<rparr>"

definition piped_response :: "Response \<Rightarrow> Response" where
  "piped_response r = r\<lparr>rs_Error := to_valid (rs_Error r), rs_Files := map piped_entry (rs_Files r),
     rs_Info := map_option piped_entry (rs_Info r), rs_Program := to_valid (rs_Program r)\<rparr>"

definition Serve :: "(string \<Rightarrow> gerr option) \<Rightarrow> string \<Rightarrow> fs \<Rightarrow> Request res \<Rightarrow> Response res \<times> fs" where
  "Serve find_exec now fs inp =
     (case inp of
        Inl e \<Rightarrow> (Inl (Wrap ''read the operation: '' e []), fs)
      | Inr req \<Rightarrow> (let (r, fs') = Perform find_exec now fs req in (Inr r, fs')))"

record Runner =
  Exe :: string
  Args :: "string list"
  Timeout :: int

definition NewRunner :: "string res \<Rightarrow> string list \<Rightarrow> Runner res" where
  "NewRunner self args =
     (case self of
        Inl e \<Rightarrow> Inl (Wrap ''locate this executable to run sandbox operations: '' e [])
      | Inr exe \<Rightarrow> Inr \<lparr>Exe = exe, Args = args, Timeout = 30 * 1000000000\<rparr>)"

text \<open>How the child ended: it ran, or failed with an error and something on stderr, before or
  after it did its work.\<close>

datatype child = Ran | Crashed gerr string bool

record helper_cmd =
  hc_Exe :: string
  hc_Args :: "string list"
  hc_Env :: "string list"
  hc_Attr :: "sys_proc_attr option"

definition helper_command :: "Runner \<Rightarrow> u32 \<Rightarrow> Request \<Rightarrow> helper_cmd" where
  "helper_command r uid req =
     \<lparr>hc_Exe = Exe r, hc_Args = Args r, hc_Env = (if rq_PathEnv req \<noteq> [] then [''PATH='' @ rq_PathEnv req] else []),
      hc_Attr = DropTo (Configure None) uid\<rparr>"

definition Do :: "child \<Rightarrow> (string \<Rightarrow> gerr option) \<Rightarrow> string \<Rightarrow> fs \<Rightarrow> u32 \<Rightarrow> Request \<Rightarrow> Response res \<times> fs" where
  "Do run find_exec now fs uid req =
     (let (served, fs') = Serve find_exec now fs (Inr (piped_request req)) in
      case run of
        Crashed e stderr did \<Rightarrow>
          (let what = rq_Op req @ '' as uid '' @ show_nat (unat uid) @ '': ''; detail = TrimSpace stderr
           in (Inl (if detail \<noteq> [] then Wrap what e ('': '' @ detail) else Wrap what e []), if did then fs' else fs))
      | Ran \<Rightarrow>
          (case served of
             Inl e \<Rightarrow> (Inl (Wrap (''decode the '' @ rq_Op req @ '' result: '') e []), fs')
           | Inr out \<Rightarrow> (Inr (piped_response out), fs')))"

section \<open>The child stays below its root\<close>

lemma perform_write_outside: "same_outside R fs (snd (perform_write now fs R req))"
proof (cases "Dir (rq_Name req) = ''.''")
  case True
  then show ?thesis by (simp add: perform_write_def Let_def split_beta same_outside_WriteFile)
next
  case False
  obtain merr fs1 where m: "root_MkdirAll now fs R (Dir (rq_Name req)) 448 = (merr, fs1)" by fastforce
  with same_outside_MkdirAll [of R fs now "Dir (rq_Name req)" 448] have o1: "same_outside R fs fs1" by simp
  from same_outside_trans [OF o1 same_outside_WriteFile] o1 False m show ?thesis
    by (cases merr) (simp_all add: perform_write_def Let_def split_beta)
qed

lemma perform_delete_outside: "same_outside R fs (snd (perform_delete fs R name))"
  by (simp add: perform_delete_def Let_def split_beta same_outside_RemoveAll)

lemma Perform_outside:
  assumes "OpenRoot fs (rq_Root req) = Inr R" shows "same_outside R fs (snd (Perform find_exec now fs req))"
proof (cases "rq_Op req = OpLook")
  case True
  then show ?thesis by (cases "LookPath find_exec (rq_PathEnv req) (rq_Name req)") (simp_all add: Perform_def)
next
  case False
  have r: "same_outside R fs (snd (case root_ReadFile fs R (rq_Name req) of Inl e \<Rightarrow> (failed e, fs)
     | Inr data \<Rightarrow> (zeroResponse\<lparr>rs_Content := data\<rparr>, fs)))"
    by (cases "root_ReadFile fs R (rq_Name req)") simp_all
  show ?thesis
    using False r perform_write_outside perform_delete_outside by (simp add: Perform_def assms)
qed

lemma Do_outside:
  assumes "OpenRoot fs (to_valid (rq_Root req)) = Inr R" shows "same_outside R fs (snd (Do run find_exec now fs uid req))"
  using Perform_outside [of fs "piped_request req" R find_exec now] assms
  by (auto simp: Do_def Serve_def Let_def piped_request_def split: child.splits prod.splits)

end
