(* ===== verification/Sandbox_Files.thy ===== *)
theory Sandbox_Files imports Sandbox_Env Sandbox_Op begin

text \<open>
  Package \<open>internal/sandbox\<close>, file \<open>sandbox.go\<close>: creating a sandbox, confining a path to it, and
  the file operations. A sandbox whose \<open>ops\<close> is set has them performed by a helper process as the
  agent's user (\<open>sandboxop\<close>); otherwise this process performs them on the \<open>os.Root\<close> it holds.
\<close>

section \<open>State\<close>

record Sandbox =
  sb_id :: string
  sb_config :: Config
  sb_root :: "string list option"
  sb_uid :: u32
  sb_ops :: "Runner option"
  sb_running :: "string list"
  sb_venvDone :: bool
  sb_bus :: bool

text \<open>\<open>filepath.Abs\<close> with the process's working directory, and \<open>os.MkdirAll\<close> on the whole machine.\<close>

definition Abs :: "string \<Rightarrow> string \<Rightarrow> string" where
  "Abs cwd p = (if IsAbs p then Clean p else Join [cwd, p])"

fun os_mkdirs :: "string \<Rightarrow> nat \<Rightarrow> string list \<Rightarrow> string list \<Rightarrow> fs \<Rightarrow> gerr option \<times> fs" where
  "os_mkdirs now pm done [] fs = (None, fs)"
| "os_mkdirs now pm done (c # cs) fs =
     (case eval_links max_links fs [] (done @ [c]) of
        Inr p \<Rightarrow> if p = [] \<or> (case mget fs p of Some n \<Rightarrow> is_dir n | None \<Rightarrow> False)
                 then os_mkdirs now pm (done @ [c]) cs fs else (Some ErrNotDir, fs)
      | Inl e \<Rightarrow>
          if e = ErrNotExist
          then (case eval_links max_links fs [] done of
                  Inl e' \<Rightarrow> (Some e', fs)
                | Inr p \<Rightarrow>
                    if mget fs (p @ [c]) \<noteq> None then (Some (Sentinel ''file exists''), fs)
                    else os_mkdirs now pm (done @ [c]) cs (mset_key (p @ [c]) (DirN pm now 0) fs))
          else (Some e, fs))"

definition os_MkdirAll :: "string \<Rightarrow> fs \<Rightarrow> string \<Rightarrow> nat \<Rightarrow> gerr option \<times> fs" where
  "os_MkdirAll now fs path pm =
     (case os_mkdirs now pm [] (root_parts path) fs of
        (None, fs') \<Rightarrow> (None, fs')
      | (Some e, fs') \<Rightarrow> (Some (path_error ''mkdir'' path e), fs'))"

definition newSandbox :: "string \<Rightarrow> string res \<Rightarrow> string \<Rightarrow> fs \<Rightarrow> string \<Rightarrow> Config \<Rightarrow> bool \<Rightarrow> u32 \<Rightarrow> Sandbox res \<times> fs" where
  "newSandbox cwd self now fs i cfg bus uid =
     (if RootDir cfg = [] then (Inl (Plain ''root directory cannot be empty''), fs)
      else
        (let absRoot = Abs cwd (RootDir cfg);
             (merr, fs1) = os_MkdirAll now fs absRoot 488
         in case merr of
              Some e \<Rightarrow> (Inl (Wrap ''create sandbox root directory: '' e []), fs1)
            | None \<Rightarrow>
                (let absRoot' = (case EvalSymlinks fs1 absRoot of Inr p \<Rightarrow> p | Inl e \<Rightarrow> absRoot);
                     cfg1 = WithDefaults cfg
                 in case ValidateEnvPassthrough (passthrough cfg1) of
                      Some e \<Rightarrow> (Inl e, fs1)
                    | None \<Rightarrow>
                        (let cfg2 = (if EnvPassthrough cfg1 = None then cfg1\<lparr>EnvPassthrough := Some DefaultEnvPassthrough\<rparr> else cfg1);
                             cfg3 = cfg2\<lparr>RootDir := absRoot'\<rparr>;
                             sb = \<lparr>sb_id = i, sb_config = cfg3, sb_root = None, sb_uid = uid, sb_ops = None, sb_running = [], sb_venvDone = False, sb_bus = bus\<rparr>
                         in if uid = 0
                            then (case OpenRoot fs1 absRoot' of
                                    Inl e \<Rightarrow> (Inl (Wrap ''open sandbox root: '' e []), fs1)
                                  | Inr R \<Rightarrow> (Inr (sb\<lparr>sb_root := Some R\<rparr>), fs1))
                            else (case NewRunner self (OpHelperArgs cfg3) of
                                    Inl e \<Rightarrow> (Inl e, fs1)
                                  | Inr r \<Rightarrow> (Inr (sb\<lparr>sb_ops := Some r\<rparr>), fs1))))))"

section \<open>Confining a path\<close>

definition outside_err :: "string \<Rightarrow> gerr" where
  "outside_err why = Wrap [] ErrPathOutsideSandbox ('': '' @ why)"

definition relativeName :: "Sandbox \<Rightarrow> string \<Rightarrow> string res" where
  "relativeName s relPath =
     (let cleaned = Clean relPath in
      if cleaned = [] \<or> cleaned = ''.'' then Inr ''.''
      else
        (let step = (if IsAbs cleaned
                     then (case Rel (RootDir (sb_config s)) cleaned of
                             Inl e \<Rightarrow> Inl (outside_err (err_text e))
                           | Inr rel \<Rightarrow> Inr rel)
                     else Inr cleaned)
         in case step of
              Inl e \<Rightarrow> Inl e
            | Inr c \<Rightarrow> if c = dotdot \<or> HasPrefix c (dotdot @ [slash]) then Inl (outside_err relPath) else Inr c))"

definition ResolvePath :: "Sandbox \<Rightarrow> string \<Rightarrow> string res" where
  "ResolvePath s relPath =
     (let root = RootDir (sb_config s); cleaned = Clean relPath in
      if cleaned = ''.'' \<or> cleaned = [] then Inr root
      else
        (let target = (if \<not> IsAbs cleaned then Join [root, cleaned] else cleaned) in
         case Rel root target of
           Inl e \<Rightarrow> Inl (outside_err (err_text e))
         | Inr rel \<Rightarrow> if rel = dotdot \<or> HasPrefix rel (dotdot @ [slash]) then Inl (outside_err relPath) else Inr target))"

section \<open>File operations\<close>

text \<open>What an operation finds around it: how its helper child ends, what can be executed from the
  worker's directory, and the time.\<close>

record surround =
  su_child :: child
  su_exec :: "string \<Rightarrow> gerr option"
  su_now :: string

definition ask_helper :: "surround \<Rightarrow> Sandbox \<Rightarrow> fs \<Rightarrow> sb_op \<Rightarrow> string \<Rightarrow> string \<Rightarrow> nat \<Rightarrow> string \<Rightarrow> Response res \<times> fs" where
  "ask_helper u s fs op name data pm path =
     Do (su_child u) (su_exec u) (su_now u) fs (sb_uid s)
       \<lparr>rq_Root = RootDir (sb_config s), rq_Op = op, rq_Name = name, rq_Content = data, rq_Perm = pm, rq_PathEnv = path\<rparr>"

definition opened :: "Sandbox \<Rightarrow> string list" where
  "opened s = (case sb_root s of Some R \<Rightarrow> R | None \<Rightarrow> [])"

definition sb_ReadFile :: "surround \<Rightarrow> Sandbox \<Rightarrow> fs \<Rightarrow> string \<Rightarrow> string res \<times> fs" where
  "sb_ReadFile u s fs relPath =
     (case relativeName s relPath of
        Inl e \<Rightarrow> (Inl e, fs)
      | Inr name \<Rightarrow>
          if sb_ops s \<noteq> None
          then (let (r, fs') = ask_helper u s fs OpRead name [] 0 []
                in (case r of
                      Inl e \<Rightarrow> Inl e
                    | Inr out \<Rightarrow> (case Err out of Some e \<Rightarrow> Inl e | None \<Rightarrow> Inr (rs_Content out)), fs'))
          else (root_ReadFile fs (opened s) name, fs))"

definition sb_WriteFile :: "surround \<Rightarrow> Sandbox \<Rightarrow> fs \<Rightarrow> string \<Rightarrow> string \<Rightarrow> nat \<Rightarrow> gerr option \<times> fs" where
  "sb_WriteFile u s fs relPath data pm0 =
     (case relativeName s relPath of
        Inl e \<Rightarrow> (Some e, fs)
      | Inr name \<Rightarrow>
          (let pm = (if pm0 = 0 then 420 else pm0) in
           if sb_ops s \<noteq> None
           then (let (r, fs') = ask_helper u s fs OpWrite name data pm []
                 in (case r of Inl e \<Rightarrow> Some e | Inr out \<Rightarrow> Err out, fs'))
           else
             (let dir = Dir name;
                  (merr, fs1) = (if dir \<noteq> ''.'' then root_MkdirAll (su_now u) fs (opened s) dir 488 else (None, fs))
              in case merr of
                   Some e \<Rightarrow> (Some (Wrap ''create directory structure: '' e []), fs1)
                 | None \<Rightarrow> root_WriteFile (su_now u) fs1 (opened s) name data pm)))"

definition sb_Stat :: "surround \<Rightarrow> Sandbox \<Rightarrow> fs \<Rightarrow> string \<Rightarrow> EntryInfo res \<times> fs" where
  "sb_Stat u s fs relPath =
     (case relativeName s relPath of
        Inl e \<Rightarrow> (Inl e, fs)
      | Inr name \<Rightarrow>
          if sb_ops s \<noteq> None
          then (let (r, fs') = ask_helper u s fs OpStat name [] 0 []
                in (case r of
                      Inl e \<Rightarrow> Inl e
                    | Inr out \<Rightarrow>
                        (case Err out of
                           Some e \<Rightarrow> Inl e
                         | None \<Rightarrow> (case rs_Info out of
                                      None \<Rightarrow> Inl (Plain (''stat '' @ name @ '': the helper returned nothing''))
                                    | Some i \<Rightarrow> Inr i)), fs'))
          else (case root_Stat fs (opened s) name of
                  Inl e \<Rightarrow> Inl e
                | Inr n \<Rightarrow> Inr \<lparr>en_Name = Base name, en_Path = name, en_IsDir = is_dir n, en_Size = node_size n,
                             en_ModTime = mtime n\<rparr>, fs))"

definition sb_ListDir :: "surround \<Rightarrow> Sandbox \<Rightarrow> fs \<Rightarrow> string \<Rightarrow> EntryInfo list res \<times> fs" where
  "sb_ListDir u s fs relPath =
     (case relativeName s relPath of
        Inl e \<Rightarrow> (Inl e, fs)
      | Inr name \<Rightarrow>
          if sb_ops s \<noteq> None
          then (let (r, fs') = ask_helper u s fs OpList name [] 0 []
                in (case r of
                      Inl e \<Rightarrow> Inl e
                    | Inr out \<Rightarrow> (case Err out of Some e \<Rightarrow> Inl e | None \<Rightarrow> Inr (rs_Files out)), fs'))
          else (case root_ReadDir fs (opened s) name of
                  Inl e \<Rightarrow> Inl e
                | Inr entries \<Rightarrow> Inr (map (entry_info name) entries), fs))"

definition sb_DeleteFile :: "surround \<Rightarrow> Sandbox \<Rightarrow> fs \<Rightarrow> string \<Rightarrow> DeleteResult res \<times> fs" where
  "sb_DeleteFile u s fs relPath =
     (case relativeName s relPath of
        Inl e \<Rightarrow> (Inl e, fs)
      | Inr name \<Rightarrow>
          if name = ''.'' then (Inl (Plain ''cannot delete the sandbox root directory''), fs)
          else if sb_ops s \<noteq> None
          then (let (r, fs') = ask_helper u s fs OpDelete name [] 0 []
                in (case r of
                      Inl e \<Rightarrow> Inl e
                    | Inr out \<Rightarrow> (case Err out of
                                    Some e \<Rightarrow> Inl e
                                  | None \<Rightarrow> Inr \<lparr>del_Existed = rs_Existed out, del_WasDirectory = rs_WasDirectory out\<rparr>), fs'))
          else
            (let result = (case root_Lstat fs (opened s) name of
                             Inr n \<Rightarrow> \<lparr>del_Existed = True, del_WasDirectory = is_dir n\<rparr>
                           | Inl e \<Rightarrow> \<lparr>del_Existed = False, del_WasDirectory = False\<rparr>);
                 (err, fs') = root_RemoveAll fs (opened s) name
             in (case err of Some e \<Rightarrow> Inl e | None \<Rightarrow> Inr result, fs')))"

text \<open>\<open>resolveWorkDir\<close>: the directory a command runs in.\<close>

definition resolveWorkDir :: "surround \<Rightarrow> Sandbox \<Rightarrow> fs \<Rightarrow> string \<Rightarrow> string res" where
  "resolveWorkDir u s fs workDir =
     (case relativeName s workDir of
        Inl e \<Rightarrow> Inl e
      | Inr name \<Rightarrow>
          (let absPath = Join [RootDir (sb_config s), name] in
           if sb_ops s \<noteq> None
           then (case fst (sb_Stat u s fs name) of
                   Inl e \<Rightarrow> Inl (outside_err (err_text e))
                 | Inr i \<Rightarrow> if \<not> en_IsDir i then Inl (Plain (''working directory '' @ workDir @ '' is not a directory''))
                            else Inr absPath)
           else
             (case EvalSymlinks fs absPath of
                Inl e \<Rightarrow> Inl (outside_err (err_text e))
              | Inr resolved \<Rightarrow>
                  (case Rel (RootDir (sb_config s)) resolved of
                     Inl e \<Rightarrow> Inl (outside_err workDir)
                   | Inr rel \<Rightarrow> if rel = dotdot \<or> HasPrefix rel (dotdot @ [slash]) then Inl (outside_err workDir)
                                else Inr resolved))))"

end
