(* ===== verification/Uid_Pool.thy ===== *)
theory Uid_Pool imports Sandbox_Files "HOL-Library.List_Lexorder" "HOL-Library.Char_ord" begin

text \<open>
  Package \<open>internal/sandbox\<close>, file \<open>uidpool_unix.go\<close>: one user id per agent, with the owner of an
  agent's directory as the only register. A disk is a file system and an owner for every path. A
  system call can fail: \<open>os_fault\<close> is asked with its name and path before it is made, and what was
  done is returned as a trace beside the disk. Who this process is is part of \<open>os_env\<close>.
\<close>

record disk =
  dk_fs :: fs
  dk_owner :: "(string list, u32) gomap"

record os_env =
  os_euid :: u32
  os_egid :: u32
  os_fault :: "string \<Rightarrow> string \<Rightarrow> gerr option"
  os_now :: string

datatype os_act = Chmod string nat | Chown string u32 | Lchown string u32 | Mkdir string nat

definition owner_at :: "disk \<Rightarrow> string list \<Rightarrow> u32" where
  "owner_at d p = (case mget (dk_owner d) p of Some u \<Rightarrow> u | None \<Rightarrow> 0)"

definition set_owner :: "string list \<Rightarrow> u32 \<Rightarrow> disk \<Rightarrow> disk" where
  "set_owner p u d = d\<lparr>dk_owner := mset_key p u (dk_owner d)\<rparr>"

definition is_not_exist :: "gerr \<Rightarrow> bool" where
  "is_not_exist e = errors_is e ErrNotExist"

section \<open>System calls on absolute paths\<close>

definition sys_resolve :: "os_env \<Rightarrow> disk \<Rightarrow> string \<Rightarrow> string \<Rightarrow> (string list \<times> node) res" where
  "sys_resolve v d op path =
     (case os_fault v op path of
        Some e \<Rightarrow> Inl (path_error op path e)
      | None \<Rightarrow>
          (case eval_links max_links (dk_fs d) [] (root_parts path) of
             Inl e \<Rightarrow> Inl (path_error op path e)
           | Inr p \<Rightarrow>
               (case mget (dk_fs d) p of
                  None \<Rightarrow> if p = [] then Inr ([], DirN 493 [] 0) else Inl (path_error op path ErrNotExist)
                | Some n \<Rightarrow> Inr (p, n))))"

definition node_perm :: "node \<Rightarrow> nat" where
  "node_perm n = (case n of FileN _ pm _ \<Rightarrow> pm | DirN pm _ _ \<Rightarrow> pm | LinkN _ _ \<Rightarrow> 511)"

definition with_perm :: "nat \<Rightarrow> node \<Rightarrow> node" where
  "with_perm pm n = (case n of FileN c _ t \<Rightarrow> FileN c pm t | DirN _ t s \<Rightarrow> DirN pm t s | LinkN t m \<Rightarrow> LinkN t m)"

type_synonym 'a os_res = "'a \<times> os_act list \<times> disk"

definition os_Chmod :: "os_env \<Rightarrow> string \<Rightarrow> nat \<Rightarrow> disk \<Rightarrow> gerr option os_res" where
  "os_Chmod v path mode d =
     (case sys_resolve v d ''chmod'' path of
        Inl e \<Rightarrow> (Some e, [], d)
      | Inr (p, n) \<Rightarrow> (None, [Chmod path mode], d\<lparr>dk_fs := mset_key p (with_perm mode n) (dk_fs d)\<rparr>))"

definition os_Chown :: "os_env \<Rightarrow> string \<Rightarrow> u32 \<Rightarrow> disk \<Rightarrow> gerr option os_res" where
  "os_Chown v path uid d =
     (case sys_resolve v d ''chown'' path of
        Inl e \<Rightarrow> (Some e, [], d)
      | Inr (p, n) \<Rightarrow> (None, [Chown path uid], set_owner p uid d))"

text \<open>\<open>os.Lchown\<close> of a path that a walk produced: its directory is real, its last step is not followed.\<close>

definition os_Lchown :: "os_env \<Rightarrow> string \<Rightarrow> u32 \<Rightarrow> disk \<Rightarrow> gerr option os_res" where
  "os_Lchown v path uid d =
     (case os_fault v ''lchown'' path of
        Some e \<Rightarrow> (Some (path_error ''lchown'' path e), [], d)
      | None \<Rightarrow>
          (let ps = root_parts path in
           case eval_links max_links (dk_fs d) [] (butlast ps) of
             Inl e \<Rightarrow> (Some (path_error ''lchown'' path e), [], d)
           | Inr q \<Rightarrow> if ps = [] then (None, [Lchown path uid], set_owner [] uid d)
                      else if mget (dk_fs d) (q @ [last ps]) = None then (Some (path_error ''lchown'' path ErrNotExist), [], d)
                      else (None, [Lchown path uid], set_owner (q @ [last ps]) uid d)))"

definition os_Mkdir :: "os_env \<Rightarrow> string \<Rightarrow> nat \<Rightarrow> disk \<Rightarrow> gerr option os_res" where
  "os_Mkdir v path mode d =
     (case os_fault v ''mkdir'' path of
        Some e \<Rightarrow> (Some (path_error ''mkdir'' path e), [], d)
      | None \<Rightarrow>
          (let ps = root_parts path in
           case eval_links max_links (dk_fs d) [] (butlast ps) of
             Inl e \<Rightarrow> (Some (path_error ''mkdir'' path e), [], d)
           | Inr q \<Rightarrow> if ps = [] \<or> mget (dk_fs d) (q @ [last ps]) \<noteq> None
                      then (Some (path_error ''mkdir'' path (Sentinel ''file exists'')), [], d)
                      else (None, [Mkdir path mode],
                            set_owner (q @ [last ps]) (os_euid v)
                              (d\<lparr>dk_fs := mset_key (q @ [last ps]) (DirN mode (os_now v) 0) (dk_fs d)\<rparr>))))"

definition is_exist :: "gerr \<Rightarrow> bool" where
  "is_exist e = errors_is e (Sentinel ''file exists'')"

text \<open>\<open>os.MkdirAll\<close>; what it creates belongs to this process.\<close>

definition new_paths :: "fs \<Rightarrow> fs \<Rightarrow> string list list" where
  "new_paths fs fs' = filter (\<lambda>p. mget fs p = None) (map fst fs')"

definition disk_MkdirAll :: "os_env \<Rightarrow> string \<Rightarrow> nat \<Rightarrow> disk \<Rightarrow> gerr option os_res" where
  "disk_MkdirAll v path mode d =
     (case os_fault v ''mkdirall'' path of
        Some e \<Rightarrow> (Some (path_error ''mkdir'' path e), [], d)
      | None \<Rightarrow>
          (let (e, fs') = os_MkdirAll (os_now v) (dk_fs d) path mode
           in (e, [], \<lparr>dk_fs = fs', dk_owner = fold (\<lambda>p. mset_key p (os_euid v)) (new_paths (dk_fs d) fs') (dk_owner d)\<rparr>)))"

section \<open>UIDRange\<close>

definition Enabled :: "UIDRange \<Rightarrow> bool" where
  "Enabled r \<longleftrightarrow> 0 < Count r \<and> 0 < First r"

text \<open>\<open>r.First+r.Count\<close> is a 32-bit sum.\<close>

definition Contains :: "UIDRange \<Rightarrow> u32 \<Rightarrow> bool" where
  "Contains r i \<longleftrightarrow> Enabled r \<and> First r \<le> i \<and> i < First r + Count r"

definition range_Validate :: "UIDRange \<Rightarrow> gerr option" where
  "range_Validate r =
     (if \<not> Enabled r then None
      else
        (let end_id = unat (First r) + unat (Count r) in
         if 65536 < end_id
         then Some (Plain (''uid range '' @ show_nat (unat (First r)) @ [CHR 0xE2, CHR 0x80, CHR 0x93] @ show_nat (end_id - 1)
           @ '' reaches past 65536, which is what a user namespace maps into a pod; choose a lower range''))
         else if First r < 1000
         then Some (Plain (''uid range starts at '' @ show_nat (unat (First r))
           @ '', inside the ids a distribution reserves for its own users''))
         else None))"

section \<open>Claiming an id\<close>

text \<open>\<open>adoptDir\<close>.\<close>

definition adoptDir :: "os_env \<Rightarrow> string \<Rightarrow> nat \<Rightarrow> disk \<Rightarrow> gerr option os_res" where
  "adoptDir v dir mode d =
     (case sys_resolve v d ''stat'' dir of
        Inl e \<Rightarrow> (Some e, [], d)
      | Inr (p, n) \<Rightarrow>
          (let (cerr, acts, d1) = (if owner_at d p \<noteq> os_euid v then os_Chown v dir (os_euid v) d else (None, [], d))
           in case cerr of
                Some e \<Rightarrow> (Some (Wrap (''take ownership of '' @ dir @ '': '') e []), acts, d1)
              | None \<Rightarrow>
                  if node_perm n = mode then (None, acts, d1)
                  else (let (merr, acts2, d2) = os_Chmod v dir mode d1 in (merr, acts @ acts2, d2))))"

text \<open>\<open>filepath.WalkDir\<close> goes through a directory in the order of the names, a directory before
  what is in it: the lexical order of the component lists.\<close>

definition walk_below :: "fs \<Rightarrow> string list \<Rightarrow> string list list" where
  "walk_below fs p = sort (remdups (filter (\<lambda>q. below p q \<and> q \<noteq> p) (map fst fs)))"

definition walk_names :: "fs \<Rightarrow> string \<Rightarrow> string list" where
  "walk_names fs dir =
     (let ps = root_parts dir in
      case eval_links max_links fs [] (butlast ps) of
        Inl e \<Rightarrow> []
      | Inr q \<Rightarrow> (let p = (if ps = [] then q else q @ [last ps])
                  in map (\<lambda>x. render True (ps @ drop (length p) x)) (walk_below fs p)))"

fun lchown_all :: "os_env \<Rightarrow> u32 \<Rightarrow> string list \<Rightarrow> disk \<Rightarrow> gerr option os_res" where
  "lchown_all v uid [] d = (None, [], d)"
| "lchown_all v uid (path # ps) d =
     (let (err, acts, d1) = os_Lchown v path uid d in
      case err of
        Some e \<Rightarrow> (Some (Wrap (''hand '' @ path @ '' to uid '' @ show_nat (unat uid) @ '': '') e []), acts, d1)
      | None \<Rightarrow> (let (err2, acts2, d2) = lchown_all v uid ps d1 in (err2, acts @ acts2, d2)))"

definition chownTree :: "os_env \<Rightarrow> string \<Rightarrow> u32 \<Rightarrow> disk \<Rightarrow> gerr option os_res" where
  "chownTree v dir uid d =
     (let (aerr, acts1, d1) = adoptDir v dir 448 d in
      case aerr of
        Some e \<Rightarrow> (Some (Wrap ''set sandbox permissions: '' e []), acts1, d1)
      | None \<Rightarrow>
          (case os_fault v ''walk'' dir of
             Some e \<Rightarrow> (Some (Wrap ''walk the sandbox: '' e []), acts1, d1)
           | None \<Rightarrow>
               (let inner = walk_names (dk_fs d1) dir;
                    (lerr, acts2, d2) = lchown_all v uid (rev inner) d1
                in case lerr of
                     Some e \<Rightarrow> (Some e, acts1 @ acts2, d2)
                   | None \<Rightarrow>
                       (let (derr, acts3, d3) = os_Lchown v dir uid d2
                        in (case derr of
                              Some e \<Rightarrow> Some (Wrap (''hand the sandbox to uid '' @ show_nat (unat uid) @ '': '') e [])
                            | None \<Rightarrow> None,
                            acts1 @ acts2 @ acts3, d3)))))"

text \<open>The owners of the entries of \<open>agents\<close>; an entry that cannot be examined is passed over.\<close>

definition taken_ids :: "os_env \<Rightarrow> string \<Rightarrow> disk \<Rightarrow> u32 list res" where
  "taken_ids v agents d =
     (case sys_resolve v d ''open'' agents of
        Inl e \<Rightarrow> if is_not_exist e then Inr [] else Inl (Wrap ''read the sandbox root: '' e [])
      | Inr (p, n) \<Rightarrow>
          if is_dir n
          then Inr (map (\<lambda>(nm, _). owner_at d (p @ [nm])) (filter (\<lambda>(nm, _). os_fault v ''lstat'' nm = None) (children (dk_fs d) p)))
          else Inl (Wrap ''read the sandbox root: '' (path_error ''readdirent'' agents ErrNotDir) []))"

text \<open>The loop, \<open>left\<close> counting the ids still to try; the bound is the 32-bit sum.\<close>

fun scan_ids :: "nat \<Rightarrow> u32 list \<Rightarrow> u32 \<Rightarrow> u32 \<Rightarrow> u32 option" where
  "scan_ids 0 taken uid bound = None"
| "scan_ids (Suc left) taken uid bound =
     (if uid < bound then (if uid \<notin> set taken then Some uid else scan_ids left taken (uid + 1) bound) else None)"

definition nextFreeUID :: "os_env \<Rightarrow> UIDRange \<Rightarrow> string \<Rightarrow> disk \<Rightarrow> u32 res" where
  "nextFreeUID v r root d =
     (case taken_ids v (Join [root, ''agents'']) d of
        Inl e \<Rightarrow> Inl e
      | Inr taken \<Rightarrow>
          (case scan_ids (Suc (unat (Count r))) taken (First r) (First r + Count r) of
             Some uid \<Rightarrow> Inr uid
           | None \<Rightarrow> Inl (Plain (''every id in '' @ show_nat (unat (First r)) @ [CHR 0xE2, CHR 0x80, CHR 0x93]
                @ show_nat (unat (First r + Count r - 1)) @ '' is in use by an existing sandbox; widen --uid-range or reap old sandboxes''))))"

definition claim_dir :: "os_env \<Rightarrow> string \<Rightarrow> u32 \<Rightarrow> disk \<Rightarrow> u32 res \<times> os_act list \<times> disk" where
  "claim_dir v dir uid d =
     (let parent = Dir dir; (perr, a1, d1) = disk_MkdirAll v parent 493 d in
      case perr of
        Some e \<Rightarrow> (Inl (Wrap ''create the sandbox root: '' e []), a1, d1)
      | None \<Rightarrow>
          (let (aerr, a2, d2) = adoptDir v parent 493 d1 in
           case aerr of
             Some e \<Rightarrow> (Inl (Wrap ''make the sandbox root traversable: '' e []), a1 @ a2, d2)
           | None \<Rightarrow>
               (let (merr, a3, d3) = os_Mkdir v dir 448 d2;
                    bad = (case merr of Some e \<Rightarrow> \<not> is_exist e | None \<Rightarrow> False)
                in if bad then (Inl (Wrap ''create sandbox directory: '' (the merr) []), a1 @ a2 @ a3, d3)
                   else
                     (let (cerr, a4, d4) = chownTree v dir uid d3
                      in (case cerr of Some e \<Rightarrow> Inl e | None \<Rightarrow> Inr uid, a1 @ a2 @ a3 @ a4, d4)))))"

definition assignUID :: "os_env \<Rightarrow> Config \<Rightarrow> string \<Rightarrow> disk \<Rightarrow> u32 res \<times> os_act list \<times> disk" where
  "assignUID v cfg dir d =
     (if \<not> Enabled (cfg_UIDRange cfg) then (Inr 0, [], d)
      else
        (let claim = (case nextFreeUID v (cfg_UIDRange cfg) (RootDir cfg) d of
                        Inl e \<Rightarrow> (Inl e, [], d)
                      | Inr uid \<Rightarrow> claim_dir v dir uid d)
         in case sys_resolve v d ''stat'' dir of
              Inr (p, n) \<Rightarrow> if Contains (cfg_UIDRange cfg) (owner_at d p) then (Inr (owner_at d p), [], d) else claim
            | Inl e \<Rightarrow> if is_not_exist e then claim else (Inl (Wrap ''inspect sandbox directory: '' e []), [], d)))"

end
