(* ===== verification/Uid_Claims.thy ===== *)
theory Uid_Claims imports Uid_Pool begin

text \<open>
  Claiming a user id keeps the register a register: the owners of the agents' directories stay
  pairwise distinct as far as they come from the range. A file system is a \<open>tree\<close> when every entry
  hangs off a directory; \<open>register\<close> collects what the pool relies on of the \<open>agents\<close> directory.
\<close>

section \<open>Paths\<close>

lemma plain_inside: "plain_comp c \<Longrightarrow> inside c \<and> comps c = [c]"
proof -
  assume p: "plain_comp c"
  then have a: "\<not> IsAbs c" by (auto simp: plain_comp_def IsAbs_def split: list.splits)
  moreover from p have "split_on slash c = [c]" by (simp add: plain_comp_def split_on_notin)
  ultimately have c: "comps c = [c]" using p resolve_plain [of "[c]"] by (simp add: comps_def)
  with a p show ?thesis by (simp add: inside_def Clean_def render_def)
qed

lemma plain_ups: "list_all plain_comp cs \<Longrightarrow> ups_then_plain True cs"
  unfolding ups_then_plain_def by (intro exI [of _ 0] exI [of _ cs]) (simp add: list_all_iff)

lemma two_inside:
  assumes "plain_comp a" "plain_comp b" shows "inside (a @ slash # b) \<and> comps (a @ slash # b) = [a, b]"
proof -
  have n: "\<not> IsAbs (a @ slash # b)" using assms(1) by (cases a) (auto simp: plain_comp_def IsAbs_def)
  have "split_on slash (a @ slash # b) = [a, b]" using assms by (simp add: plain_comp_def split_on_append split_on_notin)
  then have c: "comps (a @ slash # b) = [a, b]" using n resolve_plain [of "[a, b]" False "[]"] assms by (simp add: comps_def)
  with n assms show ?thesis by (simp add: inside_def Clean_def render_def)
qed

lemma comps_Join3:
  assumes "IsAbs root" "plain_comp a" "plain_comp b"
  shows "Join [root, a, b] = render True (comps root @ [a, b])"
proof -
  have r: "root \<noteq> []" using assms(1) by (auto simp: IsAbs_def)
  have i: "IsAbs (root @ slash # a @ slash # b)" using assms(1) by (auto simp: IsAbs_def split: list.splits)
  from comps_below [OF assms(1) conjunct1 [OF two_inside [OF assms(2,3)]]] two_inside [OF assms(2,3)]
  have "comps (root @ slash # a @ slash # b) = comps root @ [a, b]" by simp
  with r i show ?thesis by (simp add: Clean_def)
qed

lemma Join2_render: "IsAbs root \<Longrightarrow> plain_comp a \<Longrightarrow> Join [root, a] = render True (comps root @ [a])"
  using Join_below [of root a] plain_inside [of a] Clean_def [of "Join [root, a]"] by (simp del: Join.simps)

lemma root_parts_render: "list_all plain_comp cs \<Longrightarrow> root_parts (render True cs) = cs"
proof -
  assume p: "list_all plain_comp cs"
  have "filter (\<lambda>c. c \<noteq> [] \<and> c \<noteq> ''.'') cs = cs"
    using p by (intro filter_True) (auto simp: list_all_iff plain_comp_def)
  moreover have "cs \<noteq> [] \<Longrightarrow> split_on slash (join_with [slash] cs) = cs"
    using p by (intro split_on_join) (auto simp: list_all_iff plain_comp_def)
  ultimately show ?thesis by (cases "cs = []") (simp_all add: root_parts_def render_def)
qed

lemma Dir_render:
  assumes "list_all plain_comp (cs @ [c])" shows "Dir (render True (cs @ [c])) = render True cs"
proof -
  have c: "slash \<notin> set c" using assms by (simp add: plain_comp_def)
  have j: "join_with [slash] (cs @ [c]) = (if cs = [] then c else join_with [slash] cs @ slash # c)"
    by (induction cs rule: induct_list012) simp_all
  have "dropWhile (\<lambda>d. d \<noteq> slash) (rev c @ slash # y) = slash # y" for y
    using c by (subst dropWhile_append2) auto
  then have "up_to_slash (x @ slash # c) = x @ [slash]" for x by (simp add: up_to_slash_def)
  from this [of "[]"] this [of "slash # join_with [slash] cs"]
  have u: "up_to_slash (render True (cs @ [c])) = (if cs = [] then [slash] else slash # join_with [slash] cs @ [slash])"
    by (simp add: render_def j)
  have cs: "list_all plain_comp cs" using assms by simp
  have "Clean (slash # join_with [slash] cs @ [slash]) = render True cs" if "cs \<noteq> []"
  proof -
    have "split_on slash (slash # join_with [slash] cs @ [slash]) = [] # cs @ [[]]"
      using split_on_append_join [of slash "join_with [slash] cs" "[]"] split_on_join [OF that, of slash] cs
      by (simp add: list_all_iff plain_comp_def)
    moreover have "resolve_dots True [] (cs @ [[]]) = cs"
      using resolve_append [of True "[]" cs "[[]]"] resolve_plain [of cs True "[]"] cs by (simp add: list_all_iff)
    ultimately show ?thesis by (simp add: Clean_def comps_def IsAbs_def)
  qed
  moreover have "Clean [slash] = render True []" by (simp add: Clean_def comps_def IsAbs_def)
  ultimately show ?thesis by (simp add: Dir_def u)
qed

section \<open>Trees\<close>

definition tree :: "fs \<Rightarrow> bool" where
  "tree fs \<longleftrightarrow> (\<forall>p n. mget fs p = Some n \<longrightarrow> list_all plain_comp p \<and>
     (butlast p \<noteq> [] \<longrightarrow> (\<exists>a b c. mget fs (butlast p) = Some (DirN a b c))))"

lemma tree_prefix:
  assumes "tree fs" "mget fs (p @ q) = Some n" "p \<noteq> []" "q \<noteq> []" shows "\<exists>a b c. mget fs p = Some (DirN a b c)"
  using assms(2-4)
proof (induction q arbitrary: n rule: rev_induct)
  case (snoc x q)
  then have b: "butlast (p @ q @ [x]) = p @ q" by (simp add: butlast_append)
  have "butlast (p @ q @ [x]) \<noteq> []" using b snoc.prems(2) by simp
  then have d: "\<exists>a b c. mget fs (p @ q) = Some (DirN a b c)"
    using assms(1) snoc.prems(1) b unfolding tree_def by metis
  show ?case
  proof (cases "q = []")
    case True
    with d show ?thesis by simp
  next
    case False
    with d snoc.IH snoc.prems(2) show ?thesis by blast
  qed
qed simp

lemma eval_dirs:
  assumes "\<And>i. i < length cs \<Longrightarrow> \<exists>a b c. mget fs (cur @ take (Suc i) cs) = Some (DirN a b c)" "dotdot \<notin> set cs"
  shows "eval_links links fs cur (cs @ rest) = eval_links links fs (cur @ cs) rest"
  using assms
proof (induction cs arbitrary: cur)
  case (Cons c cs)
  from Cons.prems(1) [of 0] obtain a b d where "mget fs (cur @ [c]) = Some (DirN a b d)" by auto
  moreover have "eval_links links fs (cur @ [c]) (cs @ rest) = eval_links links fs ((cur @ [c]) @ cs) rest"
    using Cons.prems(1) [of "Suc i" for i] Cons.prems(2) by (intro Cons.IH) auto
  ultimately show ?case using Cons.prems(2) by auto
qed simp

lemma eval_tree:
  assumes "tree fs" "mget fs (p @ [c]) = Some n"
  shows "eval_links links fs [] p = Inr p" and "(\<forall>t m. n \<noteq> LinkN t m) \<Longrightarrow> eval_links links fs [] (p @ [c]) = Inr (p @ [c])"
proof -
  have plain: "list_all plain_comp (p @ [c])" using assms by (auto simp: tree_def)
  have dirs: "\<exists>a b d. mget fs (take (Suc i) p) = Some (DirN a b d)" if "i < length p" for i
  proof -
    have "take (Suc i) p @ drop (Suc i) p @ [c] = p @ [c]" by (metis append_assoc append_take_drop_id)
    then have "mget fs (take (Suc i) p @ drop (Suc i) p @ [c]) = Some n" by (simp only: assms(2))
    moreover have "p \<noteq> []" using that by auto
    ultimately show ?thesis using tree_prefix [OF assms(1), of "take (Suc i) p" "drop (Suc i) p @ [c]" n] by simp
  qed
  have nd: "dotdot \<notin> set (p @ [c])" using plain by (auto simp: list_all_iff plain_comp_def)
  show "eval_links links fs [] p = Inr p" using eval_dirs [of p fs "[]" links "[]"] dirs nd by simp
  show "(\<forall>t m. n \<noteq> LinkN t m) \<Longrightarrow> eval_links links fs [] (p @ [c]) = Inr (p @ [c])"
    using eval_dirs [of p fs "[]" links "[c]"] dirs nd assms(2) by (cases n) auto
qed

section \<open>What one call touches\<close>

definition same_shape :: "fs \<Rightarrow> fs \<Rightarrow> bool" where
  "same_shape fs fs' \<longleftrightarrow> (\<forall>p. map_option (with_perm 0) (mget fs' p) = map_option (with_perm 0) (mget fs p))"

definition touches :: "(string list \<Rightarrow> bool) \<Rightarrow> disk \<Rightarrow> disk \<Rightarrow> bool" where
  "touches Q d d' \<longleftrightarrow> same_shape (dk_fs d) (dk_fs d') \<and> (\<forall>p. \<not> Q p \<longrightarrow> owner_at d' p = owner_at d p)"

lemma touches_refl [simp]: "touches Q d d"
  by (simp add: touches_def same_shape_def)

lemma touches_trans: "touches Q a b \<Longrightarrow> touches Q b c \<Longrightarrow> touches Q a c"
  by (simp add: touches_def same_shape_def)

lemma touches_weaken: "touches Q a b \<Longrightarrow> (\<And>p. Q p \<Longrightarrow> Q' p) \<Longrightarrow> touches Q' a b"
  by (auto simp: touches_def)

lemma touches_owner [simp]: "touches (\<lambda>q. q = p) d (set_owner p u d)"
  by (simp add: touches_def same_shape_def set_owner_def owner_at_def)

lemma owner_set [simp]: "owner_at (set_owner p u d) q = (if q = p then u else owner_at d q)"
  by (simp add: set_owner_def owner_at_def)

lemma dk_fs_set_owner [simp]: "dk_fs (set_owner p u d) = dk_fs d"
  by (simp add: set_owner_def)

lemma with_perm_simps [simp]:
  "with_perm a (with_perm b n) = with_perm a n" "with_perm a n = DirN x y z \<longleftrightarrow> (\<exists>w. n = DirN w y z \<and> x = a)"
  "with_perm a n = LinkN t m \<longleftrightarrow> n = LinkN t m"
  by (auto simp: with_perm_def split: node.splits)

lemma same_shapeD:
  assumes "same_shape fs fs'"
  shows "mget fs' p = None \<longleftrightarrow> mget fs p = None"
    and "(\<exists>a b c. mget fs' p = Some (DirN a b c)) \<longleftrightarrow> (\<exists>a b c. mget fs p = Some (DirN a b c))"
    and "(\<exists>t m. mget fs' p = Some (LinkN t m)) \<longleftrightarrow> (\<exists>t m. mget fs p = Some (LinkN t m))"
proof -
  from assms have e: "map_option (with_perm 0) (mget fs' p) = map_option (with_perm 0) (mget fs p)" by (simp add: same_shape_def)
  show "mget fs' p = None \<longleftrightarrow> mget fs p = None" using e by (cases "mget fs' p"; cases "mget fs p") auto
  show "(\<exists>a b c. mget fs' p = Some (DirN a b c)) \<longleftrightarrow> (\<exists>a b c. mget fs p = Some (DirN a b c))"
    using e by (cases "mget fs' p"; cases "mget fs p") (auto simp: with_perm_def split: node.splits)
  show "(\<exists>t m. mget fs' p = Some (LinkN t m)) \<longleftrightarrow> (\<exists>t m. mget fs p = Some (LinkN t m))"
    using e by (cases "mget fs' p"; cases "mget fs p") (auto simp: with_perm_def split: node.splits)
qed

lemma same_shape_tree:
  assumes "tree fs" "same_shape fs fs'" shows "tree fs'"
  unfolding tree_def
proof (intro allI impI)
  fix p n assume "mget fs' p = Some n"
  then have "mget fs p \<noteq> None" using same_shapeD(1) [OF assms(2), of p] by simp
  then obtain n' where "mget fs p = Some n'" by blast
  with assms(1) have "list_all plain_comp p \<and> (butlast p \<noteq> [] \<longrightarrow> (\<exists>a b c. mget fs (butlast p) = Some (DirN a b c)))"
    unfolding tree_def by blast
  then show "list_all plain_comp p \<and> (butlast p \<noteq> [] \<longrightarrow> (\<exists>a b c. mget fs' (butlast p) = Some (DirN a b c)))"
    using same_shapeD(2) [OF assms(2), of "butlast p"] by blast
qed

definition real_entry :: "fs \<Rightarrow> string list \<Rightarrow> bool" where
  "real_entry fs p \<longleftrightarrow> tree fs \<and> p \<noteq> [] \<and> mget fs p \<noteq> None \<and> (\<forall>t m. mget fs p \<noteq> Some (LinkN t m))"

lemma real_entry_shape: "same_shape fs fs' \<Longrightarrow> real_entry fs p \<Longrightarrow> real_entry fs' p"
  using same_shapeD(1) [of fs fs' p] same_shapeD(3) [of fs fs' p] same_shape_tree [of fs fs']
  by (simp add: real_entry_def del: not_None_eq)

lemma real_entry_touches: "touches Q d d' \<Longrightarrow> real_entry (dk_fs d) p \<Longrightarrow> real_entry (dk_fs d') p"
  using real_entry_shape by (auto simp: touches_def)

lemma entry_plain: "tree fs \<Longrightarrow> mget fs p = Some n \<Longrightarrow> list_all plain_comp p"
  by (auto simp: tree_def)

lemma resolve_real:
  assumes "real_entry (dk_fs d) p"
  shows "sys_resolve v d op (render True p) = (case os_fault v op (render True p) of
     Some e \<Rightarrow> Inl (path_error op (render True p) e) | None \<Rightarrow> Inr (p, the (mget (dk_fs d) p)))"
proof -
  obtain n where n: "tree (dk_fs d)" "mget (dk_fs d) (butlast p @ [last p]) = Some n" "\<forall>t m. n \<noteq> LinkN t m" "p \<noteq> []"
    using assms by (auto simp: real_entry_def)
  from eval_tree(2) [OF n(1,2,3)] n(4) have "eval_links max_links (dk_fs d) [] p = Inr p" by simp
  moreover have "root_parts (render True p) = p" using entry_plain [OF n(1,2)] n(4) by (intro root_parts_render) simp
  ultimately show ?thesis using n(2,4) by (simp add: sys_resolve_def split: option.split)
qed

lemma Chmod_touches:
  assumes "real_entry (dk_fs d) p" "os_Chmod v (render True p) m d = (e, a, d')"
  shows "touches (\<lambda>_. False) d d'"
proof -
  obtain n where "mget (dk_fs d) p = Some n" using assms(1) by (auto simp: real_entry_def)
  then show ?thesis using assms(2)
    by (auto simp: os_Chmod_def resolve_real [OF assms(1)] touches_def same_shape_def owner_at_def split: option.splits)
qed

lemma Chown_touches:
  assumes "real_entry (dk_fs d) p" "os_Chown v (render True p) u d = (e, a, d')"
  shows "touches (\<lambda>q. q = p) d d' \<and> owner_at d' p = (if e = None then u else owner_at d p)"
  using assms(2) by (auto simp: os_Chown_def resolve_real [OF assms(1)] split: option.splits)

lemma adoptDir_touches:
  assumes p: "real_entry (dk_fs d) p" and r: "adoptDir v (render True p) m d = (e, a, d')"
  shows "touches (\<lambda>q. q = p) d d' \<and> owner_at d' p \<in> {owner_at d p, os_euid v} \<and> (e = None \<longrightarrow> owner_at d' p = os_euid v)"
proof (cases "os_fault v ''stat'' (render True p)")
  case (Some x)
  with r show ?thesis by (auto simp: adoptDir_def resolve_real [OF p])
next
  case None
  let ?c = "if owner_at d p \<noteq> os_euid v then os_Chown v (render True p) (os_euid v) d else (None, [], d)"
  obtain ce ca d1 where c: "?c = (ce, ca, d1)" by (metis prod.collapse)
  have t1: "touches (\<lambda>q. q = p) d d1 \<and> owner_at d1 p = (if ce = None then os_euid v else owner_at d p)"
    using Chown_touches [OF p, of v "os_euid v" ce ca d1] c by (auto split: if_splits)
  note p1 = real_entry_touches [OF conjunct1 [OF t1] p]
  show ?thesis
  proof (cases ce)
    case (Some x)
    with r None c t1 show ?thesis by (auto simp: adoptDir_def resolve_real [OF p] Let_def)
  next
    case cn: None
    obtain me ma d2 where mm: "os_Chmod v (render True p) m d1 = (me, ma, d2)" by (metis prod.collapse)
    note t2 = Chmod_touches [OF p1 mm]
    have "d' = d1 \<or> d' = d2" using r None c cn mm by (auto simp: adoptDir_def resolve_real [OF p] Let_def split: if_splits)
    moreover have "touches (\<lambda>q. q = p) d d2" using touches_trans [OF conjunct1 [OF t1] touches_weaken [OF t2]] by blast
    moreover have "owner_at d2 p = owner_at d1 p" using t2 by (simp add: touches_def)
    ultimately show ?thesis using t1 cn by auto
  qed
qed

lemma Lchown_touches:
  assumes t: "tree (dk_fs d)" and e: "mget (dk_fs d) p \<noteq> None" "p \<noteq> []" and r: "os_Lchown v (render True p) u d = (err, a, d')"
  shows "touches (\<lambda>q. q = p) d d' \<and> dk_fs d' = dk_fs d \<and> owner_at d' p = (if err = None then u else owner_at d p) \<and>
    a = (if err = None then [Lchown (render True p) u] else [])"
proof -
  obtain n where n: "mget (dk_fs d) (butlast p @ [last p]) = Some n" using e by auto
  have "eval_links max_links (dk_fs d) [] (butlast p) = Inr (butlast p)" using eval_tree(1) [OF t n] by simp
  moreover have "root_parts (render True p) = p" using entry_plain [OF t n] e(2) by (intro root_parts_render) simp
  ultimately show ?thesis using r e by (auto simp: os_Lchown_def Let_def split: option.splits)
qed

lemma lchown_all_touches:
  assumes "tree (dk_fs d)" "\<forall>p\<in>set ps. mget (dk_fs d) p \<noteq> None \<and> p \<noteq> []"
    and "lchown_all v u (map (render True) ps) d = (err, a, d')"
  shows "touches (\<lambda>q. q \<in> set ps) d d' \<and> dk_fs d' = dk_fs d \<and>
    (\<exists>k\<le>length ps. a = map (\<lambda>p. Lchown (render True p) u) (take k ps) \<and> (err = None \<longrightarrow> k = length ps))"
  using assms
proof (induction ps arbitrary: d err a d')
  case (Cons p ps)
  obtain e1 a1 d1 where r1: "os_Lchown v (render True p) u d = (e1, a1, d1)" by (metis prod.collapse)
  note l = Lchown_touches [OF Cons.prems(1) _ _ r1]
  from l Cons.prems(2) have l: "touches (\<lambda>q. q = p) d d1" "dk_fs d1 = dk_fs d" "a1 = (if e1 = None then [Lchown (render True p) u] else [])"
    by auto
  show ?case
  proof (cases e1)
    case (Some x)
    with Cons.prems(3) r1 have "d' = d1 \<and> a = a1 \<and> err \<noteq> None" by auto
    with l Some touches_weaken [OF l(1), of "\<lambda>q. q \<in> set (p # ps)"] show ?thesis by auto
  next
    case None
    obtain e2 a2 d2 where r2: "lchown_all v u (map (render True) ps) d1 = (e2, a2, d2)" by (metis prod.collapse)
    with Cons.prems(3) r1 None have d: "d' = d2" "a = a1 @ a2" "err = e2" by auto
    from Cons.IH [OF _ _ r2] Cons.prems(1,2) l(2) obtain k where k: "touches (\<lambda>q. q \<in> set ps) d1 d2" "dk_fs d2 = dk_fs d1"
      "k \<le> length ps" "a2 = map (\<lambda>p. Lchown (render True p) u) (take k ps)" "e2 = None \<longrightarrow> k = length ps" by auto
    have "touches (\<lambda>q. q \<in> set (p # ps)) d d2"
      by (rule touches_trans [OF touches_weaken [OF l(1)] touches_weaken [OF k(1)]]) auto
    with l None d k show ?thesis by (auto intro!: exI [of _ "Suc k"])
  qed
qed auto

lemma mget_key: "mget m k \<noteq> None \<longleftrightarrow> k \<in> fst ` set m"
  by (induction m) auto

lemma walk_below_set: "q \<in> set (walk_below fs p) \<longleftrightarrow> below p q \<and> q \<noteq> p \<and> mget fs q \<noteq> None"
  by (auto simp: walk_below_def mget_key simp del: not_None_eq)

lemma walk_names_real:
  assumes "real_entry fs p" shows "walk_names fs (render True p) = map (render True) (walk_below fs p)"
proof -
  obtain n where n: "tree fs" "mget fs (butlast p @ [last p]) = Some n" "p \<noteq> []"
    using assms by (auto simp: real_entry_def)
  have "eval_links max_links fs [] (butlast p) = Inr (butlast p)" by (rule eval_tree(1) [OF n(1,2)])
  moreover have "root_parts (render True p) = p" using entry_plain [OF n(1,2)] n(3) by (intro root_parts_render) simp
  moreover have "p @ drop (length p) x = x" if "x \<in> set (walk_below fs p)" for x
    using that by (auto simp: walk_below_set below_iff)
  ultimately show ?thesis using n(3) by (auto simp: walk_names_def Let_def)
qed

text \<open>\<open>chownTree\<close> touches nothing outside the directory; when it succeeds the directory is the agent's.\<close>

lemma chownTree_touches:
  assumes p: "real_entry (dk_fs d) p" and r: "chownTree v (render True p) u d = (err, a, d')"
  shows "touches (below p) d d' \<and> (if err = None then owner_at d' p = u else owner_at d' p \<in> {owner_at d p, os_euid v, u}) \<and>
    (err \<noteq> None \<longrightarrow> owner_at d' p \<in> {owner_at d p, os_euid v})"
proof -
  obtain e1 a1 d1 where r1: "adoptDir v (render True p) 448 d = (e1, a1, d1)" by (metis prod.collapse)
  note t1 = adoptDir_touches [OF p r1]
  have w1: "touches (below p) d d1" by (rule touches_weaken [OF conjunct1 [OF t1]]) (simp add: below_def)
  note p1 = real_entry_touches [OF w1 p]
  show ?thesis
  proof (cases "e1 = None \<and> os_fault v ''walk'' (render True p) = None")
    case False
    then have "d' = d1 \<and> err \<noteq> None" using r r1 by (auto simp: chownTree_def split: option.splits)
    with w1 t1 show ?thesis by auto
  next
    case True
    let ?ps = "rev (walk_below (dk_fs d1) p)"
    obtain e2 a2 d2 where r2: "lchown_all v u (map (render True) ?ps) d1 = (e2, a2, d2)" by (metis prod.collapse)
    have tr: "tree (dk_fs d1)" using p1 by (simp add: real_entry_def)
    have ex: "\<forall>q\<in>set ?ps. mget (dk_fs d1) q \<noteq> None \<and> q \<noteq> []"
      using p1 by (auto simp: walk_below_set below_def real_entry_def)
    note t2 = lchown_all_touches [OF tr ex r2]
    have w2: "touches (below p) d1 d2" by (rule touches_weaken [OF conjunct1 [OF t2]]) (simp add: walk_below_set)
    have np: "p \<notin> set ?ps" by (simp add: walk_below_set)
    have o2: "owner_at d2 p = owner_at d1 p" using t2 np by (simp add: touches_def)
    obtain e3 a3 d3 where r3: "os_Lchown v (render True p) u d2 = (e3, a3, d3)" by (metis prod.collapse)
    have e: "mget (dk_fs d2) p \<noteq> None" "p \<noteq> []" "tree (dk_fs d2)" using p1 t2 by (auto simp: real_entry_def)
    note t3 = Lchown_touches [OF e(3,1,2) r3]
    have w3: "touches (below p) d2 d3" by (rule touches_weaken [OF conjunct1 [OF t3]]) (simp add: below_def)
    have names: "rev (walk_names (dk_fs d1) (render True p)) = map (render True) ?ps" by (simp add: walk_names_real [OF p1] rev_map)
    have d: "(e2 \<noteq> None \<and> d' = d2 \<and> err \<noteq> None) \<or> (e2 = None \<and> d' = d3 \<and> (err = None \<longleftrightarrow> e3 = None))"
      using r r1 True r2 r3 names by (auto simp: chownTree_def Let_def split: option.splits)
    have "touches (below p) d d2" by (rule touches_trans [OF w1 w2])
    moreover from this w3 have "touches (below p) d d3" by (rule touches_trans)
    ultimately show ?thesis using d t1 t3 o2 by auto
  qed
qed

section \<open>The register\<close>

definition register_dir :: "string list \<Rightarrow> fs \<Rightarrow> bool" where
  "register_dir A fs \<longleftrightarrow> tree fs \<and> A \<noteq> [] \<and> (\<exists>a b c. mget fs A = Some (DirN a b c)) \<and>
     (\<forall>n t m. mget fs (A @ [n]) \<noteq> Some (LinkN t m))"

definition claims_distinct :: "UIDRange \<Rightarrow> string list \<Rightarrow> disk \<Rightarrow> bool" where
  "claims_distinct r A d \<longleftrightarrow>
     (\<forall>n m. mget (dk_fs d) (A @ [n]) \<noteq> None \<and> mget (dk_fs d) (A @ [m]) \<noteq> None \<and>
        Contains r (owner_at d (A @ [n])) \<and> owner_at d (A @ [n]) = owner_at d (A @ [m]) \<longrightarrow> n = m)"

lemma register_real: "register_dir A fs \<Longrightarrow> real_entry fs A"
  by (auto simp: register_dir_def real_entry_def)

lemma register_entry: "register_dir A fs \<Longrightarrow> mget fs (A @ [n]) \<noteq> None \<Longrightarrow> real_entry fs (A @ [n])"
  by (simp add: register_dir_def real_entry_def del: not_None_eq)

lemma register_shape: "register_dir A fs \<Longrightarrow> same_shape fs fs' \<Longrightarrow> register_dir A fs'"
  using same_shape_tree [of fs fs'] same_shapeD(2) [of fs fs' A] same_shapeD(3) [of fs fs' "A @ [n]" for n]
  by (simp add: register_dir_def)

lemma mkdirs_real:
  assumes "tree fs" "mget fs (done @ cs) = Some (DirN a b c)" shows "os_mkdirs now pm done cs fs = (None, fs)"
  using assms(2)
proof (induction cs arbitrary: "done")
  case (Cons x xs)
  have d: "\<exists>a b c. mget fs (done @ [x]) = Some (DirN a b c)"
    using tree_prefix [OF assms(1), of "done @ [x]" xs] Cons.prems by (cases "xs = []") auto
  then obtain n where n: "mget fs (done @ [x]) = Some n" "\<forall>t m. n \<noteq> LinkN t m" "is_dir n" by (auto simp: is_dir_def)
  from eval_tree(2) [OF assms(1) n(1,2)] have "eval_links max_links fs [] (done @ [x]) = Inr (done @ [x])" .
  with n Cons.IH [of "done @ [x]"] Cons.prems show ?case by simp
qed simp

lemma MkdirAll_real:
  assumes "real_entry (dk_fs d) p" "mget (dk_fs d) p = Some (DirN a b c)" "disk_MkdirAll v (render True p) pm d = (e, acts, d')"
  shows "d' = d"
proof (cases "os_fault v ''mkdirall'' (render True p)")
  case None
  have "root_parts (render True p) = p" using assms(1,2) entry_plain by (intro root_parts_render) (auto simp: real_entry_def)
  with mkdirs_real [of "dk_fs d" "[]" p] assms(1,2) have "os_MkdirAll (os_now v) (dk_fs d) (render True p) pm = (None, dk_fs d)"
    by (simp add: os_MkdirAll_def real_entry_def)
  moreover have "new_paths (dk_fs d) (dk_fs d) = []" by (auto simp: new_paths_def filter_empty_conv mget_key simp flip: not_None_eq)
  ultimately show ?thesis using assms(3) None by (auto simp: disk_MkdirAll_def)
qed (use assms(3) in \<open>simp add: disk_MkdirAll_def\<close>)

lemma scan_ids_some:
  "scan_ids left taken uid bound = Some u \<Longrightarrow> u \<notin> set taken \<and> uid \<le> u \<and> u < bound"
proof (induction left taken uid bound rule: scan_ids.induct)
  case (2 left taken uid bound)
  show ?case
  proof (cases "uid < bound \<and> uid \<in> set taken")
    case True
    then have "uid < bound" by simp
    then have "uid < uid + 1" by uint_arith
    moreover have "scan_ids left taken (uid + 1) bound = Some u" using True 2(2) by simp
    ultimately show ?thesis using 2(1) True by fastforce
  qed (use 2(2) in \<open>auto split: if_splits\<close>)
qed simp

text \<open>A free id is in the range, and nobody's whose directory can be examined.\<close>

definition sane_faults :: "os_env \<Rightarrow> bool" where
  "sane_faults v \<longleftrightarrow> (\<forall>n. os_fault v ''lstat'' n = None) \<and>
     (\<forall>op p e. os_fault v op p = Some e \<longrightarrow> \<not> is_not_exist e \<and> \<not> is_exist e)"

lemma child_listed: "mget fs (A @ [n]) \<noteq> None \<Longrightarrow> \<exists>x. (n, x) \<in> set (children fs A)"
proof -
  assume "mget fs (A @ [n]) \<noteq> None"
  then obtain x where "(A @ [n], x) \<in> set fs" using mget_in_set by fastforce
  then have "(\<lambda>(p, n). (last p, n)) (A @ [n], x) \<in> set (children fs A)"
    unfolding children_def set_map by (intro imageI) simp
  then show ?thesis by auto
qed

lemma nextFree_new:
  assumes A: "register_dir A (dk_fs d)" "A = comps root @ [''agents'']" "IsAbs root"
    and v: "sane_faults v" and r: "nextFreeUID v rg root d = Inr u" "Enabled rg"
  shows "Contains rg u \<and> (\<forall>n. mget (dk_fs d) (A @ [n]) \<noteq> None \<longrightarrow> owner_at d (A @ [n]) \<noteq> u)"
proof -
  have pl: "plain_comp ''agents''" by (simp add: plain_comp_def slash_def dotdot_def)
  have j: "Join [root, ''agents''] = render True A" using Join2_render [OF A(3) pl] A(2) by simp
  obtain taken where t: "taken_ids v (render True A) d = Inr taken"
    and s: "scan_ids (Suc (unat (Count rg))) taken (First rg) (First rg + Count rg) = Some u"
    using r(1) unfolding nextFreeUID_def j by (auto split: sum.splits option.splits simp del: scan_ids.simps)
  from A(1) obtain a b c where dir: "mget (dk_fs d) A = Some (DirN a b c)" by (auto simp: register_dir_def)
  show ?thesis
  proof (cases "os_fault v ''open'' (render True A)")
    case None
    have "taken = map (\<lambda>(nm, _). owner_at d (A @ [nm])) (children (dk_fs d) A)"
      using t v dir by (simp add: taken_ids_def resolve_real [OF register_real [OF A(1)]] None is_dir_def sane_faults_def)
    then have "owner_at d (A @ [n]) \<in> set taken" if "mget (dk_fs d) (A @ [n]) \<noteq> None" for n
      using child_listed [OF that] by auto
    with scan_ids_some [OF s] r(2) show ?thesis by (auto simp: Contains_def)
  next
    case (Some e)
    with v have "\<not> is_not_exist (path_error ''open'' (render True A) e)"
      by (auto simp: sane_faults_def is_not_exist_def path_error_def)
    with Some t show ?thesis by (simp add: taken_ids_def resolve_real [OF register_real [OF A(1)]])
  qed
qed

definition others_kept :: "string list \<Rightarrow> string \<Rightarrow> disk \<Rightarrow> disk \<Rightarrow> bool" where
  "others_kept A i d d' \<longleftrightarrow> (\<forall>n. n \<noteq> i \<longrightarrow> (mget (dk_fs d') (A @ [n]) = None \<longleftrightarrow> mget (dk_fs d) (A @ [n]) = None) \<and>
     owner_at d' (A @ [n]) = owner_at d (A @ [n]))"

lemma others_trans: "others_kept A i a b \<Longrightarrow> others_kept A i b c \<Longrightarrow> others_kept A i a c"
  by (simp add: others_kept_def)

lemma touches_others:
  assumes "touches Q d d'" "\<And>n. n \<noteq> i \<Longrightarrow> \<not> Q (A @ [n])" shows "others_kept A i d d'"
  using assms same_shapeD(1) [of "dk_fs d" "dk_fs d'"] by (simp add: others_kept_def touches_def)

lemma touches_register: "touches Q d d' \<Longrightarrow> register_dir A (dk_fs d) \<Longrightarrow> register_dir A (dk_fs d')"
  using register_shape by (auto simp: touches_def)

lemma claims_distinct_step:
  assumes c: "claims_distinct r A d" and o: "others_kept A i d d'"
    and n: "mget (dk_fs d') (A @ [i]) \<noteq> None \<Longrightarrow> Contains r (owner_at d' (A @ [i])) \<Longrightarrow>
      (\<forall>n. n \<noteq> i \<and> mget (dk_fs d) (A @ [n]) \<noteq> None \<longrightarrow> owner_at d (A @ [n]) \<noteq> owner_at d' (A @ [i]))"
  shows "claims_distinct r A d'"
  unfolding claims_distinct_def
proof (intro allI impI)
  fix k m
  assume h: "mget (dk_fs d') (A @ [k]) \<noteq> None \<and> mget (dk_fs d') (A @ [m]) \<noteq> None \<and>
    Contains r (owner_at d' (A @ [k])) \<and> owner_at d' (A @ [k]) = owner_at d' (A @ [m])"
  show "k = m"
  proof (rule ccontr)
    assume km: "k \<noteq> m"
    consider "k = i" | "m = i" | "k \<noteq> i" "m \<noteq> i" by blast
    then show False
    proof cases
      case 1
      with km o h have "mget (dk_fs d) (A @ [m]) \<noteq> None" "owner_at d (A @ [m]) = owner_at d' (A @ [i])"
        by (simp_all add: others_kept_def)
      with 1 km h n show False by metis
    next
      case 2
      with km o h have "mget (dk_fs d) (A @ [k]) \<noteq> None" "owner_at d (A @ [k]) = owner_at d' (A @ [i])"
        by (simp_all add: others_kept_def)
      with 2 km h n show False by metis
    next
      case 3
      with o h have "mget (dk_fs d) (A @ [k]) \<noteq> None \<and> mget (dk_fs d) (A @ [m]) \<noteq> None \<and>
        Contains r (owner_at d (A @ [k])) \<and> owner_at d (A @ [k]) = owner_at d (A @ [m])"
        unfolding others_kept_def by metis
      with c km show False unfolding claims_distinct_def by blast
    qed
  qed
qed

lemma below_sibling: "n \<noteq> i \<Longrightarrow> \<not> below (A @ [i]) (A @ [n])"
  by (simp add: below_def)

lemma tree_new:
  assumes "tree fs" "mget fs A = Some (DirN a b c)" "plain_comp i" "mget fs (A @ [i]) = None"
  shows "tree (mset_key (A @ [i]) n fs)"
  using assms entry_plain [OF assms(1,2)] unfolding tree_def by (auto simp: butlast_append)

lemma Mkdir_register:
  assumes A: "register_dir A (dk_fs d)" and i: "plain_comp i" and v: "sane_faults v"
    and r: "os_Mkdir v (render True (A @ [i])) m d = (e, acts, d')"
  shows "register_dir A (dk_fs d') \<and> others_kept A i d d' \<and>
    (if e = None then mget (dk_fs d) (A @ [i]) = None \<and> mget (dk_fs d') (A @ [i]) \<noteq> None \<and> owner_at d' (A @ [i]) = os_euid v
     else d' = d \<and> (is_exist (the e) \<longrightarrow> mget (dk_fs d) (A @ [i]) \<noteq> None))"
proof (cases "os_fault v ''mkdir'' (render True (A @ [i]))")
  case (Some x)
  with v have "\<not> is_exist (path_error ''mkdir'' (render True (A @ [i])) x)" by (auto simp: sane_faults_def is_exist_def path_error_def)
  with Some r A show ?thesis by (auto simp: os_Mkdir_def others_kept_def)
next
  case None
  obtain a b c where dir: "mget (dk_fs d) A = Some (DirN a b c)" "tree (dk_fs d)" "A \<noteq> []" using A by (auto simp: register_dir_def)
  have pa: "list_all plain_comp A" using entry_plain [OF dir(2,1)] .
  then have rp: "root_parts (render True (A @ [i])) = A @ [i]" using i by (intro root_parts_render) simp
  have ev: "eval_links max_links (dk_fs d) [] A = Inr A"
    using eval_tree(2) [of "dk_fs d" "butlast A" "last A" "DirN a b c"] dir by simp
  show ?thesis
  proof (cases "mget (dk_fs d) (A @ [i])")
    case (Some n)
    with r None rp ev A show ?thesis by (auto simp: os_Mkdir_def Let_def others_kept_def)
  next
    case new: None
    let ?f = "mset_key (A @ [i]) (DirN m (os_now v) 0) (dk_fs d)"
    have d': "e = None \<and> dk_fs d' = ?f \<and> (\<forall>q. owner_at d' q = (if q = A @ [i] then os_euid v else owner_at d q))"
      using r None rp ev new by (auto simp: os_Mkdir_def Let_def set_owner_def owner_at_def)
    have "tree ?f" by (rule tree_new [OF dir(2,1) i new])
    moreover have "mget ?f A = Some (DirN a b c)" using dir(1) by simp
    moreover have "mget ?f (A @ [n]) \<noteq> Some (LinkN t x)" for n t x using A by (simp add: register_dir_def)
    ultimately have "register_dir A ?f" using dir(3) unfolding register_dir_def by blast
    with d' new show ?thesis by (simp add: others_kept_def)
  qed
qed

lemma claim_dir_keeps:
  assumes A: "register_dir A (dk_fs d)" and i: "plain_comp i" and v: "sane_faults v" "\<not> Contains rg (os_euid v)"
    and u: "\<forall>n. mget (dk_fs d) (A @ [n]) \<noteq> None \<longrightarrow> owner_at d (A @ [n]) \<noteq> u"
    and old: "mget (dk_fs d) (A @ [i]) = None \<or> \<not> Contains rg (owner_at d (A @ [i]))"
    and c: "claims_distinct rg A d"
    and r: "claim_dir v (render True (A @ [i])) u d = (res, acts, d')"
  shows "register_dir A (dk_fs d') \<and> claims_distinct rg A d' \<and> others_kept A i d d' \<and>
    (\<forall>x. res = Inr x \<longrightarrow> x = u \<and> mget (dk_fs d') (A @ [i]) \<noteq> None \<and> owner_at d' (A @ [i]) = u)"
proof -
  obtain a b c where dir: "mget (dk_fs d) A = Some (DirN a b c)" "tree (dk_fs d)" using A by (auto simp: register_dir_def)
  have pl: "list_all plain_comp (A @ [i])" using entry_plain [OF dir(2,1)] i by simp
  note parent = Dir_render [OF pl]
  obtain e1 a1 d1 where r1: "disk_MkdirAll v (render True A) 493 d = (e1, a1, d1)" by (metis prod.collapse)
  have d1: "d1 = d" by (rule MkdirAll_real [OF register_real [OF A] dir(1) r1])
  have fin: ?thesis if "others_kept A i d d'" "register_dir A (dk_fs d')"
    "mget (dk_fs d') (A @ [i]) = None \<or> owner_at d' (A @ [i]) = u \<or> \<not> Contains rg (owner_at d' (A @ [i]))"
    "\<forall>x. res = Inr x \<longrightarrow> x = u \<and> mget (dk_fs d') (A @ [i]) \<noteq> None \<and> owner_at d' (A @ [i]) = u"
  proof -
    have "claims_distinct rg A d'" by (rule claims_distinct_step [OF c that(1)]) (use that(3) u in auto)
    with that show ?thesis by blast
  qed
  obtain e2 a2 d2 where r2: "adoptDir v (render True A) 493 d = (e2, a2, d2)" by (metis prod.collapse)
  note t2 = conjunct1 [OF adoptDir_touches [OF register_real [OF A] r2]]
  have A2: "register_dir A (dk_fs d2)" and o2: "others_kept A i d d2" by (rule touches_register [OF t2 A], rule touches_others [OF t2]) simp
  have s2: "owner_at d2 (A @ [i]) = owner_at d (A @ [i])" "mget (dk_fs d2) (A @ [i]) = None \<longleftrightarrow> mget (dk_fs d) (A @ [i]) = None"
    using t2 same_shapeD(1) by (auto simp: touches_def)
  obtain e3 a3 d3 where r3: "os_Mkdir v (render True (A @ [i])) 448 d2 = (e3, a3, d3)" by (metis prod.collapse)
  note t3 = Mkdir_register [OF A2 i v(1) r3]
  have o3: "others_kept A i d d3" using others_trans [OF o2] t3 by blast
  consider (early) "e1 \<noteq> None" "d' = d" "\<not> is_ok res" | (adopt) "d' = d2" "\<not> is_ok res"
    | (mkdir) "e3 \<noteq> None" "d' = d3" "\<not> is_ok res"
    | (chown) e4 a4 where "e3 = None \<or> (\<exists>x. e3 = Some x \<and> is_exist x)" "chownTree v (render True (A @ [i])) u d3 = (e4, a4, d')"
        "res = (case e4 of Some e \<Rightarrow> Inl e | None \<Rightarrow> Inr u)"
  proof (cases e1)
    case (Some x)
    with r r1 d1 early show ?thesis by (auto simp: claim_dir_def parent Let_def)
  next
    case n1: None
    show ?thesis
    proof (cases e2)
      case (Some x)
      with r r1 n1 d1 r2 adopt show ?thesis by (auto simp: claim_dir_def parent Let_def)
    next
      case n2: None
      obtain e4 a4 d4 where r4: "chownTree v (render True (A @ [i])) u d3 = (e4, a4, d4)" by (metis prod.collapse)
      show ?thesis
      proof (cases "e3 \<noteq> None \<and> \<not> is_exist (the e3)")
        case True
        with r r1 n1 d1 r2 n2 r3 mkdir show ?thesis by (auto simp: claim_dir_def parent Let_def)
      next
        case False
        then have ok: "e3 = None \<or> (\<exists>x. e3 = Some x \<and> is_exist x)" by (cases e3) auto
        with r r1 n1 d1 r2 n2 r3 r4 have "d' = d4 \<and> res = (case e4 of Some e \<Rightarrow> Inl e | None \<Rightarrow> Inr u)"
          by (auto simp: claim_dir_def parent Let_def)
        with chown [OF ok, of e4 a4] r4 show ?thesis by simp
      qed
    qed
  qed
  then show ?thesis
  proof cases
    case early
    then have "\<forall>x. res \<noteq> Inr x" by auto
    with early(2) A c show ?thesis by (auto simp: others_kept_def)
  next
    case adopt
    have "\<forall>x. res \<noteq> Inr x" using adopt(2) by auto
    then show ?thesis by (intro fin) (use adopt(1) A2 o2 s2 old in auto)
  next
    case mkdir
    with t3 have "d3 = d2" by simp
    moreover have "\<forall>x. res \<noteq> Inr x" using mkdir(3) by auto
    ultimately show ?thesis by (intro fin) (use mkdir(2) A2 o2 s2 old in auto)
  next
    case (chown e4 a4)
    have ex: "mget (dk_fs d3) (A @ [i]) \<noteq> None" using t3 chown(1) by auto
    have A3: "register_dir A (dk_fs d3)" using t3 by blast
    note t4 = chownTree_touches [OF register_entry [OF A3 ex] chown(2)]
    have o: "others_kept A i d d'"
      by (rule others_trans [OF o3 touches_others [OF conjunct1 [OF t4]]]) (rule below_sibling)
    have A4: "register_dir A (dk_fs d')" by (rule touches_register [OF conjunct1 [OF t4] A3])
    have "same_shape (dk_fs d3) (dk_fs d')" using t4 by (simp add: touches_def)
    from same_shapeD(1) [OF this, of "A @ [i]"] ex have ex4: "mget (dk_fs d') (A @ [i]) \<noteq> None" by blast
    have "\<not> Contains rg (owner_at d3 (A @ [i]))"
      using t3 old s2 v(2) ex by (auto split: if_splits)
    then have "owner_at d' (A @ [i]) = u \<or> \<not> Contains rg (owner_at d' (A @ [i]))" using t4 v(2) by (auto split: if_splits)
    moreover have "\<forall>x. res = Inr x \<longrightarrow> x = u \<and> owner_at d' (A @ [i]) = u" using t4 chown(3) by (auto split: option.splits)
    ultimately show ?thesis using fin o A4 ex4 by blast
  qed
qed

text \<open>\<open>assignUID\<close> of an agent keeps the register, and gives an id of the range that the agent's
  directory has and no other.\<close>

lemma assignUID_keeps:
  assumes A: "register_dir A (dk_fs d)" "A = comps (RootDir cfg) @ [''agents'']" "IsAbs (RootDir cfg)"
    and i: "plain_comp i" and v: "sane_faults v" "\<not> Contains (cfg_UIDRange cfg) (os_euid v)"
    and c: "claims_distinct (cfg_UIDRange cfg) A d" "Enabled (cfg_UIDRange cfg)"
    and r: "assignUID v cfg (Join [RootDir cfg, ''agents'', i]) d = (res, acts, d')"
  shows "register_dir A (dk_fs d') \<and> claims_distinct (cfg_UIDRange cfg) A d' \<and> others_kept A i d d' \<and>
    (\<forall>x. res = Inr x \<longrightarrow> Contains (cfg_UIDRange cfg) x \<and> mget (dk_fs d') (A @ [i]) \<noteq> None \<and> owner_at d' (A @ [i]) = x)"
proof -
  let ?rg = "cfg_UIDRange cfg" and ?p = "render True (A @ [i])"
  have j: "Join [RootDir cfg, ''agents'', i] = ?p"
    using comps_Join3 [OF A(3) _ i, of "''agents''"] A(2) by (simp add: plain_comp_def slash_def dotdot_def)
  have same: "others_kept A i d d" by (simp add: others_kept_def)
  obtain claim where claim: "claim = (case nextFreeUID v ?rg (RootDir cfg) d of Inl e \<Rightarrow> (Inl e, [], d)
      | Inr uid \<Rightarrow> claim_dir v ?p uid d)" by blast
  have cl: ?thesis if "claim = (res, acts, d')" "mget (dk_fs d) (A @ [i]) = None \<or> \<not> Contains ?rg (owner_at d (A @ [i]))"
  proof (cases "nextFreeUID v ?rg (RootDir cfg) d")
    case (Inl e)
    with that claim A c same show ?thesis by auto
  next
    case (Inr u)
    note new = nextFree_new [OF A v(1) Inr c(2)]
    from that(1) claim Inr have "claim_dir v ?p u d = (res, acts, d')" by simp
    from claim_dir_keeps [OF A(1) i v conjunct2 [OF new] that(2) c(1) this] new show ?thesis by blast
  qed
  show ?thesis
  proof (cases "mget (dk_fs d) (A @ [i])")
    case None
    obtain a b z where dir: "tree (dk_fs d)" "mget (dk_fs d) (butlast A @ [last A]) = Some (DirN a b z)" "A \<noteq> []"
      using A(1) by (auto simp: register_dir_def)
    then have dA: "mget (dk_fs d) A = Some (DirN a b z)" by simp
    have pl: "list_all plain_comp (A @ [i])" using entry_plain [OF dir(1) dA] i by simp
    have "\<exists>a b c. mget (dk_fs d) ([] @ take (Suc k) A) = Some (DirN a b c)" if "k < length A" for k
      using tree_prefix [OF dir(1), of "take (Suc k) A" "drop (Suc k) A"] dA dir(3) that
      by (cases "drop (Suc k) A = []") auto
    moreover have "dotdot \<notin> set A" "i \<noteq> dotdot" using pl by (auto simp: list_all_iff plain_comp_def)
    ultimately have "eval_links max_links (dk_fs d) [] (A @ [i]) = Inl ErrNotExist"
      using eval_dirs [of A "dk_fs d" "[]" max_links "[i]"] None by simp
    then have ne: "eval_links max_links (dk_fs d) [] (root_parts ?p) = Inl ErrNotExist"
      using root_parts_render [OF pl] by simp
    have "(res, acts, d') = claim \<or> (\<not> is_ok res \<and> d' = d)"
      using r c(2) unfolding assignUID_def j Let_def claim [symmetric]
      by (auto simp: sys_resolve_def ne split: option.splits if_splits)
    with cl None A c same show ?thesis by auto
  next
    case (Some n)
    then have re: "real_entry (dk_fs d) (A @ [i])" using register_entry [OF A(1)] by simp
    have "(res, acts, d') = claim \<and> \<not> Contains ?rg (owner_at d (A @ [i])) \<or> (\<not> is_ok res \<and> d' = d) \<or>
        (res = Inr (owner_at d (A @ [i])) \<and> d' = d \<and> Contains ?rg (owner_at d (A @ [i])))"
      using r c(2) v(1) unfolding assignUID_def j Let_def claim [symmetric] resolve_real [OF re]
      by (auto simp: sane_faults_def is_not_exist_def path_error_def split: option.splits if_splits)
    with cl Some A c same show ?thesis by auto
  qed
qed

section \<open>The order of handing over\<close>

lemma below_le: "below (p :: string list) q \<Longrightarrow> p \<le> q"
proof -
  have "p \<le> p @ x" for x :: "string list" by (induction p) simp_all
  then show "below p q \<Longrightarrow> p \<le> q" by (auto simp: below_iff)
qed

lemma below_antisym: "below p q \<Longrightarrow> below q p \<Longrightarrow> p = q"
  by (auto simp: below_iff)

lemma rev_sorted_no_later_below:
  assumes "distinct xs" "i < j" "j < length xs" shows "\<not> below (rev (sort xs) ! i) (rev (sort xs) ! j)"
proof
  let ?ys = "rev (sort xs)"
  assume "below (?ys ! i) (?ys ! j)"
  then have "?ys ! i \<le> ?ys ! j" by (rule below_le)
  moreover have "?ys ! j \<le> ?ys ! i"
    using assms sorted_nth_mono [of "sort xs" "length xs - Suc j" "length xs - Suc i"] by (simp add: rev_nth)
  ultimately have "?ys ! i = ?ys ! j" by simp
  moreover have "distinct ?ys" using assms(1) by simp
  ultimately show False using assms by (simp add: nth_eq_iff_index_eq)
qed

text \<open>Handing a directory to an agent sets its permissions first, then gives away everything in
  it, what is inside before what holds it, and the directory itself last, so that the worker can
  still reach each entry when it gives it away; nothing outside the directory changes hands.\<close>

theorem contents_are_handed_over_first:
  assumes "real_entry (dk_fs d) p" "chownTree v (render True p) u d = (None, acts, d')"
  shows "(\<exists>pre inner. acts = pre @ map (\<lambda>q. Lchown (render True q) u) (inner @ [p]) \<and>
      set pre \<subseteq> {Chown (render True p) (os_euid v), Chmod (render True p) 448} \<and>
      set inner = {q. below p q \<and> q \<noteq> p \<and> mget (dk_fs d) q \<noteq> None} \<and>
      (\<forall>j < length (inner @ [p]). \<forall>i < j. \<not> below ((inner @ [p]) ! i) ((inner @ [p]) ! j))) \<and>
    owner_at d' p = u \<and> (\<forall>q. \<not> below p q \<longrightarrow> owner_at d' q = owner_at d q)"
proof -
  obtain e1 a1 d1 where r1: "adoptDir v (render True p) 448 d = (e1, a1, d1)" by (metis prod.collapse)
  note t1 = adoptDir_touches [OF assms(1) r1]
  note p1 = real_entry_touches [OF conjunct1 [OF t1] assms(1)]
  have ok: "e1 = None" "os_fault v ''walk'' (render True p) = None"
    using assms(2) r1 by (auto simp: chownTree_def Let_def split: option.splits)
  let ?ps = "rev (walk_below (dk_fs d1) p)"
  obtain e2 a2 d2 where r2: "lchown_all v u (map (render True) ?ps) d1 = (e2, a2, d2)" by (metis prod.collapse)
  have tr: "tree (dk_fs d1)" using p1 by (simp add: real_entry_def)
  have ex: "\<forall>q\<in>set ?ps. mget (dk_fs d1) q \<noteq> None \<and> q \<noteq> []"
    using p1 by (auto simp: walk_below_set below_def real_entry_def)
  note t2 = lchown_all_touches [OF tr ex r2]
  obtain e3 a3 d3 where r3: "os_Lchown v (render True p) u d2 = (e3, a3, d3)" by (metis prod.collapse)
  have e: "mget (dk_fs d2) p \<noteq> None" "p \<noteq> []" "tree (dk_fs d2)" using p1 t2 by (auto simp: real_entry_def)
  note t3 = Lchown_touches [OF e(3,1,2) r3]
  have names: "rev (walk_names (dk_fs d1) (render True p)) = map (render True) ?ps" by (simp add: walk_names_real [OF p1] rev_map)
  have ends: "e2 = None" "e3 = None" "acts = a1 @ a2 @ a3"
    using assms(2) r1 ok r2 r3 names by (auto simp: chownTree_def Let_def split: option.splits)
  have pre: "set a1 \<subseteq> {Chown (render True p) (os_euid v), Chmod (render True p) 448}"
    using r1 by (auto simp: adoptDir_def os_Chown_def os_Chmod_def Let_def split: sum.splits option.splits if_splits)
  have inner: "set ?ps = {q. below p q \<and> q \<noteq> p \<and> mget (dk_fs d) q \<noteq> None}"
    using t1 same_shapeD(1) [of "dk_fs d" "dk_fs d1"] by (auto simp: walk_below_set touches_def simp del: not_None_eq)
  have "\<not> below ((?ps @ [p]) ! i) ((?ps @ [p]) ! j)" if j: "j < length (?ps @ [p])" "i < j" for i j
  proof (cases "j = length ?ps")
    case True
    then have "(?ps @ [p]) ! i \<in> set ?ps" using j nth_mem [of i ?ps] by (simp add: nth_append)
    then have "below p ((?ps @ [p]) ! i)" "(?ps @ [p]) ! i \<noteq> p" by (simp_all add: walk_below_set)
    moreover have "(?ps @ [p]) ! j = p" using True by (simp add: nth_append)
    ultimately show ?thesis using below_antisym by metis
  next
    case False
    then have "j < length ?ps" using j by simp
    then show ?thesis using j rev_sorted_no_later_below [of "remdups (filter (\<lambda>q. below p q \<and> q \<noteq> p) (map fst (dk_fs d1)))" i j]
      by (simp add: nth_append walk_below_def)
  qed
  moreover have "acts = a1 @ map (\<lambda>q. Lchown (render True q) u) (?ps @ [p])"
    using t2 t3 ends by auto
  ultimately have "\<exists>pre inner. acts = pre @ map (\<lambda>q. Lchown (render True q) u) (inner @ [p]) \<and>
      set pre \<subseteq> {Chown (render True p) (os_euid v), Chmod (render True p) 448} \<and>
      set inner = {q. below p q \<and> q \<noteq> p \<and> mget (dk_fs d) q \<noteq> None} \<and>
      (\<forall>j < length (inner @ [p]). \<forall>i < j. \<not> below ((inner @ [p]) ! i) ((inner @ [p]) ! j))"
    using pre inner by (intro exI [of _ a1] exI [of _ ?ps]) auto
  moreover have "owner_at d' p = u \<and> (\<forall>q. \<not> below p q \<longrightarrow> owner_at d' q = owner_at d q)"
    using chownTree_touches [OF assms] by (simp add: touches_def)
  ultimately show ?thesis by blast
qed

definition sample_env :: os_env where
  "sample_env = \<lparr>os_euid = 100, os_egid = 100, os_fault = (\<lambda>_ _. None), os_now = ''t''\<rparr>"

definition sample_disk :: disk where
  "sample_disk = \<lparr>dk_fs = [([''s''], DirN 493 ''t'' 0), ([''s'', ''agents''], DirN 493 ''t'' 0),
       ([''s'', ''agents'', ''a''], DirN 448 ''t'' 0), ([''s'', ''agents'', ''a'', ''f''], FileN ''x'' 420 ''t'')],
     dk_owner = [([''s'', ''agents''], 100), ([''s'', ''agents'', ''a''], 2000), ([''s'', ''agents'', ''a'', ''f''], 2000)]\<rparr>"

lemma sample_tree: "tree (dk_fs sample_disk)"
  by (auto simp: tree_def sample_disk_def plain_comp_def slash_def dotdot_def split: if_splits)

lemma contents_are_handed_over_first_witness:
  "\<exists>acts d'. chownTree sample_env (render True [''s'', ''agents'', ''a'']) 2001 sample_disk = (None, acts, d') \<and>
     owner_at d' [''s'', ''agents'', ''a''] = 2001"
proof -
  let ?x = "chownTree sample_env (render True [''s'', ''agents'', ''a'']) 2001 sample_disk"
  have "fst ?x = None" by code_simp
  then obtain acts d' where x: "?x = (None, acts, d')" by (metis prod.collapse)
  have "real_entry (dk_fs sample_disk) [''s'', ''agents'', ''a'']"
    using sample_tree by (simp add: real_entry_def) (simp add: sample_disk_def)
  from contents_are_handed_over_first [OF this x] x show ?thesis by blast
qed

end
