(* ===== verification/Sandbox_Confine.thy ===== *)
theory Sandbox_Confine imports Sandbox_Files begin

text \<open>
  What confines a sandbox. A name that passes \<open>relativeName\<close> stays below the root it is joined to;
  the file operations change nothing of the machine outside the sandbox, links included; what was
  written is what is read; and the helper process gives the answers this process would give.
\<close>

section \<open>The interface\<close>

text \<open>What the file operations rely on: a name that was accepted is below the root, and is accepted
  as it is when it is handed back.\<close>

locale confinement =
  fixes resolve :: "'s \<Rightarrow> string \<Rightarrow> string res" and root :: "'s \<Rightarrow> string"
  assumes accepted_inside: "IsAbs (root s) \<Longrightarrow> resolve s p = Inr n \<Longrightarrow> inside n"
    and inside_accepted: "inside n \<Longrightarrow> resolve s n = Inr n"
    and echo_accepted: "IsAbs (root s) \<Longrightarrow> inside n \<Longrightarrow> resolve s (Join [root s, n]) = Inr n"
begin

lemma lands_below:
  "IsAbs (root s) \<Longrightarrow> resolve s p = Inr n \<Longrightarrow> comps (Join [root s, n]) = comps (root s) @ comps n"
  using Join_below accepted_inside by blast

lemma resolve_twice: "IsAbs (root s) \<Longrightarrow> resolve s p = Inr n \<Longrightarrow> resolve s n = Inr n"
  using accepted_inside inside_accepted by blast

lemma resolve_echo: "IsAbs (root s) \<Longrightarrow> resolve s p = Inr n \<Longrightarrow> resolve s (Join [root s, n]) = Inr n"
  using accepted_inside echo_accepted by blast

end

section \<open>The model provides it\<close>

lemma inside_dot: "inside ''.''"
  by (simp add: inside_def IsAbs_def slash_def Clean_def comps_def render_def)

lemma inside_no_escape: "inside n \<Longrightarrow> \<not> (n = dotdot \<or> HasPrefix n (dotdot @ [slash]))"
proof
  assume n: "inside n" and e: "n = dotdot \<or> HasPrefix n (dotdot @ [slash])"
  have "dotdot \<notin> set (comps n)" using n by (auto simp: inside_def list_all_iff plain_comp_def)
  moreover from e have "hd (split_on slash n) = dotdot"
  proof
    assume "n = dotdot"
    then show ?thesis by (simp add: dotdot_def slash_def)
  next
    assume "HasPrefix n (dotdot @ [slash])"
    then obtain r where "n = dotdot @ slash # r" by (auto simp: HasPrefix_iff)
    moreover have "slash \<notin> set dotdot" by (simp add: slash_def dotdot_def)
    ultimately show ?thesis by (simp add: split_on_append)
  qed
  moreover have "split_on slash n = (if comps n = [] then [''.''] else comps n)" by (rule inside_split [OF n])
  ultimately show False by (cases "comps n") (auto simp: dotdot_def split: if_splits)
qed

lemma relativeName_inside: "IsAbs (RootDir (sb_config s)) \<Longrightarrow> relativeName s p = Inr n \<Longrightarrow> inside n"
  using Rel_abs [of "RootDir (sb_config s)" "Clean p" n] Clean_rel_inside [of p] inside_dot
  by (auto simp: relativeName_def Let_def split: if_splits sum.splits)

lemma relativeName_self: "inside n \<Longrightarrow> relativeName s n = Inr n"
  using inside_no_escape [of n] by (auto simp: relativeName_def inside_def Let_def)

lemma common_prefix_append: "common_prefix as (as @ bs) = length as"
  by (induction as) auto

lemma Rel_below:
  assumes "IsAbs root" "inside n" shows "Rel root (Join [root, n]) = Inr n"
proof -
  note j = Join_below [OF assms]
  have c: "Clean n = n" "\<not> IsAbs n" using assms(2) by (simp_all add: inside_def)
  then have n: "n = render False (comps n)" unfolding Clean_def by simp
  show ?thesis
  proof (cases "comps n = []")
    case True
    then have "Clean root = Clean (Join [root, n])" using j(1,2) assms(1) unfolding Clean_def by (simp del: Join.simps)
    with n True show ?thesis by (simp add: Rel_def render_def del: Join.simps)
  next
    case False
    then have "Clean root \<noteq> Clean (Join [root, n])" using j(1) by (simp only: Clean_eq_iff) simp
    moreover have "join_with [slash] (comps n) = n" using n False by (simp add: render_def)
    ultimately show ?thesis
      using j(1,2) assms(1) by (simp add: Rel_def Let_def common_prefix_append del: Join.simps)
  qed
qed

lemma relativeName_echo:
  assumes "IsAbs (RootDir (sb_config s))" "inside n"
  shows "relativeName s (Join [RootDir (sb_config s), n]) = Inr n"
proof -
  let ?t = "Join [RootDir (sb_config s), n]"
  have t: "Clean ?t = ?t" "IsAbs ?t" using Join_below [OF assms] by simp_all
  then have "?t \<noteq> [] \<and> ?t \<noteq> ''.''" by (auto simp: IsAbs_def slash_def simp del: Join.simps)
  with t Rel_below [OF assms] inside_no_escape [OF assms(2)] show ?thesis
    by (simp add: relativeName_def Let_def del: Join.simps)
qed

interpretation nm: confinement relativeName "\<lambda>s. RootDir (sb_config s)"
  by unfold_locales (auto intro: relativeName_inside relativeName_self relativeName_echo simp del: Join.simps)

section \<open>The root an operation works on\<close>

definition works_on :: "Sandbox \<Rightarrow> fs \<Rightarrow> string list \<Rightarrow> bool" where
  "works_on s fs R \<longleftrightarrow>
     (if sb_ops s = None then sb_root s = Some R else OpenRoot fs (to_valid (RootDir (sb_config s))) = Inr R)"

lemma ask_helper_outside:
  "OpenRoot fs (to_valid (RootDir (sb_config s))) = Inr R \<Longrightarrow> same_outside R fs (snd (ask_helper u s fs op name data pm path))"
  using Do_outside by (simp add: ask_helper_def)

lemma WriteFile_outside:
  assumes "works_on s fs R" shows "same_outside R fs (snd (sb_WriteFile u s fs p data pm))"
proof (cases "relativeName s p")
  case (Inr name)
  show ?thesis
  proof (cases "sb_ops s")
    case None
    with assms have R: "opened s = R" by (simp add: works_on_def opened_def)
    show ?thesis
    proof (cases "Dir name = ''.''")
      case True
      then show ?thesis by (simp add: sb_WriteFile_def Inr None R Let_def same_outside_WriteFile)
    next
      case False
      obtain merr fs1 where m: "root_MkdirAll (su_now u) fs R (Dir name) 488 = (merr, fs1)" by fastforce
      with same_outside_MkdirAll [of R fs "su_now u" "Dir name" 488] have o1: "same_outside R fs fs1" by simp
      from same_outside_trans [OF o1 same_outside_WriteFile] o1 False m show ?thesis
        by (cases merr) (simp_all add: sb_WriteFile_def Inr None R Let_def)
    qed
  next
    case (Some r)
    with assms ask_helper_outside [of fs s R u OpWrite name data] show ?thesis
      by (simp add: works_on_def sb_WriteFile_def Inr Let_def split_beta)
  qed
qed (simp add: sb_WriteFile_def)

lemma DeleteFile_outside:
  assumes "works_on s fs R" shows "same_outside R fs (snd (sb_DeleteFile u s fs p))"
proof (cases "relativeName s p")
  case (Inr name)
  show ?thesis
  proof (cases "sb_ops s")
    case None
    with assms have "opened s = R" by (simp add: works_on_def opened_def)
    then show ?thesis by (simp add: sb_DeleteFile_def Inr None Let_def split_beta same_outside_RemoveAll)
  next
    case (Some r)
    with assms ask_helper_outside [of fs s R u OpDelete name] show ?thesis
      by (simp add: works_on_def sb_DeleteFile_def Inr Let_def split_beta)
  qed
qed (simp add: sb_DeleteFile_def)

lemma reads_outside:
  assumes "works_on s fs R"
  shows "same_outside R fs (snd (sb_ReadFile u s fs p))" "same_outside R fs (snd (sb_Stat u s fs p))"
    "same_outside R fs (snd (sb_ListDir u s fs p))"
  using assms ask_helper_outside [of fs s R u]
  by (auto simp: works_on_def sb_ReadFile_def sb_Stat_def sb_ListDir_def Let_def split_beta split: sum.split)

section \<open>Writing, then reading\<close>

lemma walk_after_write:
  assumes "walk links fs R follow cur todo = Inr p" "follow"
    and "mget fs (R @ p) = None \<or> (\<exists>c m t. mget fs (R @ p) = Some (FileN c m t))"
  shows "walk links (mset_key (R @ p) (FileN d pm now) fs) R follow cur todo = Inr p \<or> (todo = [] \<and> cur = p)"
  using assms
proof (induction links fs R follow cur todo rule: walk.induct)
  case (2 links fs R follow cur c cs)
  note w0 = "2.prems"(1) and rest = "2.prems"(2-3) and foll = "2.prems"(2)
  show ?case
  proof (cases "c = dotdot")
    case True
    with w0 have c: "cur \<noteq> []" and w: "walk links fs R follow (butlast cur) cs = Inr p" by (auto split: if_splits)
    from "2.IH"(1) [OF True c w rest] show ?thesis
    proof
      assume "cs = [] \<and> butlast cur = p"
      then show ?thesis using True c by simp
    qed (use True c in simp)
  next
    case False
    show ?thesis
    proof (cases "cur @ [c] = p")
      case True
      with w0 rest(2) False have "cs = []" by (auto split: if_splits)
      with True False show ?thesis by simp
    next
      case np: False
      show ?thesis
      proof (cases "mget fs (R @ cur @ [c])")
        case None
        with w0 False np show ?thesis by (auto split: if_splits)
      next
        case (Some n)
        show ?thesis
        proof (cases n)
          case (FileN x1 x2 x3)
          with w0 False np Some show ?thesis by (auto split: if_splits)
        next
          case (DirN x1 x2 x3)
          with w0 False Some have w: "walk links fs R follow (cur @ [c]) cs = Inr p" by simp
          from "2.IH"(2) [OF False Some DirN w rest] np DirN False Some show ?thesis by auto
        next
          case (LinkN t m)
          with w0 foll False Some obtain k where k: "links = Suc k" "\<not> IsAbs t" and
            w: "walk k fs R follow cur (root_parts t @ cs) = Inr p" by (auto split: if_splits nat.splits)
          have nf: "\<not> (cs = [] \<and> \<not> follow)" using foll by simp
          from "2.IH"(3) [OF False Some LinkN nf k(2,1) w rest]
          show ?thesis using LinkN False Some np k foll by auto
        qed
      qed
    qed
  qed
qed simp

lemma root_write_read:
  assumes "root_WriteFile now fs R name data pm = (None, fs')"
  shows "root_ReadFile fs' R name = Inr data"
proof -
  obtain p where l: "locate fs R True name = Inr p" using assms by (auto simp: root_WriteFile_def split: sum.splits)
  then have n: "name \<noteq> []" "\<not> IsAbs name" and w: "walk max_links fs R True [] (root_parts name) = Inr p"
    by (auto simp: locate_def split: if_splits)
  have f: "\<exists>m. fs' = mset_key (R @ p) (FileN data m now) fs"
    and b: "mget fs (R @ p) = None \<or> (\<exists>c m t. mget fs (R @ p) = Some (FileN c m t))"
    using assms l by (auto simp: root_WriteFile_def split: option.splits node.splits if_splits)
  from f obtain m where m: "fs' = mset_key (R @ p) (FileN data m now) fs" ..
  from walk_after_write [OF w TrueI b, of data m now] have "walk max_links fs' R True [] (root_parts name) = Inr p"
    unfolding m by auto
  with n have "locate fs' R True name = Inr p" by (simp add: locate_def)
  then show ?thesis by (simp add: root_ReadFile_def node_at_def m)
qed

text \<open>Writing keeps every directory and every link, so the root is found again.\<close>

definition keeps_dirs :: "fs \<Rightarrow> fs \<Rightarrow> bool" where
  "keeps_dirs fs fs' \<longleftrightarrow> (\<forall>p n. mget fs p = Some n \<longrightarrow> (\<forall>c m t. n \<noteq> FileN c m t) \<longrightarrow> mget fs' p = Some n)"

lemma keeps_refl [simp]: "keeps_dirs fs fs" and keeps_trans: "keeps_dirs a b \<Longrightarrow> keeps_dirs b c \<Longrightarrow> keeps_dirs a c"
  by (simp_all add: keeps_dirs_def)

lemma keeps_new: "mget fs p = None \<Longrightarrow> keeps_dirs fs (mset_key p n fs)"
  by (auto simp: keeps_dirs_def)

lemma keeps_mkdirs: "keeps_dirs fs (snd (mkdirs links now pm R cur todo fs))"
proof (induction links now pm R cur todo fs rule: mkdirs.induct)
  case (2 links now pm R cur c cs fs)
  show ?case
  proof (cases "c = dotdot")
    case False
    show ?thesis
    proof (cases "mget fs (R @ cur @ [c])")
      case None
      from keeps_trans [OF keeps_new [OF None] "2.IH"(2) [OF False None]] show ?thesis using False None by simp
    next
      case (Some n)
      with "2.IH"(3,4) False show ?thesis by (cases n) (auto split: nat.splits)
    qed
  qed (use "2.IH"(1) in simp)
qed simp

lemma keeps_WriteFile: "keeps_dirs fs (snd (root_WriteFile now fs R name data pm))"
  by (auto simp: root_WriteFile_def keeps_dirs_def split: sum.splits option.splits node.splits)

lemma keeps_MkdirAll: "keeps_dirs fs (snd (root_MkdirAll now fs R name pm))"
  using keeps_mkdirs [of fs max_links now pm R "[]" "root_parts name"]
  by (auto simp: root_MkdirAll_def split: prod.splits option.splits)

lemma eval_links_keeps:
  "eval_links links fs cur todo = Inr p \<Longrightarrow> keeps_dirs fs fs' \<Longrightarrow> mget fs p = Some (DirN a b c) \<or> p = [] \<Longrightarrow>
   eval_links links fs' cur todo = Inr p"
proof (induction links fs cur todo rule: eval_links.induct)
  case (2 links fs cur c cs)
  note w0 = "2.prems"(1) and rest = "2.prems"(2,3)
  show ?case
  proof (cases "c = dotdot")
    case True
    with "2.IH"(1) w0 rest show ?thesis by simp
  next
    case False
    with w0 obtain n where n: "mget fs (cur @ [c]) = Some n" by (cases "mget fs (cur @ [c])") auto
    show ?thesis
    proof (cases n)
      case (FileN x y z)
      with w0 n False have "p = cur @ [c]" by (auto split: if_splits)
      with rest(2) n FileN show ?thesis by simp
    next
      case (DirN x y z)
      then have "mget fs' (cur @ [c]) = Some n" using n rest(1) by (simp add: keeps_dirs_def)
      with "2.IH"(2) [OF False n DirN _ rest] w0 n False DirN show ?thesis by simp
    next
      case (LinkN t m)
      then have n': "mget fs' (cur @ [c]) = Some n" using n rest(1) by (simp add: keeps_dirs_def)
      from w0 n False LinkN obtain k where k: "links = Suc k" by (cases links) auto
      with "2.IH"(3) [OF False n LinkN k _ rest] w0 n n' False LinkN show ?thesis by simp
    qed
  qed
qed simp

lemma OpenRoot_keeps:
  assumes "OpenRoot fs path = Inr R" "keeps_dirs fs fs'" "mget fs R = Some (DirN a b c)" shows "OpenRoot fs' path = Inr R"
proof -
  have p: "eval_links max_links fs [] (root_parts path) = Inr R"
    using assms(1) by (auto simp: OpenRoot_def split: sum.splits option.splits node.splits if_splits)
  from eval_links_keeps [OF p assms(2), of a b c] assms(3) have "eval_links max_links fs' [] (root_parts path) = Inr R" by simp
  moreover have "mget fs' R = Some (DirN a b c)" using assms(2,3) by (simp add: keeps_dirs_def)
  ultimately show ?thesis by (simp add: OpenRoot_def)
qed

lemma op_names_valid [simp]:
  "to_valid OpRead = OpRead" "to_valid OpWrite = OpWrite" "to_valid OpList = OpList" "to_valid OpDelete = OpDelete"
  "to_valid OpStat = OpStat"
  by code_simp+

lemma op_names_differ [simp]:
  "OpWrite \<noteq> OpRead" "OpList \<noteq> OpRead" "OpDelete \<noteq> OpRead" "OpStat \<noteq> OpRead" "OpList \<noteq> OpWrite" "OpDelete \<noteq> OpWrite"
  "OpStat \<noteq> OpWrite" "OpDelete \<noteq> OpList" "OpStat \<noteq> OpList" "OpStat \<noteq> OpDelete"
  "OpRead \<noteq> OpLook" "OpWrite \<noteq> OpLook" "OpList \<noteq> OpLook" "OpDelete \<noteq> OpLook" "OpStat \<noteq> OpLook"
  by (simp_all add: sb_ops)

lemma to_valid_idem [simp]: "to_valid (to_valid s) = to_valid s"
  using to_valid_id to_valid_valid by blast

text \<open>A helper that ran does on its root what \<open>Perform\<close> does.\<close>

lemma ask_helper_ran:
  assumes "su_child u = Ran"
  shows "ask_helper u s fs op name data pm path =
    (let (r, fs') = Perform (su_exec u) (su_now u) fs (piped_request
       \<lparr>rq_Root = RootDir (sb_config s), rq_Op = op, rq_Name = name, rq_Content = data, rq_Perm = pm, rq_PathEnv = path\<rparr>)
     in (Inr (piped_response r), fs'))"
  using assms by (simp add: ask_helper_def Do_def Serve_def Let_def split_beta)

lemma to_valid_Nil_iff [simp]: "to_valid s = [] \<longleftrightarrow> s = []"
  by (cases s) (simp_all add: to_valid.simps Let_def replacement_def)

lemma failed_is_error:
  assumes "err_text e \<noteq> []" shows "Err (piped_response (failed e)) = Some (Plain (to_valid (err_text e)))"
  using assms by (simp add: Err_def piped_response_def failed_def)

lemma zero_is_ok: "Err (piped_response zeroResponse) = None"
  by (simp add: Err_def piped_response_def zeroResponse_def)

lemma path_error_text [simp]: "err_text (path_error op name e) \<noteq> []"
  by (simp add: path_error_def)

lemma MkdirAll_error: "root_MkdirAll now fs R name pm = (Some e, fs') \<Longrightarrow> err_text e \<noteq> []"
  by (auto simp: root_MkdirAll_def simp del: err_text.simps split: if_splits prod.splits option.splits)

lemma WriteFile_error: "root_WriteFile now fs R name data pm = (Some e, fs') \<Longrightarrow> err_text e \<noteq> []"
  by (auto simp: root_WriteFile_def simp del: err_text.simps split: if_splits option.splits sum.splits node.splits)

lemma perform_write_read:
  assumes "perform_write now fs R req = (r, fs')" "Err (piped_response r) = None"
  shows "root_ReadFile fs' R (rq_Name req) = Inr (rq_Content req) \<and> keeps_dirs fs fs'"
proof -
  let ?m = "if Dir (rq_Name req) \<noteq> ''.'' then root_MkdirAll now fs R (Dir (rq_Name req)) 448 else (None, fs)"
  obtain merr fs1 where m: "?m = (merr, fs1)" by fastforce
  have k: "keeps_dirs fs fs1" using keeps_MkdirAll [of fs now R "Dir (rq_Name req)" 448] m by (auto split: if_splits)
  show ?thesis
  proof (cases merr)
    case (Some e)
    then have "err_text e \<noteq> []" using m MkdirAll_error by (auto split: if_splits)
    moreover have "r = failed e" using assms(1) m Some by (simp add: perform_write_def Let_def)
    ultimately show ?thesis using assms(2) failed_is_error by simp
  next
    case None
    let ?pm = "if rq_Perm req = 0 then 384 else rq_Perm req"
    obtain werr fs2 where w: "root_WriteFile now fs1 R (rq_Name req) (rq_Content req) ?pm = (werr, fs2)" by fastforce
    have r: "r = (case werr of Some e \<Rightarrow> failed e | None \<Rightarrow> zeroResponse)" "fs' = fs2"
      using assms(1) None m w unfolding perform_write_def Let_def by (simp_all add: m)
    have "werr = None" using WriteFile_error [of now fs1 R "rq_Name req" "rq_Content req" ?pm] w r assms(2) failed_is_error
      by (cases werr) auto
    with w r show ?thesis using root_write_read [of now fs1 R "rq_Name req" "rq_Content req" ?pm fs2]
      keeps_trans [OF k] keeps_WriteFile [of fs1 now R "rq_Name req" "rq_Content req" ?pm] by simp
  qed
qed

lemma direct_write_read:
  assumes "sb_ops s = None" "relativeName s p = Inr name" "sb_WriteFile u s fs p data pm = (None, fs')"
  shows "root_ReadFile fs' (opened s) name = Inr data"
proof -
  obtain merr fs1 where m: "(if Dir name \<noteq> ''.'' then root_MkdirAll (su_now u) fs (opened s) (Dir name) 488 else (None, fs)) = (merr, fs1)"
    by fastforce
  let ?pm = "if pm = 0 then 420 else pm"
  have "merr = None \<and> root_WriteFile (su_now u) fs1 (opened s) name data ?pm = (None, fs')"
    using assms(3) unfolding sb_WriteFile_def assms(1,2) Let_def by (cases merr) (simp_all add: m)
  then show ?thesis using root_write_read by blast
qed

lemma helper_root [simp]:
  "rq_Root (piped_request r) = to_valid (rq_Root r)" "rq_Op (piped_request r) = to_valid (rq_Op r)"
  "rq_Name (piped_request r) = to_valid (rq_Name r)" "rq_Content (piped_request r) = rq_Content r"
  by (simp_all add: piped_request_def)

section \<open>The properties\<close>

text \<open>C15: a path a tool was given, once accepted, names something below the sandbox's root: below
  it component by component, with no \<open>..\<close> left, and the same name comes back when the accepted
  name, or its absolute form as \<open>pwd\<close> prints it, is given again.\<close>

theorem accepted_path_is_below_root:
  assumes "IsAbs (RootDir (sb_config s))" "relativeName s p = Inr n"
  shows "inside n \<and> comps (Join [RootDir (sb_config s), n]) = comps (RootDir (sb_config s)) @ comps n \<and>
    relativeName s n = Inr n \<and> relativeName s (Join [RootDir (sb_config s), n]) = Inr n"
  using relativeName_inside [OF assms] nm.lands_below [OF assms] nm.resolve_twice [OF assms] nm.resolve_echo [OF assms] by blast

definition sample_sandbox :: Sandbox where
  "sample_sandbox = \<lparr>sb_id = ''a'', sb_config = DefaultConfig ''/s'', sb_root = Some [''s''], sb_uid = 0, sb_ops = None,
     sb_running = [], sb_venvDone = False, sb_bus = True\<rparr>"

definition sample_fs :: fs where
  "sample_fs = [([''s''], DirN 488 ''t'' 0), ([''s'', ''out''], LinkN ''../etc'' ''t''), ([''etc''], DirN 493 ''t'' 0)]"

definition sample_surround :: surround where
  "sample_surround = \<lparr>su_child = Ran, su_exec = (\<lambda>_. None), su_now = ''t''\<rparr>"

lemma accepted_path_is_below_root_witness: "relativeName sample_sandbox ''/s/x/../a.txt'' = Inr ''a.txt'' \<and> inside ''a.txt''"
proof -
  have "IsAbs (RootDir (sb_config sample_sandbox))" by code_simp
  moreover have "relativeName sample_sandbox ''/s/x/../a.txt'' = Inr ''a.txt''" by code_simp
  ultimately show ?thesis using accepted_path_is_below_root by blast
qed

text \<open>C12: whatever path a file operation is given and however the links below the root are laid,
  nothing of the machine outside the sandbox's root changes.\<close>

theorem file_operations_stay_inside:
  assumes "works_on s fs R"
  shows "same_outside R fs (snd (sb_ReadFile u s fs p)) \<and> same_outside R fs (snd (sb_WriteFile u s fs p data pm)) \<and>
    same_outside R fs (snd (sb_Stat u s fs p)) \<and> same_outside R fs (snd (sb_ListDir u s fs p)) \<and>
    same_outside R fs (snd (sb_DeleteFile u s fs p))"
  using reads_outside [OF assms] WriteFile_outside [OF assms] DeleteFile_outside [OF assms] by blast

lemma file_operations_stay_inside_witness:
  "mget (snd (sb_WriteFile sample_surround sample_sandbox sample_fs ''out/passwd'' ''x'' 0)) [''etc'', ''passwd''] = None"
proof -
  have "works_on sample_sandbox sample_fs [''s'']" by (simp add: works_on_def sample_sandbox_def)
  from file_operations_stay_inside [OF this, of sample_surround "''out/passwd''" "''x''" 0]
  show ?thesis by (simp add: same_outside_def below_def sample_fs_def)
qed

text \<open>In this process, what a read or a stat answers depends on nothing outside the root: a
  machine that differs only there gives the same answer.\<close>

theorem reads_see_only_inside:
  assumes "sb_ops s = None" "same_inside (opened s) fs fs'"
  shows "fst (sb_ReadFile u s fs p) = fst (sb_ReadFile u s fs' p) \<and> fst (sb_Stat u s fs p) = fst (sb_Stat u s fs' p)"
  using node_at_cong [OF assms(2)] assms(1)
  by (simp add: sb_ReadFile_def sb_Stat_def root_ReadFile_def root_Stat_def split: sum.split)

lemma reads_see_only_inside_witness:
  "fst (sb_ReadFile sample_surround sample_sandbox sample_fs ''out'') =
   fst (sb_ReadFile sample_surround sample_sandbox (mset_key [''etc''] (FileN ''secret'' 0 ''t'') sample_fs) ''out'')"
  using reads_see_only_inside [of sample_sandbox sample_fs "mset_key [''etc''] (FileN ''secret'' 0 ''t'') sample_fs" sample_surround "''out''"]
  by (simp add: sample_sandbox_def opened_def same_inside_def)

text \<open>A write that reports success is read back: the next read of the same path, in whichever
  mode the sandbox runs, answers exactly the bytes written.\<close>

theorem written_is_read_back:
  assumes "su_child u = Ran" "su_child v = Ran" "works_on s fs R" "mget fs R = Some (DirN a b c)"
    and "sb_WriteFile u s fs p data pm = (None, fs')"
  shows "fst (sb_ReadFile v s fs' p) = Inr data"
proof -
  obtain name where n: "relativeName s p = Inr name" using assms(5) by (auto simp: sb_WriteFile_def split: sum.splits)
  show ?thesis
  proof (cases "sb_ops s")
    case None
    then show ?thesis using direct_write_read [OF None n assms(5)] by (simp add: sb_ReadFile_def n)
  next
    case (Some r)
    then have R: "OpenRoot fs (to_valid (RootDir (sb_config s))) = Inr R" using assms(3) by (simp add: works_on_def)
    let ?rq = "piped_request \<lparr>rq_Root = RootDir (sb_config s), rq_Op = OpWrite, rq_Name = name, rq_Content = data,
      rq_Perm = if pm = 0 then 420 else pm, rq_PathEnv = []\<rparr>"
    obtain out fs1 where w: "perform_write (su_now u) fs R ?rq = (out, fs1)" by fastforce
    then have "Err (piped_response out) = None \<and> fs1 = fs'"
      using assms(5) Some R by (simp add: sb_WriteFile_def n ask_helper_ran [OF assms(1)] Perform_def)
    with perform_write_read [OF w] have rd: "root_ReadFile fs' R (to_valid name) = Inr data" and k: "keeps_dirs fs fs'" by auto
    from rd OpenRoot_keeps [OF R k assms(4)] Some show ?thesis
      by (simp add: sb_ReadFile_def n ask_helper_ran [OF assms(2)] Perform_def piped_response_def zeroResponse_def Err_def)
  qed
qed

lemma written_is_read_back_witness:
  "\<exists>fs'. sb_WriteFile sample_surround sample_sandbox sample_fs ''d/a'' ''hi'' 0 = (None, fs') \<and>
     fst (sb_ReadFile sample_surround sample_sandbox fs' ''d/a'') = Inr ''hi''"
proof -
  let ?r = "sb_WriteFile sample_surround sample_sandbox sample_fs ''d/a'' ''hi'' 0"
  have "fst ?r = None" by code_simp
  then have w: "?r = (None, snd ?r)" by (metis prod.collapse)
  have "su_child sample_surround = Ran" by (simp add: sample_surround_def)
  moreover have "works_on sample_sandbox sample_fs [''s'']" by (simp add: works_on_def sample_sandbox_def)
  moreover have "mget sample_fs [''s''] = Some (DirN 488 ''t'' 0)" by (simp add: sample_fs_def)
  ultimately have "fst (sb_ReadFile sample_surround sample_sandbox (snd ?r) ''d/a'') = Inr ''hi''"
    using written_is_read_back w by blast
  with w show ?thesis by blast
qed

text \<open>Answers as they look from the far side of the pipe: an error is its text, an entry its piped form.\<close>

definition piped_answer :: "('a \<Rightarrow> 'b) \<Rightarrow> 'a res \<Rightarrow> string + 'b" where
  "piped_answer f r = map_sum (\<lambda>e. to_valid (err_text e)) f r"

lemma piped_answer_simps [simp]:
  "piped_answer f (Inl e) = Inl (to_valid (err_text e))" "piped_answer f (Inr a) = Inr (f a)"
  by (simp_all add: piped_answer_def)

lemma piped_entry_idem [simp]: "piped_entry (piped_entry e) = piped_entry e"
  by (simp add: piped_entry_def)

lemma relativeName_ops [simp]: "relativeName (s\<lparr>sb_ops := r\<rparr>) p = relativeName s p"
  by (simp add: relativeName_def Let_def)

lemma read_errors:
  "root_ReadFile fs R n = Inl e \<Longrightarrow> err_text e \<noteq> []" "root_Stat fs R n = Inl e \<Longrightarrow> err_text e \<noteq> []"
  "root_ReadDir fs R n = Inl e \<Longrightarrow> err_text e \<noteq> []" "root_RemoveAll fs R n = (Some e, fs') \<Longrightarrow> err_text e \<noteq> []"
  by (auto simp: root_ReadFile_def root_Stat_def root_ReadDir_def root_RemoveAll_def simp del: err_text.simps
      split: sum.splits node.splits option.splits if_splits)

lemma opened_direct: "sb_root s = Some R \<Longrightarrow> opened (s\<lparr>sb_ops := None\<rparr>) = R"
  by (simp add: opened_def)

lemmas agree_defs = opened_direct ask_helper_ran Perform_def Let_def

lemma read_agrees:
  assumes "su_child u = Ran" "sb_root s = Some R" "OpenRoot fs (to_valid (RootDir (sb_config s))) = Inr R"
    "relativeName s p = Inr n" "to_valid n = n"
  shows "piped_answer id (fst (sb_ReadFile u (s\<lparr>sb_ops := None\<rparr>) fs p)) = piped_answer id (fst (sb_ReadFile u (s\<lparr>sb_ops := Some r\<rparr>) fs p))"
proof (cases "root_ReadFile fs R n")
  case (Inl e)
  with read_errors(1) [OF Inl] show ?thesis by (simp add: sb_ReadFile_def assms agree_defs failed_is_error)
qed (simp add: sb_ReadFile_def assms agree_defs Err_def piped_response_def zeroResponse_def)

lemma stat_agrees:
  assumes "su_child u = Ran" "sb_root s = Some R" "OpenRoot fs (to_valid (RootDir (sb_config s))) = Inr R"
    "relativeName s p = Inr n" "to_valid n = n"
  shows "piped_answer piped_entry (fst (sb_Stat u (s\<lparr>sb_ops := None\<rparr>) fs p)) =
   piped_answer piped_entry (fst (sb_Stat u (s\<lparr>sb_ops := Some r\<rparr>) fs p))"
proof (cases "root_Stat fs R n")
  case (Inl e)
  with read_errors(2) [OF Inl] show ?thesis by (simp add: sb_Stat_def assms agree_defs perform_stat_def failed_is_error)
qed (simp add: sb_Stat_def assms agree_defs perform_stat_def Err_def piped_response_def zeroResponse_def)

lemma list_agrees:
  assumes "su_child u = Ran" "sb_root s = Some R" "OpenRoot fs (to_valid (RootDir (sb_config s))) = Inr R"
    "relativeName s p = Inr n" "to_valid n = n"
  shows "piped_answer (map piped_entry) (fst (sb_ListDir u (s\<lparr>sb_ops := None\<rparr>) fs p)) =
   piped_answer (map piped_entry) (fst (sb_ListDir u (s\<lparr>sb_ops := Some r\<rparr>) fs p))"
proof (cases "root_ReadDir fs R n")
  case (Inl e)
  with read_errors(3) [OF Inl] show ?thesis by (simp add: sb_ListDir_def assms agree_defs list_dir_def failed_is_error)
qed (simp add: sb_ListDir_def assms agree_defs list_dir_def Err_def piped_response_def zeroResponse_def)

lemma delete_agrees:
  assumes "su_child u = Ran" "sb_root s = Some R" "OpenRoot fs (to_valid (RootDir (sb_config s))) = Inr R"
    "relativeName s p = Inr n" "to_valid n = n"
  shows "piped_answer id (fst (sb_DeleteFile u (s\<lparr>sb_ops := None\<rparr>) fs p)) =
   piped_answer id (fst (sb_DeleteFile u (s\<lparr>sb_ops := Some r\<rparr>) fs p)) \<and>
   snd (sb_DeleteFile u (s\<lparr>sb_ops := None\<rparr>) fs p) = snd (sb_DeleteFile u (s\<lparr>sb_ops := Some r\<rparr>) fs p)"
proof -
  obtain err fs1 where d: "root_RemoveAll fs R n = (err, fs1)" by fastforce
  show ?thesis
  proof (cases err)
    case None
    show ?thesis
      by (cases "root_Lstat fs R n")
        (simp_all add: sb_DeleteFile_def assms agree_defs perform_delete_def d None Err_def piped_response_def zeroResponse_def)
  next
    case (Some e)
    from read_errors(4) [OF d [unfolded Some]] Some d show ?thesis
      by (simp add: sb_DeleteFile_def assms agree_defs perform_delete_def failed_is_error)
  qed
qed

text \<open>C17: running as its own user changes nothing an agent sees: with the same root, reading,
  describing, listing and deleting through the helper answer what this process would answer, an
  error by its text.\<close>

theorem helper_answers_as_this_process:
  assumes "su_child u = Ran" "sb_root s = Some R" "OpenRoot fs (to_valid (RootDir (sb_config s))) = Inr R"
    "relativeName s p = Inr n" "to_valid n = n" "here = s\<lparr>sb_ops := None\<rparr>" "there = s\<lparr>sb_ops := Some r\<rparr>"
  shows "piped_answer id (fst (sb_ReadFile u here fs p)) = piped_answer id (fst (sb_ReadFile u there fs p)) \<and>
    piped_answer piped_entry (fst (sb_Stat u here fs p)) = piped_answer piped_entry (fst (sb_Stat u there fs p)) \<and>
    piped_answer (map piped_entry) (fst (sb_ListDir u here fs p)) = piped_answer (map piped_entry) (fst (sb_ListDir u there fs p)) \<and>
    piped_answer id (fst (sb_DeleteFile u here fs p)) = piped_answer id (fst (sb_DeleteFile u there fs p)) \<and>
    snd (sb_DeleteFile u here fs p) = snd (sb_DeleteFile u there fs p)"
  using read_agrees [OF assms(1-5)] stat_agrees [OF assms(1-5)] list_agrees [OF assms(1-5)] delete_agrees [OF assms(1-5)]
  unfolding assms(6,7) by blast

definition sample_runner :: Runner where "sample_runner = \<lparr>Exe = ''/w'', Args = [], Timeout = 30\<rparr>"

lemma helper_answers_as_this_process_witness:
  "piped_answer id (fst (sb_ReadFile sample_surround (sample_sandbox\<lparr>sb_ops := None\<rparr>) sample_fs ''out'')) =
   piped_answer id (fst (sb_ReadFile sample_surround (sample_sandbox\<lparr>sb_ops := Some sample_runner\<rparr>) sample_fs ''out''))"
proof -
  have "su_child sample_surround = Ran" "sb_root sample_sandbox = Some [''s'']"
    by (simp_all add: sample_surround_def sample_sandbox_def)
  moreover have "OpenRoot sample_fs (to_valid (RootDir (sb_config sample_sandbox))) = Inr [''s'']" by code_simp
  moreover have "relativeName sample_sandbox ''out'' = Inr ''out''" "to_valid ''out'' = ''out''" by code_simp+
  ultimately show ?thesis using helper_answers_as_this_process by blast
qed

end
