(* ===== verification/Sandbox_Pump.thy ===== *)
theory Sandbox_Pump imports Sandbox_Config Stream_Ring begin

text \<open>
  Package \<open>internal/sandbox\<close>, \<open>pump\<close> of \<open>sandbox.go\<close>: turning what a pipe delivers into events. A
  pipe is the list of the byte chunks its reads return before end of file, the last of which may
  come with it. What \<open>pump\<close> relies on in \<open>procexec.SplitCompleteRunes\<close> is the locale \<open>splitter\<close>.
\<close>

section \<open>The interface\<close>

locale splitter =
  fixes split :: "string \<Rightarrow> string \<times> string"
  assumes nothing_lost: "fst (split b) @ snd (split b) = b"
    and short_tail: "length (snd (split b)) < 4"
    and at_boundary: "whole_text cs \<Longrightarrow> p @ r = concat cs \<Longrightarrow>
      \<exists>k\<le>length cs. fst (split p) = concat (take k cs) \<and>
        (snd (split p) = [] \<or> (k < length cs \<and> (\<exists>r'. r' \<noteq> [] \<and> cs ! k = snd (split p) @ r')))"

section \<open>The loop\<close>

fun pump_chunks :: "(string \<Rightarrow> string \<times> string) \<Rightarrow> string list \<Rightarrow> string \<Rightarrow> string list" where
  "pump_chunks split [] carry = (if carry \<noteq> [] then [carry] else [])"
| "pump_chunks split (b # bs) carry =
     (if b = [] then pump_chunks split bs carry
      else (let (emit, tail) = split (carry @ b)
            in (if emit \<noteq> [] then [emit] else []) @ pump_chunks split bs tail))"

definition pump :: "EventKind \<Rightarrow> string \<Rightarrow> string list \<Rightarrow> CappedBuffer \<Rightarrow> Event list \<times> CappedBuffer" where
  "pump kind execID reads sink =
     (map (\<lambda>d. zeroEvent\<lparr>Kind := kind, ExecID := execID, Data := d\<rparr>) (pump_chunks SplitCompleteRunes reads []),
      write_all sink (filter (\<lambda>b. b \<noteq> []) reads))"

context splitter begin

lemma nothing_lost_pair: "split b = (e, t) \<Longrightarrow> e @ t = b"
  using nothing_lost [of b] by simp

lemma chunks_concat: "concat (pump_chunks split bs carry) = carry @ concat bs"
proof (induction bs arbitrary: carry)
  case (Cons b bs)
  obtain e t where s: "split (carry @ b) = (e, t)" by fastforce
  with nothing_lost_pair [OF s] Cons.IH [of t] Cons.IH [of carry] show ?case by (auto simp flip: append_assoc)
qed simp

lemma chunks_nonempty: "[] \<notin> set (pump_chunks split bs carry)"
  by (induction bs arbitrary: carry) (auto split: prod.splits)

lemma chunks_bounded:
  "\<forall>b\<in>set bs. length b \<le> n \<Longrightarrow> length carry \<le> 3 \<Longrightarrow> d \<in> set (pump_chunks split bs carry) \<Longrightarrow> length d \<le> n + 3"
proof (induction bs arbitrary: carry)
  case (Cons b bs)
  obtain e t where s: "split (carry @ b) = (e, t)" by fastforce
  have "length e + length t = length carry + length b" using arg_cong [OF nothing_lost_pair [OF s], of length] by simp
  moreover have "length b \<le> n" using Cons.prems(1) by simp
  ultimately have e: "length e \<le> n + 3" using Cons.prems(2) by linarith
  have t: "length t \<le> 3" using short_tail [of "carry @ b"] s by simp
  show ?case
  proof (cases "b = []")
    case True
    with Cons show ?thesis by simp
  next
    case False
    with Cons.prems(3) s have "d = e \<or> d \<in> set (pump_chunks split bs t)" by (auto split: if_splits)
    with Cons.IH [of t] Cons.prems(1) t e show ?thesis by auto
  qed
qed (auto split: if_splits)

text \<open>However the reads cut it, a text of whole characters is published in whole characters.\<close>

lemma chunks_whole:
  assumes "whole_text cs" "carry @ concat bs = concat cs"
  shows "\<exists>gs. pump_chunks split bs carry = map concat gs \<and> concat gs = cs"
  using assms
proof (induction bs arbitrary: carry cs)
  case Nil
  show ?case
  proof (cases "carry = []")
    case True
    with Nil have "\<forall>c\<in>set cs. c = []" by simp
    moreover have "\<forall>c\<in>set cs. c \<noteq> []" using Nil(1) by (auto simp: whole_text_def list_all_iff whole_char_def)
    ultimately have "cs = []" by (cases cs) auto
    with True show ?thesis by (intro exI [of _ "[]"]) simp
  next
    case False
    with Nil show ?thesis by (intro exI [of _ "[cs]"]) simp
  qed
next
  case (Cons b bs)
  show ?case
  proof (cases "b = []")
    case True
    with Cons show ?thesis by simp
  next
    case False
    obtain e t where s: "split (carry @ b) = (e, t)" by fastforce
    have "(carry @ b) @ concat bs = concat cs" using Cons.prems(2) by simp
    from at_boundary [OF Cons.prems(1) this] s obtain k where k: "k \<le> length cs" "e = concat (take k cs)" by auto
    have "e @ t @ concat bs = concat (take k cs) @ concat (drop k cs)"
      unfolding append_assoc [symmetric, of e] nothing_lost_pair [OF s]
      using Cons.prems(2) by (simp flip: concat_append)
    then have "t @ concat bs = concat (drop k cs)" using k(2) by simp
    moreover have "whole_text (drop k cs)" using Cons.prems(1) by (auto simp: whole_text_def list_all_iff dest: in_set_dropD)
    ultimately obtain gs where gs: "pump_chunks split bs t = map concat gs" "concat gs = drop k cs"
      using Cons.IH by blast
    show ?thesis
    proof (cases "e = []")
      case True
      have "take k cs = []"
      proof (rule ccontr)
        assume "take k cs \<noteq> []"
        then obtain c where "c \<in> set (take k cs)" by (cases "take k cs") auto
        moreover from this True k(2) have "c = []" by simp
        ultimately have "[] \<in> set cs" by (auto dest: in_set_takeD)
        with Cons.prems(1) have "whole_char []" by (simp add: whole_text_def list_all_iff)
        then show False by (simp add: whole_char_def)
      qed
      then have "drop k cs = cs" by (metis append_Nil append_take_drop_id)
      with gs s False True show ?thesis by auto
    next
      case e: False
      have "pump_chunks split (b # bs) carry = map concat (take k cs # gs)" using gs s False e k(2) by simp
      moreover have "concat (take k cs # gs) = cs" using gs(2) by simp
      ultimately show ?thesis by blast
    qed
  qed
qed

end

interpretation runes: splitter SplitCompleteRunes
proof unfold_locales
  fix b show "fst (SplitCompleteRunes b) @ snd (SplitCompleteRunes b) = b" by (rule split_append)
  show "length (snd (SplitCompleteRunes b)) < 4" by (rule split_carry_short)
next
  fix cs p r
  assume "whole_text cs" "p @ r = concat cs"
  then show "\<exists>k\<le>length cs. fst (SplitCompleteRunes p) = concat (take k cs) \<and>
      (snd (SplitCompleteRunes p) = [] \<or> (k < length cs \<and> (\<exists>r'. r' \<noteq> [] \<and> cs ! k = snd (SplitCompleteRunes p) @ r')))"
    using split_prefix by metis
qed

lemma pump_data: "map Data (fst (pump k i reads sink)) = pump_chunks SplitCompleteRunes reads []"
  by (simp add: pump_def comp_def)

lemma pump_kind: "e \<in> set (fst (pump k i reads sink)) \<Longrightarrow> Kind e = k \<and> ExecID e = i"
  by (auto simp: pump_def)

lemma concat_nonempty: "concat (filter (\<lambda>b. b \<noteq> []) bs) = concat bs"
  by (induction bs) auto

text \<open>What a watcher is shown of one stream is all of it, in order, in events no larger than a
  read and a held-back character; and when the program writes whole characters, no event ever
  carries a piece of one, wherever the reads cut the stream. The buffer gets the same bytes.\<close>

theorem live_output_is_faithful:
  assumes "\<forall>b\<in>set reads. length b \<le> ChunkSize"
  shows "concat (map Data (fst (pump kind i reads sink))) = concat reads \<and>
    (\<forall>e\<in>set (fst (pump kind i reads sink)). Kind e = kind \<and> ExecID e = i \<and> Data e \<noteq> [] \<and> length (Data e) \<le> ChunkSize + 3) \<and>
    (\<forall>cs. whole_text cs \<and> concat reads = concat cs \<longrightarrow>
       (\<exists>gs. map Data (fst (pump kind i reads sink)) = map concat gs \<and> concat gs = cs)) \<and>
    snd (pump kind i reads sink) = write_all sink (filter (\<lambda>b. b \<noteq> []) reads)"
proof -
  have ev: "Data e \<in> set (pump_chunks SplitCompleteRunes reads [])" if "e \<in> set (fst (pump kind i reads sink))" for e
    using that by (simp flip: pump_data [of kind i reads sink])
  have "Kind e = kind \<and> ExecID e = i \<and> Data e \<noteq> [] \<and> length (Data e) \<le> ChunkSize + 3"
    if "e \<in> set (fst (pump kind i reads sink))" for e
    using runes.chunks_bounded [OF assms _ ev [OF that]] ev [OF that] pump_kind [OF that] runes.chunks_nonempty [of reads "[]"] by auto
  moreover have "\<exists>gs. map Data (fst (pump kind i reads sink)) = map concat gs \<and> concat gs = cs"
    if "whole_text cs \<and> concat reads = concat cs" for cs
    using runes.chunks_whole [of cs "[]" reads] that by (simp add: pump_data)
  ultimately show ?thesis by (simp add: pump_data runes.chunks_concat) (simp add: pump_def)
qed

lemma live_output_is_faithful_witness:
  "\<exists>gs. map Data (fst (pump EventStdout ''x'' [''a'' @ [CHR 0xC3], [CHR 0xA9]] (NewCappedBuffer 1))) = map concat gs \<and>
     concat gs = [''a'', [CHR 0xC3, CHR 0xA9]]"
proof -
  have "\<forall>b\<in>set [''a'' @ [CHR 0xC3], [CHR 0xA9]]. length b \<le> ChunkSize" by (simp add: ChunkSize_def)
  moreover have "whole_text [''a'', [CHR 0xC3, CHR 0xA9]] \<and>
      concat [''a'' @ [CHR 0xC3], [CHR 0xA9]] = concat [''a'', [CHR 0xC3, CHR 0xA9]]" by code_simp
  ultimately show ?thesis using live_output_is_faithful by blast
qed

end
