(* ===== verification/Sandbox_Exec.thy ===== *)
theory Sandbox_Exec imports Sandbox_Confine Sandbox_Pump begin

text \<open>
  Package \<open>internal/sandbox\<close>: running a command (\<open>ExecCommand\<close>, \<open>KillAll\<close> and \<open>GetStatus\<close> of
  \<open>sandbox.go\<close>) and the Python environment (\<open>venv.go\<close>). The two pumps run as goroutines: the order
  their events meet in is an argument, a list of choices. What the operating system, the started
  process and the context answer is the record \<open>exec_world\<close>; the processes started, the events
  published and the changes of the running set are the trace the operation returns.
\<close>

section \<open>\<open>time.Duration.String\<close>\<close>

definition pad_digits :: "nat \<Rightarrow> nat \<Rightarrow> string" where
  "pad_digits n v = concat (map (\<lambda>i. show_nat (v div 10 ^ i mod 10)) (rev [0..<n]))"

fun drop_zeros :: "string \<Rightarrow> string" where
  "drop_zeros [] = []"
| "drop_zeros (c # cs) = (let r = drop_zeros cs in if r = [] \<and> c = CHR ''0'' then [] else c # r)"

definition with_fraction :: "nat \<Rightarrow> nat \<Rightarrow> string" where
  "with_fraction prec v =
     (let f = drop_zeros (pad_digits prec (v mod 10 ^ prec))
      in show_nat (v div 10 ^ prec) @ (if f = [] then [] else CHR ''.'' # f))"

definition duration_text :: "int \<Rightarrow> string" where
  "duration_text d =
     (let u = nat (abs d);
          body = (if u = 0 then ''0s''
                  else if u < 1000 then show_nat u @ ''ns''
                  else if u < 1000000 then with_fraction 3 u @ [CHR 0xC2, CHR 0xB5] @ ''s''
                  else if u < 1000000000 then with_fraction 6 u @ ''ms''
                  else
                    (let s = u div 1000000000; m = s div 60; h = m div 60;
                         sec = with_fraction 9 (s mod 60 * 1000000000 + u mod 1000000000) @ ''s''
                     in if m = 0 then sec
                        else if h = 0 then show_nat m @ ''m'' @ sec
                        else show_nat h @ ''h'' @ show_nat (m mod 60) @ ''m'' @ sec))
      in (if d < 0 then ''-'' else []) @ body)"

lemma duration_examples:
  "duration_text (30 * second) = ''30s''" "duration_text (90 * second) = ''1m30s''"
  "duration_text 1500000000 = ''1.5s''" "duration_text (2 * 3600 * second) = ''2h0m0s''" "duration_text 1100000 = ''1.1ms''"
  by (simp_all add: duration_text_def with_fraction_def pad_digits_def second_def Let_def upt_rec_numeral upt_rec [of 0]
      upt_rec [of "Suc 0"] show_nat.simps char_of_def bit_Suc_0_iff flip: numeral_2_eq_2)

section \<open>Traces\<close>

record spawned =
  sp_path :: string
  sp_args :: "string list"
  sp_dir :: string
  sp_env :: "string list"
  sp_attr :: "sys_proc_attr option"

datatype sb_effect =
    Start spawned
  | Publishes Event
  | Tracks string
  | Untracks string
  | Cancels string

definition publish :: "Sandbox \<Rightarrow> int \<Rightarrow> Event \<Rightarrow> sb_effect list" where
  "publish s now e = (if sb_bus s then [Publishes (e\<lparr>SandboxID := sb_id s, At := now\<rparr>)] else [])"

definition trackRunning :: "string \<Rightarrow> Sandbox \<Rightarrow> Sandbox" where
  "trackRunning i s = s\<lparr>sb_running := (if i \<in> set (sb_running s) then sb_running s else sb_running s @ [i])\<rparr>"

definition untrackRunning :: "string \<Rightarrow> Sandbox \<Rightarrow> Sandbox" where
  "untrackRunning i s = s\<lparr>sb_running := filter (\<lambda>j. j \<noteq> i) (sb_running s)\<rparr>"

definition RunningCommands :: "Sandbox \<Rightarrow> nat" where
  "RunningCommands s = length (sb_running s)"

text \<open>The Cancel hook of a command: the pid is known once the process is started.\<close>

definition exec_Cancel :: "int option \<Rightarrow> (nat \<Rightarrow> errno option) \<Rightarrow> errno option \<times> kill_act list" where
  "exec_Cancel process answer = (case process of None \<Rightarrow> (None, []) | Some pid \<Rightarrow> KillGroup pid answer)"

section \<open>venv.go\<close>

definition venvBinDir :: "Sandbox \<Rightarrow> string" where
  "venvBinDir s =
     (if VenvDir (sb_config s) = [] then [] else Join [RootDir (sb_config s), VenvDir (sb_config s), ''bin''])"

fun first_program :: "stat_fun \<Rightarrow> string list \<Rightarrow> string list \<Rightarrow> string option" where
  "first_program stat env [] = None"
| "first_program stat env (c # cs) =
     (if c = [] then first_program stat env cs
      else case lookProgram stat c env of Inr r \<Rightarrow> Some r | Inl e \<Rightarrow> first_program stat env cs)"

definition pythonProgram :: "(string \<Rightarrow> string option) \<Rightarrow> stat_fun \<Rightarrow> Sandbox \<Rightarrow> string res" where
  "pythonProgram look stat s =
     (let cfg = sb_config s;
          candidates = (if PythonProgram cfg = [] then [''python3'', ''python''] else [PythonProgram cfg]);
          env = buildEnv look cfg (RootDir cfg) []
      in case first_program stat env candidates of
           Some r \<Rightarrow> Inr r
         | None \<Rightarrow> Inl (Plain (''no Python interpreter on the sandbox's PATH (looked for ['' @ join_with '' '' candidates @ ''])'')))"

text \<open>\<open>ended\<close> is how the interpreter ended, with what it printed.\<close>

definition createVenv :: "(string \<Rightarrow> string option) \<Rightarrow> stat_fun \<Rightarrow> Sandbox \<Rightarrow> (gerr \<times> string) option \<Rightarrow> gerr option \<times> sb_effect list" where
  "createVenv look stat s ended =
     (case pythonProgram look stat s of
        Inl e \<Rightarrow> (Some e, [])
      | Inr python \<Rightarrow>
          (let cfg = sb_config s;
               cmd = \<lparr>sp_path = python, sp_args = [''-m'', ''venv'', VenvDir cfg], sp_dir = RootDir cfg,
                      sp_env = buildEnv look cfg (RootDir cfg) [], sp_attr = DropTo (Configure None) (sb_uid s)\<rparr>
           in (case ended of
                 None \<Rightarrow> None
               | Some (e, output) \<Rightarrow> Some (Wrap (''create '' @ VenvDir cfg @ '' with '' @ python @ '': '') e ('': '' @ output)),
               [Start cmd])))"

text \<open>A failure is only logged, so it does not show in the result.\<close>

definition ensureVenv :: "(string \<Rightarrow> string option) \<Rightarrow> stat_fun \<Rightarrow> (gerr \<times> string) option \<Rightarrow> Sandbox \<Rightarrow> Sandbox \<times> sb_effect list" where
  "ensureVenv look stat ended s =
     (if VenvDir (sb_config s) = [] \<or> sb_venvDone s then (s, [])
      else (s\<lparr>sb_venvDone := True\<rparr>, snd (createVenv look stat s ended)))"

fun last_PATH :: "string \<Rightarrow> string list \<Rightarrow> string" where
  "last_PATH path [] = path"
| "last_PATH path (e # es) =
     (let (value, ok) = CutPrefix e ''PATH='' in last_PATH (if ok then value else path) es)"

definition lookProgramForAgent :: "surround \<Rightarrow> stat_fun \<Rightarrow> Sandbox \<Rightarrow> fs \<Rightarrow> string \<Rightarrow> string list \<Rightarrow> string res" where
  "lookProgramForAgent u stat s fs program env =
     (if sb_ops s = None then lookProgram stat program env
      else
        (let path = last_PATH [] env in
         case fst (ask_helper u s fs OpLook program [] 0 path) of
           Inl e \<Rightarrow> Inl e
         | Inr out \<Rightarrow>
             (case Err out of
                Some e \<Rightarrow> Inl (Wrap (quoted program @ '' not found in PATH ('' @ path @ ''): '') e [])
              | None \<Rightarrow> Inr (rs_Program out))))"

section \<open>ExecCommand\<close>

datatype ctx_end = CtxLive | CtxDeadline | CtxCanceled

datatype wait_end = WaitOk | WaitExit int | WaitFailed

record exec_world =
  xw_environ :: "string \<Rightarrow> string option"
  xw_stat :: stat_fun
  xw_around :: surround
  xw_venv_ran :: "(gerr \<times> string) option"
  xw_uuid :: string
  xw_stdout_pipe :: "gerr option"
  xw_stderr_pipe :: "gerr option"
  xw_start :: "gerr option"
  xw_stdout :: "string list"
  xw_stderr :: "string list"
  xw_order :: "bool list"
  xw_ctx :: ctx_end
  xw_wait :: wait_end
  xw_ms :: int
  xw_now :: int

text \<open>The two pumps' publications, interleaved: \<open>True\<close> takes the next of the first.\<close>

fun interleave :: "bool list \<Rightarrow> 'a list \<Rightarrow> 'a list \<Rightarrow> 'a list" where
  "interleave bs [] ys = ys"
| "interleave bs xs [] = xs"
| "interleave [] (x # xs) (y # ys) = (x # xs) @ (y # ys)"
| "interleave (b # bs) (x # xs) (y # ys) =
     (if b then x # interleave bs xs (y # ys) else y # interleave bs (x # xs) ys)"

definition finished_event :: "exec_world \<Rightarrow> int \<Rightarrow> bool \<Rightarrow> string \<Rightarrow> Event" where
  "finished_event w code trunc why =
     zeroEvent\<lparr>Kind := EventFinished, ExecID := xw_uuid w, ExitCode := code, DurationMs := xw_ms w,
       Truncated := trunc, Reason := why\<rparr>"

text \<open>From the started process to the end of the call.\<close>

definition exec_run :: "exec_world \<Rightarrow> Sandbox \<Rightarrow> string \<Rightarrow> string list \<Rightarrow> int \<Rightarrow> string \<Rightarrow> (ExecResult \<times> gerr option) \<times> sb_effect list" where
  "exec_run w s program args timeout workDir =
     (let i = xw_uuid w; cfg = sb_config s; pub = (\<lambda>e. publish s (xw_now w) e);
          (out_events, stdoutBuf) = pump EventStdout i (xw_stdout w) (NewCappedBuffer (MaxOutput cfg));
          (err_events, stderrBuf) = pump EventStderr i (xw_stderr w) (NewCappedBuffer (MaxOutput cfg));
          trunc = (truncated stdoutBuf \<or> truncated stderrBuf);
          result = zeroExecResult\<lparr>res_ExecID := i, res_Stdout := String stdoutBuf, res_Stderr := String stderrBuf,
                     res_DurationMs := xw_ms w, res_Truncated := trunc\<rparr>;
          opening = Tracks i # pub (zeroEvent\<lparr>Kind := EventStarted, ExecID := i, Command := commandLine program args, WorkDir := workDir\<rparr>)
                    @ concat (map pub (interleave (xw_order w) out_events err_events));
          ending = (\<lambda>code why. pub (finished_event w code trunc why) @ [Untracks i])
      in case xw_ctx w of
           CtxDeadline \<Rightarrow>
             ((result\<lparr>res_ExitCode := -1, res_Stderr := res_Stderr result @ CHR 0x0A # ''[command timed out]''\<rparr>,
               Some ErrCommandTimeout),
              opening @ ending (-1) (''timed out after '' @ duration_text timeout))
         | CtxCanceled \<Rightarrow>
             ((result\<lparr>res_ExitCode := -1, res_Stderr := res_Stderr result @ CHR 0x0A # ''[command stopped]''\<rparr>,
               Some ErrCommandStopped),
              opening @ ending (-1) ''stopped before completion'')
         | CtxLive \<Rightarrow>
             (let code = (case xw_wait w of WaitOk \<Rightarrow> 0 | WaitExit c \<Rightarrow> c | WaitFailed \<Rightarrow> 1)
              in ((result\<lparr>res_ExitCode := code\<rparr>, None), opening @ ending code [])))"

definition ExecCommand :: "exec_world \<Rightarrow> Sandbox \<Rightarrow> fs \<Rightarrow> string \<Rightarrow> string list \<Rightarrow> int \<Rightarrow> string \<Rightarrow>
    (ExecResult \<times> gerr option) \<times> sb_effect list \<times> Sandbox" where
  "ExecCommand w s fs program args timeout0 workDir =
     (let cfg = sb_config s;
          timeout = (if timeout0 \<le> 0 then DefaultTimeout cfg else timeout0);
          dir = (if workDir \<noteq> [] then resolveWorkDir (xw_around w) s fs workDir else Inr (RootDir cfg))
      in case dir of
           Inl e \<Rightarrow> ((zeroExecResult, Some (Wrap ''invalid working directory: '' e [])), [], s)
         | Inr wdir \<Rightarrow>
             (let (s1, venv) = ensureVenv (xw_environ w) (xw_stat w) (xw_venv_ran w) s;
                  env = buildEnv (xw_environ w) cfg wdir (venvBinDir s1)
              in case lookProgramForAgent (xw_around w) (xw_stat w) s1 fs program env of
                   Inl e \<Rightarrow> ((zeroExecResult, Some e), venv, s1)
                 | Inr resolved \<Rightarrow>
                     (let failed = zeroExecResult\<lparr>res_ExecID := xw_uuid w\<rparr>;
                          cmd = \<lparr>sp_path = resolved, sp_args = args, sp_dir = wdir, sp_env = env,
                                 sp_attr = DropTo (Configure None) (sb_uid s1)\<rparr>
                      in case xw_stdout_pipe w of
                           Some e \<Rightarrow> ((failed, Some (Wrap ''open stdout pipe: '' e [])), venv, s1)
                         | None \<Rightarrow>
                             (case xw_stderr_pipe w of
                                Some e \<Rightarrow> ((failed, Some (Wrap ''open stderr pipe: '' e [])), venv, s1)
                              | None \<Rightarrow>
                                  (case xw_start w of
                                     Some e \<Rightarrow> ((failed, Some (Wrap ''start command: '' e [])), venv, s1)
                                   | None \<Rightarrow>
                                       (let (r, trace) = exec_run w s1 program args timeout workDir
                                        in (r, venv @ Start cmd # trace, s1)))))))"

section \<open>KillAll and GetStatus\<close>

text \<open>The order is that of the running set; Go's map iteration may be any other.\<close>

definition KillAll :: "int \<Rightarrow> Sandbox \<Rightarrow> string \<Rightarrow> string \<Rightarrow> nat \<times> sb_effect list" where
  "KillAll now s byActor why =
     (length (sb_running s),
      concat (map (\<lambda>i. publish s now (zeroEvent\<lparr>Kind := EventKilled, ExecID := i, ByActor := byActor, Reason := why\<rparr>)
                       @ [Cancels i]) (sb_running s)))"

definition GetStatus :: "(string \<Rightarrow> string option) \<Rightarrow> Sandbox \<Rightarrow> SandboxStatus" where
  "GetStatus look s =
     (let cfg = sb_config s in
      \<lparr>ss_RootDir = RootDir cfg, ss_DefaultTimeout = duration_text (DefaultTimeout cfg), ss_MaxOutputBytes = MaxOutput cfg,
       ss_EnvNames = envNames (buildEnv look cfg (RootDir cfg) (venvBinDir s)), ss_RunningCommand = int (RunningCommands s)\<rparr>)"

text \<open>What a trace does to the running set.\<close>

fun running_after :: "sb_effect list \<Rightarrow> Sandbox \<Rightarrow> Sandbox" where
  "running_after [] s = s"
| "running_after (Tracks i # es) s = running_after es (trackRunning i s)"
| "running_after (Untracks i # es) s = running_after es (untrackRunning i s)"
| "running_after (_ # es) s = running_after es s"

end
