(* ===== verification/Sandbox_Manager.thy ===== *)
theory Sandbox_Manager imports Uid_Claims Sandbox_Exec begin

text \<open>
  Package \<open>internal/sandbox\<close>, file \<open>manager.go\<close>: one sandbox per agent, created on its first call.
  Each method runs under the manager's lock and is one step. What goes on between two calls (agents
  working in their directories, and nothing else touching the register) is a step of its own.
\<close>

record Manager =
  mg_base :: Config
  mg_sink :: bool
  mg_instances :: "(string, Sandbox) gomap"

definition NewManager :: "string \<Rightarrow> Config \<Rightarrow> bool \<Rightarrow> Manager res" where
  "NewManager cwd cfg sink =
     (if RootDir cfg = [] then Inl (Plain ''root directory cannot be empty'')
      else case range_Validate (cfg_UIDRange cfg) of
        Some e \<Rightarrow> Inl e
      | None \<Rightarrow> Inr \<lparr>mg_base = cfg\<lparr>RootDir := Abs cwd (RootDir cfg)\<rparr>, mg_sink = sink, mg_instances = []\<rparr>)"

text \<open>\<open>newSandbox\<close> on a disk: what it creates belongs to this process.\<close>

definition newSandbox_on :: "os_env \<Rightarrow> string \<Rightarrow> string res \<Rightarrow> string \<Rightarrow> Config \<Rightarrow> bool \<Rightarrow> u32 \<Rightarrow> disk \<Rightarrow> Sandbox res \<times> disk" where
  "newSandbox_on v cwd self i cfg sink uid d =
     (let (r, fs') = newSandbox cwd self (os_now v) (dk_fs d) i cfg sink uid
      in (r, \<lparr>dk_fs = fs', dk_owner = fold (\<lambda>p. mset_key p (os_euid v)) (new_paths (dk_fs d) fs') (dk_owner d)\<rparr>))"

definition agent_config :: "Manager \<Rightarrow> string \<Rightarrow> Config" where
  "agent_config m agentID = (mg_base m)\<lparr>RootDir := Join [RootDir (mg_base m), ''agents'', agentID]\<rparr>"

definition GetSandbox :: "os_env \<Rightarrow> string \<Rightarrow> string res \<Rightarrow> Manager \<Rightarrow> disk \<Rightarrow> string \<Rightarrow> Sandbox res \<times> Manager \<times> disk" where
  "GetSandbox v cwd self m d agentID =
     (if agentID = [] then (Inl (Plain ''sandbox requires an agent id''), m, d)
      else case mget (mg_instances m) agentID of
        Some sb \<Rightarrow> (Inr sb, m, d)
      | None \<Rightarrow>
          (let cfg = agent_config m agentID;
               (u, acts, d1) = assignUID v (mg_base m) (RootDir cfg) d
           in case u of
                Inl e \<Rightarrow> (Inl (Wrap (''assign a user id to agent '' @ agentID @ '': '') e []), m, d1)
              | Inr uid \<Rightarrow>
                  (let (s, d2) = newSandbox_on v cwd self agentID cfg (mg_sink m) uid d1
                   in case s of
                        Inl e \<Rightarrow> (Inl (Wrap (''create sandbox for agent '' @ agentID @ '': '') e []), m, d2)
                      | Inr sb \<Rightarrow> (Inr sb, m\<lparr>mg_instances := mset_key agentID sb (mg_instances m)\<rparr>, d2))))"

definition LiveSandboxes :: "Manager \<Rightarrow> (string, Sandbox) gomap" where
  "LiveSandboxes m = mg_instances m"

definition KillSandbox :: "int \<Rightarrow> Manager \<Rightarrow> string \<Rightarrow> string \<Rightarrow> string \<Rightarrow> nat \<times> sb_effect list" where
  "KillSandbox now m agentID byActor why =
     (case mget (mg_instances m) agentID of None \<Rightarrow> (0, []) | Some sb \<Rightarrow> KillAll now sb byActor why)"

section \<open>Creating a sandbox in a claimed directory\<close>

lemma mkdirs_entry:
  assumes "tree fs" "mget fs A = Some (DirN a b c)" "A \<noteq> []" "mget fs (A @ [i]) = Some n" "\<forall>t m. n \<noteq> LinkN t m"
  shows "snd (os_mkdirs now pm [] (A @ [i]) fs) = fs \<and> eval_links max_links fs [] (A @ [i]) = Inr (A @ [i])"
proof -
  have e: "eval_links max_links fs [] (A @ [i]) = Inr (A @ [i])" by (rule eval_tree(2) [OF assms(1,4,5)])
  have "snd (os_mkdirs now pm pre (rest @ [i]) fs) = fs" if "pre @ rest = A" for pre rest
    using that
  proof (induction rest arbitrary: pre)
    case Nil
    with e assms(4) show ?case by (simp split: option.split)
  next
    case (Cons x xs)
    have d: "\<exists>a b c. mget fs (pre @ [x]) = Some (DirN a b c)"
      using tree_prefix [OF assms(1), of "pre @ [x]" "xs @ [i]"] assms(4) Cons.prems by fastforce
    then obtain n' where n: "mget fs (pre @ [x]) = Some n'" "\<forall>t m. n' \<noteq> LinkN t m" "is_dir n'" by (auto simp: is_dir_def)
    from eval_tree(2) [OF assms(1) n(1,2)] have "eval_links max_links fs [] (pre @ [x]) = Inr (pre @ [x])" .
    with n Cons.IH [of "pre @ [x]"] Cons.prems show ?case by simp
  qed
  from this [of "[]" A] e show ?thesis by simp
qed

lemma newSandbox_claimed:
  assumes A: "register_dir A (dk_fs d)" "mget (dk_fs d) (A @ [i]) \<noteq> None" "RootDir cfg = render True (A @ [i])"
    and r: "newSandbox_on v cwd self k cfg sink uid d = (s, d')"
  shows "d' = d \<and> (\<forall>sb. s = Inr sb \<longrightarrow> sb_uid sb = uid \<and> sb_id sb = k \<and> RootDir (sb_config sb) = render True (A @ [i]) \<and>
    (sb_ops sb = None \<longleftrightarrow> uid = 0))"
proof -
  obtain n where n: "mget (dk_fs d) (A @ [i]) = Some n" using A(2) by auto
  have nl: "\<forall>t m. n \<noteq> LinkN t m" using A(1) n by (auto simp: register_dir_def)
  obtain a b c where dir: "tree (dk_fs d)" "mget (dk_fs d) A = Some (DirN a b c)" "A \<noteq> []" "\<forall>t m. n \<noteq> LinkN t m"
    using A(1) nl by (auto simp: register_dir_def)
  have pl: "list_all plain_comp (A @ [i])" by (rule entry_plain [OF dir(1) n])
  note pr = root_parts_render [OF pl] and me = mkdirs_entry [OF dir(1-3) n dir(4)]
  have ups: "ups_then_plain True (A @ [i])" by (rule plain_ups [OF pl])
  have abs: "IsAbs (render True (A @ [i]))" "Clean (render True (A @ [i])) = render True (A @ [i])"
    by (simp_all add: IsAbs_render [OF ups] comps_render [OF ups] Clean_def)
  obtain e0 where "os_mkdirs (os_now v) 488 [] (A @ [i]) (dk_fs d) = (e0, dk_fs d)"
    using me by (metis prod.collapse)
  then obtain e where mk: "os_MkdirAll (os_now v) (dk_fs d) (render True (A @ [i])) 488 = (e, dk_fs d)"
    by (cases e0) (simp_all add: os_MkdirAll_def pr)
  have ev: "EvalSymlinks (dk_fs d) (render True (A @ [i])) = Inr (render True (A @ [i]))"
    using me by (simp add: EvalSymlinks_def pr)
  have "new_paths (dk_fs d) (dk_fs d) = []" by (auto simp: new_paths_def filter_empty_conv mget_key simp flip: not_None_eq)
  then show ?thesis using r A(3) mk ev abs ups
    by (auto simp: newSandbox_on_def newSandbox_def Abs_def Let_def NewRunner_def WithDefaults_def
        split: option.splits sum.splits if_splits)
qed

section \<open>Reachable managers\<close>

text \<open>The \<open>agents\<close> directory of a manager, and what leaves it alone.\<close>

definition agents_dir :: "Manager \<Rightarrow> string list" where
  "agents_dir m = comps (RootDir (mg_base m)) @ [''agents'']"

definition register_kept :: "string list \<Rightarrow> disk \<Rightarrow> disk \<Rightarrow> bool" where
  "register_kept A d d' \<longleftrightarrow> register_dir A (dk_fs d') \<and>
     (\<forall>n. (mget (dk_fs d') (A @ [n]) = None \<longleftrightarrow> mget (dk_fs d) (A @ [n]) = None) \<and> owner_at d' (A @ [n]) = owner_at d (A @ [n]))"

inductive mgr_step :: "Manager \<times> disk \<Rightarrow> Manager \<times> disk \<Rightarrow> bool" where
  get: "GetSandbox v cwd self m d agentID = (r, m', d') \<Longrightarrow> sane_faults v \<Longrightarrow>
    \<not> Contains (cfg_UIDRange (mg_base m)) (os_euid v) \<Longrightarrow> agentID = [] \<or> plain_comp agentID \<Longrightarrow> mgr_step (m, d) (m', d')"
| agents_work: "register_kept (agents_dir m) d d' \<Longrightarrow> mgr_step (m, d) (m, d')"

inductive mgr_reach :: "Manager \<times> disk \<Rightarrow> Manager \<times> disk \<Rightarrow> bool" where
  start: "mgr_reach s s"
| step: "mgr_reach s s' \<Longrightarrow> mgr_step s' s'' \<Longrightarrow> mgr_reach s s''"

inductive_cases mgr_stepE: "mgr_step (m, d) s'"

definition inst_ok :: "Manager \<Rightarrow> disk \<Rightarrow> string \<Rightarrow> Sandbox \<Rightarrow> bool" where
  "inst_ok m d a sb \<longleftrightarrow> sb_id sb = a \<and> mget (dk_fs d) (agents_dir m @ [a]) \<noteq> None \<and> sb_uid sb = owner_at d (agents_dir m @ [a]) \<and>
     Contains (cfg_UIDRange (mg_base m)) (sb_uid sb) \<and> RootDir (sb_config sb) = render True (agents_dir m @ [a]) \<and> sb_ops sb \<noteq> None"

definition mgr_inv :: "Manager \<times> disk \<Rightarrow> bool" where
  "mgr_inv s \<longleftrightarrow> (case s of (m, d) \<Rightarrow>
     IsAbs (RootDir (mg_base m)) \<and> Enabled (cfg_UIDRange (mg_base m)) \<and> register_dir (agents_dir m) (dk_fs d) \<and>
     claims_distinct (cfg_UIDRange (mg_base m)) (agents_dir m) d \<and>
     (\<forall>a sb. mget (mg_instances m) a = Some sb \<longrightarrow> inst_ok m d a sb))"

lemma Contains_nonzero: "Contains r u \<Longrightarrow> u \<noteq> 0"
  by (auto simp: Contains_def Enabled_def)

lemma inst_ok_others:
  assumes "inst_ok m d a sb" "others_kept (agents_dir m) i d d'" "a \<noteq> i" shows "inst_ok m d' a sb"
  using assms unfolding inst_ok_def others_kept_def by metis

lemma inst_ok_kept: "inst_ok m d a sb \<Longrightarrow> register_kept (agents_dir m) d d' \<Longrightarrow> inst_ok m d' a sb"
  unfolding inst_ok_def register_kept_def by metis

lemma GetSandbox_inv:
  assumes inv: "mgr_inv (m, d)" and r: "GetSandbox v cwd self m d a = (res, m', d')" and v: "sane_faults v"
    "\<not> Contains (cfg_UIDRange (mg_base m)) (os_euid v)" and a: "a = [] \<or> plain_comp a"
  shows "mgr_inv (m', d')"
proof (cases "a = [] \<or> mget (mg_instances m) a \<noteq> None")
  case True
  with r have "m' = m \<and> d' = d" by (auto simp: GetSandbox_def split: if_splits)
  with inv show ?thesis by simp
next
  case False
  let ?A = "agents_dir m" and ?rg = "cfg_UIDRange (mg_base m)"
  have I: "IsAbs (RootDir (mg_base m))" "Enabled ?rg" "register_dir ?A (dk_fs d)" "claims_distinct ?rg ?A d"
    "\<And>b sb. mget (mg_instances m) b = Some sb \<Longrightarrow> inst_ok m d b sb" using inv by (simp_all add: mgr_inv_def)
  have pa: "plain_comp a" using a False by simp
  obtain u acts d1 where u: "assignUID v (mg_base m) (Join [RootDir (mg_base m), ''agents'', a]) d = (u, acts, d1)" by (metis prod.collapse)
  from assignUID_keeps [OF I(3) _ I(1) pa v I(4,2) u]
  have k: "register_dir ?A (dk_fs d1)" "claims_distinct ?rg ?A d1" "others_kept ?A a d d1"
    "\<And>x. u = Inr x \<Longrightarrow> Contains ?rg x \<and> mget (dk_fs d1) (?A @ [a]) \<noteq> None \<and> owner_at d1 (?A @ [a]) = x"
    by (simp_all add: agents_dir_def)
  have old: "inst_ok m d1 b sb" if "mget (mg_instances m) b = Some sb" for b sb
    using inst_ok_others [OF I(5) [OF that] k(3)] that False by (cases "b = a") auto
  show ?thesis
  proof (cases u)
    case (Inl e)
    with r u False have "m' = m \<and> d' = d1" by (auto simp: GetSandbox_def agent_config_def Let_def simp del: Join.simps)
    with I k old show ?thesis by (simp add: mgr_inv_def)
  next
    case (Inr uid)
    obtain s d2 where s: "newSandbox_on v cwd self a (agent_config m a) (mg_sink m) uid d1 = (s, d2)" by fastforce
    have root: "RootDir (agent_config m a) = render True (?A @ [a])"
      using comps_Join3 [OF I(1) _ pa, of "''agents''"]
      by (simp add: agent_config_def agents_dir_def plain_comp_def slash_def dotdot_def)
    note k4 = k(4) [OF Inr]
    from newSandbox_claimed [OF k(1) _ root s] k4 have n: "d2 = d1"
      "\<And>sb. s = Inr sb \<Longrightarrow> sb_uid sb = uid \<and> sb_id sb = a \<and> RootDir (sb_config sb) = render True (?A @ [a]) \<and> (sb_ops sb = None \<longleftrightarrow> uid = 0)"
      by auto
    have d': "d' = d1" using r u s n(1) Inr False
      by (auto simp: GetSandbox_def agent_config_def Let_def simp del: Join.simps split: sum.splits)
    show ?thesis
    proof (cases s)
      case (Inl e)
      with r u s Inr False have "m' = m" by (auto simp: GetSandbox_def agent_config_def Let_def simp del: Join.simps)
      with I k old d' show ?thesis by (simp add: mgr_inv_def)
    next
      case sb: (Inr sb)
      with r u s Inr False have m': "m' = m\<lparr>mg_instances := mset_key a sb (mg_instances m)\<rparr>"
        by (auto simp: GetSandbox_def agent_config_def Let_def simp del: Join.simps)
      have new: "inst_ok m d1 a sb" using n(2) [OF sb] k4 Contains_nonzero [of ?rg uid] by (simp add: inst_ok_def)
      have A': "agents_dir m' = ?A" "mg_base m' = mg_base m" by (simp_all add: m' agents_dir_def)
      have "inst_ok m' d1 b sb'" if "mget (mg_instances m') b = Some sb'" for b sb'
      proof -
        have "inst_ok m d1 b sb'" using that new old [of b sb'] by (auto simp: m' split: if_splits)
        then show ?thesis unfolding inst_ok_def A' .
      qed
      with I k d' A' show ?thesis by (simp add: mgr_inv_def)
    qed
  qed
qed

lemma mgr_reach_inv: "mgr_reach s s' \<Longrightarrow> mgr_inv s \<Longrightarrow> mgr_inv s'"
proof (induction rule: mgr_reach.induct)
  case (step s s' s'')
  obtain m d where s': "s' = (m, d)" by fastforce
  from step.hyps(2) [unfolded s'] show ?case
  proof (cases rule: mgr_step.cases)
    case (get v cwd self agentID r m' d')
    with step.IH [OF step.prems] GetSandbox_inv show ?thesis unfolding s' by blast
  next
    case (agents_work d')
    from step.IH [OF step.prems] have i: "mgr_inv (m, d)" unfolding s' .
    then have "claims_distinct (cfg_UIDRange (mg_base m)) (agents_dir m) d'"
      using agents_work(2) by (simp add: mgr_inv_def register_kept_def claims_distinct_def del: not_None_eq) blast
    with i agents_work inst_ok_kept show ?thesis by (simp add: mgr_inv_def register_kept_def) blast
  qed
qed

section \<open>Properties\<close>


definition sample_manager :: Manager where
  "sample_manager = \<lparr>mg_base = (DefaultConfig ''/s'')\<lparr>cfg_UIDRange := \<lparr>First = 2000, Count = 2\<rparr>\<rparr>, mg_sink = True, mg_instances = []\<rparr>"

lemma sample_dir: "agents_dir sample_manager = [''s'', ''agents'']"
  by code_simp

lemma sample_entries: "mget (dk_fs sample_disk) [''s'', ''agents'', n] \<noteq> None \<longleftrightarrow> n = ''a''"
  by (auto simp: sample_disk_def)

lemma sample_inv: "mgr_inv (sample_manager, sample_disk)"
proof -
  have "register_dir [''s'', ''agents''] (dk_fs sample_disk)"
    using sample_tree by (simp add: register_dir_def) (auto simp: sample_disk_def)
  moreover have "claims_distinct r [''s'', ''agents''] sample_disk" for r
    using sample_entries by (simp add: claims_distinct_def del: not_None_eq)
  moreover have "IsAbs (RootDir (mg_base sample_manager))" "Enabled (cfg_UIDRange (mg_base sample_manager))" by code_simp+
  moreover have "mg_instances sample_manager = []" by (simp add: sample_manager_def)
  ultimately show ?thesis by (simp add: mgr_inv_def sample_dir)
qed


text \<open>\<open>GetSandbox\<close>: no sandbox without an agent id; an agent gets the same sandbox ever after;
  and a failure registers nothing.\<close>

theorem GetSandbox_is_sticky:
  "fst (GetSandbox v cwd self m d []) = Inl (Plain ''sandbox requires an agent id'') \<and>
   (GetSandbox v cwd self m d a = (Inr s, m', d') \<longrightarrow> GetSandbox v2 cwd2 self2 m' d2 a = (Inr s, m', d2) \<and>
      (\<forall>b. b \<noteq> a \<longrightarrow> mget (LiveSandboxes m') b = mget (LiveSandboxes m) b)) \<and>
   (GetSandbox v cwd self m d a = (Inl e, m', d') \<longrightarrow> m' = m)"
proof -
  have "GetSandbox v2 cwd2 self2 m' d2 a = (Inr s, m', d2) \<and> (\<forall>b. b \<noteq> a \<longrightarrow> mget (LiveSandboxes m') b = mget (LiveSandboxes m) b)"
    if "GetSandbox v cwd self m d a = (Inr s, m', d')"
    using that by (auto simp: GetSandbox_def LiveSandboxes_def Let_def split: if_splits option.splits sum.splits prod.splits)
  moreover have "m' = m" if "GetSandbox v cwd self m d a = (Inl e, m', d')"
    using that by (auto simp: GetSandbox_def Let_def split: if_splits option.splits sum.splits prod.splits)
  ultimately show ?thesis by (simp add: GetSandbox_def)
qed

lemma GetSandbox_is_sticky_witness:
  "\<exists>s m' d'. GetSandbox sample_env ''/'' (Inr ''/worker'') sample_manager sample_disk ''a'' = (Inr s, m', d') \<and>
     GetSandbox sample_env ''/x'' (Inl ErrNotExist) m' sample_disk ''a'' = (Inr s, m', sample_disk)"
proof -
  let ?x = "GetSandbox sample_env ''/'' (Inr ''/worker'') sample_manager sample_disk ''a''"
  have "is_ok (fst ?x)" by code_simp
  then obtain s m' d' where x: "?x = (Inr s, m', d')" by (cases ?x; cases "fst ?x") auto
  with GetSandbox_is_sticky [of sample_env "''/''" "Inr ''/worker''" sample_manager sample_disk "''a''" s m' d'] show ?thesis by blast
qed

text \<open>A range that validates hands out exactly the ids it names: the 32-bit arithmetic does not
  wrap, no id is below 1000, and every id a user namespace maps.\<close>

theorem validated_range_is_exact:
  assumes "range_Validate r = None" "Enabled r"
  shows "(Contains r i \<longleftrightarrow> unat (First r) \<le> unat i \<and> unat i < unat (First r) + unat (Count r)) \<and>
    (Contains r i \<longrightarrow> 1000 \<le> unat i \<and> unat i < 65536)"
proof -
  have b: "unat (First r) + unat (Count r) \<le> 65536" and f: "1000 \<le> First r"
    using assms by (auto simp: range_Validate_def Let_def split: if_splits)
  then have s: "unat (First r + Count r) = unat (First r) + unat (Count r)"
    by (simp add: unat_word_ariths)
  then have c: "Contains r i \<longleftrightarrow> unat (First r) \<le> unat i \<and> unat i < unat (First r) + unat (Count r)"
    using assms(2) by (simp add: Contains_def word_le_nat_alt word_less_nat_alt)
  have "1000 \<le> unat (First r)" using f by (simp add: word_le_nat_alt)
  then show ?thesis using c b by auto
qed

lemma validated_range_is_exact_witness: "Contains \<lparr>First = 2000, Count = 2\<rparr> 2001 \<and> \<not> Contains \<lparr>First = 2000, Count = 2\<rparr> 2002"
proof -
  have "range_Validate \<lparr>First = 2000, Count = 2\<rparr> = None" "Enabled \<lparr>First = 2000, Count = 2\<rparr>"
    by (simp_all add: range_Validate_def Enabled_def)
  from validated_range_is_exact [OF this, of 2001] validated_range_is_exact [OF this, of 2002] show ?thesis by simp
qed

end
