(* ===== verification/Worker_Link.thy ===== *)
theory Worker_Link imports Sandbox_Manager Worker_Wire begin

text \<open>
  Package \<open>internal/workerlink\<close>: the worker's end of the connection. The manager and the disk are
  threaded through; what the operating system does while a request runs is the record \<open>link_world\<close>.
  Connections are numbered in the order they are dialled, and what is written on them is part of
  the trace. File operations run the sandbox's own on the disk's file system; what they create
  belongs to the sandbox's user, or to this process when the sandbox has none.
\<close>

section \<open>Configuration and state\<close>

record LinkConfig =
  lc_ServerURL :: string
  lc_Token :: string
  lc_WorkerID :: string
  lc_Version :: string
  lc_MaxFileBytes :: u64

definition DefaultMaxFileBytes :: u64 where "DefaultMaxFileBytes = push_bit 20 8"
definition minReconnectDelay :: int where "minReconnectDelay = second"
definition maxReconnectDelay :: int where "maxReconnectDelay = 30 * second"
definition proto_Path :: string where "proto_Path = ''/worker''"

record Link =
  lk_cfg :: LinkConfig
  lk_limits :: Limits
  lk_manager :: Manager
  lk_dialURL :: string
  lk_conn :: "nat option"
  lk_inflight :: "(u64, nat) gomap"

definition dial_url :: "string \<Rightarrow> string res" where
  "dial_url server =
     (let url = TrimSuffix server ''/'' in
      if HasPrefix url ''https://'' then Inr (''wss://'' @ TrimPrefix url ''https://'')
      else if HasPrefix url ''http://'' then Inr (''ws://'' @ TrimPrefix url ''http://'')
      else if HasPrefix url ''wss://'' \<or> HasPrefix url ''ws://'' then Inr url
      else Inl (Plain (''server URL '' @ quoted server @ '' must start with http://, https://, ws:// or wss://'')))"

definition newLink :: "string \<Rightarrow> LinkConfig \<Rightarrow> Config \<Rightarrow> Link res" where
  "newLink cwd cfg0 sandboxCfg0 =
     (if lc_ServerURL cfg0 = [] then Inl (Plain ''a server URL is required'')
      else if lc_Token cfg0 = [] then Inl (Plain ''a worker token is required'')
      else if lc_WorkerID cfg0 = [] then Inl (Plain ''a worker id is required'')
      else
        (let cfg = (if lc_MaxFileBytes cfg0 = 0 then cfg0\<lparr>lc_MaxFileBytes := DefaultMaxFileBytes\<rparr> else cfg0);
             sandboxCfg = WithDefaults sandboxCfg0;
             limits = \<lparr>MaxOutputBytes = word_of_int (MaxOutput sandboxCfg), MaxFileBytes = lc_MaxFileBytes cfg\<rparr>
         in case Validate limits of
              Some e \<Rightarrow> Inl e
            | None \<Rightarrow>
                if sint (MaxPayloadBytes limits) < int ChunkSize
                then Inl (Plain (''limits allow a '' @ show_int (sint (MaxPayloadBytes limits)) @ ''-byte payload, under the ''
                       @ show_nat ChunkSize @ '' bytes one output chunk needs, so streaming would break the connection''))
                else (case dial_url (lc_ServerURL cfg) of
                        Inl e \<Rightarrow> Inl e
                      | Inr url \<Rightarrow>
                          (case NewManager cwd sandboxCfg True of
                             Inl e \<Rightarrow> Inl e
                           | Inr m \<Rightarrow> Inr \<lparr>lk_cfg = cfg, lk_limits = limits, lk_manager = m, lk_dialURL = url @ proto_Path,
                                            lk_conn = None, lk_inflight = []\<rparr>))))"

section \<open>The loop\<close>

text \<open>\<open>Run\<close>, given when each session ends: \<open>True\<close> when the context is done by then, or during the
  wait that follows. The result is the waits it makes, in order; \<open>None\<close> is a loop still going on.\<close>

fun run_from :: "int \<Rightarrow> (bool \<times> bool) list \<Rightarrow> int list \<times> bool" where
  "run_from delay [] = ([], False)"
| "run_from delay ((done_before, done_during) # ss) =
     (if done_before then ([], True)
      else if done_during then ([delay], True)
      else (let (ds, ended) = run_from (min (delay * 2) maxReconnectDelay) ss in (delay # ds, ended)))"

definition Run :: "(bool \<times> bool) list \<Rightarrow> int list \<times> bool" where
  "Run sessions = run_from minReconnectDelay sessions"

text \<open>The hello frame of a session.\<close>

definition insort_names :: "string list \<Rightarrow> string list" where
  "insort_names xs = sort xs"

definition hello_frame :: "Link \<Rightarrow> Frame" where
  "hello_frame l = zeroFrame\<lparr>Type := FrameHello, WorkerID := lc_WorkerID (lk_cfg l), Version := lc_Version (lk_cfg l),
     Protocol := ProtocolVersion, FLimits := Some (lk_limits l),
     Agents := insort_names (map fst (LiveSandboxes (lk_manager l)))\<rparr>"

datatype link_act =
    Wrote nat Frame
  | Cancelled nat
  | In_sandbox sb_effect

text \<open>\<open>send\<close>: \<open>outcome\<close> is what the write returned; a failed write is not on the wire.\<close>

definition link_send :: "gerr option \<Rightarrow> Link \<Rightarrow> Frame \<Rightarrow> gerr option \<times> link_act list" where
  "link_send outcome l f =
     (case lk_conn l of
        None \<Rightarrow> (Some (Plain ''not connected''), [])
      | Some c \<Rightarrow> (outcome, if outcome = None then [Wrote c f] else []))"

definition forward :: "gerr option \<Rightarrow> Link \<Rightarrow> Event \<Rightarrow> link_act list" where
  "forward outcome l e = snd (link_send outcome l (zeroFrame\<lparr>Type := FrameEvent, FEvent := Some e\<rparr>))"

text \<open>Dialling: a new connection becomes the current one before the hello is written.\<close>

definition link_dial :: "gerr option \<Rightarrow> nat \<Rightarrow> gerr option \<Rightarrow> Link \<Rightarrow> gerr option \<times> link_act list \<times> Link" where
  "link_dial dial c wrote l =
     (case dial of
        Some e \<Rightarrow> (Some (Wrap (''dial '' @ lk_dialURL l @ '': '') e []), [], l)
      | None \<Rightarrow>
          (let l1 = l\<lparr>lk_conn := Some c\<rparr>; (serr, acts) = link_send wrote l1 (hello_frame l1)
           in (case serr of Some e \<Rightarrow> Some (Wrap ''send hello: '' e []) | None \<Rightarrow> None, acts, l1)))"

definition link_cancel :: "u64 \<Rightarrow> Link \<Rightarrow> link_act list \<times> Link" where
  "link_cancel i l =
     (case mget (lk_inflight l) i of Some k \<Rightarrow> [Cancelled k] | None \<Rightarrow> [], l\<lparr>lk_inflight := mdel i (lk_inflight l)\<rparr>)"

definition link_register :: "u64 \<Rightarrow> nat \<Rightarrow> Link \<Rightarrow> Link" where
  "link_register i k l = l\<lparr>lk_inflight := mset_key i k (lk_inflight l)\<rparr>"

definition link_unregister :: "u64 \<Rightarrow> Link \<Rightarrow> Link" where
  "link_unregister i l = l\<lparr>lk_inflight := mdel i (lk_inflight l)\<rparr>"

section \<open>dispatch.go\<close>

record link_world =
  lw_os :: os_env
  lw_cwd :: string
  lw_self :: "string res"
  lw_exec :: exec_world
  lw_now :: int

text \<open>A sandbox operation on the disk.\<close>

definition disk_after :: "os_env \<Rightarrow> Sandbox \<Rightarrow> disk \<Rightarrow> fs \<Rightarrow> disk" where
  "disk_after v sb d fs' =
     (let who = (if sb_uid sb = 0 then os_euid v else sb_uid sb)
      in \<lparr>dk_fs = fs', dk_owner = fold (\<lambda>p. mset_key p who) (new_paths (dk_fs d) fs') (dk_owner d)\<rparr>)"

definition on_disk :: "link_world \<Rightarrow> Sandbox \<Rightarrow> disk \<Rightarrow> 'a \<times> fs \<Rightarrow> 'a \<times> disk" where
  "on_disk w sb d r = (fst r, disk_after (lw_os w) sb d (snd r))"

definition put_sandbox :: "string \<Rightarrow> Sandbox \<Rightarrow> Link \<Rightarrow> Link" where
  "put_sandbox a sb l = l\<lparr>lk_manager := (lk_manager l)\<lparr>mg_instances := mset_key a sb (mg_instances (lk_manager l))\<rparr>\<rparr>"

text \<open>\<open>time.Duration(in.TimeoutSec) * time.Second\<close> is a 64-bit product.\<close>

definition exec_timeout :: "int \<Rightarrow> int" where
  "exec_timeout sec = (if 0 < sec then sint (word_of_int (sec * second) :: u64) else 0)"

definition exec_response :: "ExecResult \<Rightarrow> ExecResponse" where
  "exec_response r = \<lparr>ex_ExecID = res_ExecID r, ex_Stdout = res_Stdout r, ex_Stderr = res_Stderr r, ex_ExitCode = res_ExitCode r,
     ex_DurationMs = res_DurationMs r, ex_Truncated = res_Truncated r, ex_ErrorKind = []\<rparr>"

definition exec_result :: "ExecResult \<times> gerr option \<Rightarrow> payload res" where
  "exec_result x =
     (case x of (r, err) \<Rightarrow>
        (let out = exec_response r in
         case err of
           None \<Rightarrow> Inr (PExecResponse out)
         | Some e \<Rightarrow>
             if errors_is e ErrCommandTimeout then Inr (PExecResponse (out\<lparr>ex_ErrorKind := ErrorKindTimeout\<rparr>))
             else if errors_is e ErrCommandStopped then Inr (PExecResponse (out\<lparr>ex_ErrorKind := ErrorKindStopped\<rparr>))
             else Inl e))"

definition link_exec :: "link_world \<Rightarrow> Sandbox \<Rightarrow> disk \<Rightarrow> json option \<Rightarrow> payload res \<times> sb_effect list \<times> Sandbox" where
  "link_exec w sb d raw =
     (case un_raw un_exec_request raw of
        Inl e \<Rightarrow> (Inl e, [], sb)
      | Inr q \<Rightarrow>
          (let (x, trace, sb') = ExecCommand (lw_exec w) sb (dk_fs d) (er_Command q)
                 (case er_Args q of None \<Rightarrow> [] | Some as \<Rightarrow> as) (exec_timeout (er_TimeoutSec q)) (er_WorkDir q)
           in (exec_result x, trace, sb')))"

definition wire_info :: "EntryInfo \<Rightarrow> FileInfo" where
  "wire_info e = \<lparr>fi_Name = en_Name e, fi_Path = en_Path e, fi_IsDir = en_IsDir e, fi_Size = en_Size e, fi_ModTime = en_ModTime e\<rparr>"

definition dispatch_read :: "link_world \<Rightarrow> Limits \<Rightarrow> Sandbox \<Rightarrow> disk \<Rightarrow> json option \<Rightarrow> payload res \<times> disk" where
  "dispatch_read w lim sb d raw =
     (case un_raw un_read_request raw of
        Inl e \<Rightarrow> (Inl e, d)
      | Inr q \<Rightarrow>
          (let u = xw_around (lw_exec w);
               (info, d1) = on_disk w sb d (sb_Stat u sb (dk_fs d) (rfq_Path q));
               too_large = (case info of Inr i \<Rightarrow> if sint (MaxFileBytes lim) < en_Size i then Some (en_Size i) else None | Inl e \<Rightarrow> None)
           in case too_large of
                Some n \<Rightarrow> (Inl (ErrFileTooLarge (rfq_Path q) n (sint (MaxFileBytes lim))), d1)
              | None \<Rightarrow>
                  (let (data, d2) = on_disk w sb d1 (sb_ReadFile u sb (dk_fs d1) (rfq_Path q))
                   in (map_res (\<lambda>c. PReadFileResponse \<lparr>rfs_Path = rfq_Path q, rfs_Content = c\<rparr>) data, d2))))"

definition dispatch_write :: "link_world \<Rightarrow> Limits \<Rightarrow> Sandbox \<Rightarrow> disk \<Rightarrow> json option \<Rightarrow> payload res \<times> disk" where
  "dispatch_write w lim sb d raw =
     (case un_raw un_write_request raw of
        Inl e \<Rightarrow> (Inl e, d)
      | Inr q \<Rightarrow>
          (let n = int (length (wfq_Content q)) in
           if sint (MaxFileBytes lim) < n then (Inl (ErrFileTooLarge (wfq_Path q) n (sint (MaxFileBytes lim))), d)
           else
             (let (err, d1) = on_disk w sb d (sb_WriteFile (xw_around (lw_exec w)) sb (dk_fs d) (wfq_Path q) (wfq_Content q) 420)
              in (case err of Some e \<Rightarrow> Inl e | None \<Rightarrow> Inr (PWriteFileResponse \<lparr>wfs_Path = wfq_Path q, wfs_Bytes = n\<rparr>), d1))))"

definition dispatch_list :: "link_world \<Rightarrow> Sandbox \<Rightarrow> disk \<Rightarrow> json option \<Rightarrow> payload res \<times> disk" where
  "dispatch_list w sb d raw =
     (case un_raw un_list_request raw of
        Inl e \<Rightarrow> (Inl e, d)
      | Inr q \<Rightarrow>
          (let (files, d1) = on_disk w sb d (sb_ListDir (xw_around (lw_exec w)) sb (dk_fs d) (ldq_Path q))
           in (map_res (\<lambda>fs. PListDirResponse \<lparr>lds_Path = ldq_Path q, lds_Files = Some (map wire_info fs)\<rparr>) files, d1)))"

definition dispatch_delete :: "link_world \<Rightarrow> Sandbox \<Rightarrow> disk \<Rightarrow> json option \<Rightarrow> payload res \<times> disk" where
  "dispatch_delete w sb d raw =
     (case un_raw un_delete_request raw of
        Inl e \<Rightarrow> (Inl e, d)
      | Inr q \<Rightarrow>
          (let (r, d1) = on_disk w sb d (sb_DeleteFile (xw_around (lw_exec w)) sb (dk_fs d) (dfq_Path q))
           in (map_res (\<lambda>x. PDeleteFileResponse \<lparr>dfs_Path = dfq_Path q, dfs_Existed = del_Existed x,
                 dfs_WasDirectory = del_WasDirectory x\<rparr>) r, d1)))"

definition dispatch_status :: "link_world \<Rightarrow> Link \<Rightarrow> Sandbox \<Rightarrow> payload" where
  "dispatch_status w l sb =
     (let s = GetStatus (xw_environ (lw_exec w)) sb
      in PStatusResponse \<lparr>st_RootDir = ss_RootDir s, st_DefaultTimeout = ss_DefaultTimeout s, st_MaxOutputBytes = ss_MaxOutputBytes s,
           st_EnvNames = Some (ss_EnvNames s), st_RunningCommands = ss_RunningCommand s, st_WorkerID = lc_WorkerID (lk_cfg l)\<rparr>)"

definition dispatch_kill :: "link_world \<Rightarrow> Sandbox \<Rightarrow> json option \<Rightarrow> payload res \<times> sb_effect list" where
  "dispatch_kill w sb raw =
     (case un_raw un_kill_request raw of
        Inl e \<Rightarrow> (Inl e, [])
      | Inr q \<Rightarrow> (let (n, trace) = KillAll (lw_now w) sb (kq_ByActor q) (kq_Reason q)
                  in (Inr (PKillResponse \<lparr>ks_Killed = int n\<rparr>), trace)))"

definition dispatch :: "link_world \<Rightarrow> Link \<Rightarrow> disk \<Rightarrow> Frame \<Rightarrow> payload res \<times> sb_effect list \<times> Link \<times> disk" where
  "dispatch w l d f =
     (if AgentID f = [] then (Inl (Plain ''request carries no agent id''), [], l, d)
      else
        (let (s, m, d1) = GetSandbox (lw_os w) (lw_cwd w) (lw_self w) (lk_manager l) d (AgentID f); l1 = l\<lparr>lk_manager := m\<rparr>
         in case s of
              Inl e \<Rightarrow> (Inl e, [], l1, d1)
            | Inr sb \<Rightarrow>
                if FOp f = OpExec
                then (let (r, trace, sb') = link_exec w sb d1 (Payload f) in (r, trace, put_sandbox (AgentID f) sb' l1, d1))
                else if FOp f = OpReadFile then (let (r, d2) = dispatch_read w (lk_limits l) sb d1 (Payload f) in (r, [], l1, d2))
                else if FOp f = OpWriteFile then (let (r, d2) = dispatch_write w (lk_limits l) sb d1 (Payload f) in (r, [], l1, d2))
                else if FOp f = OpListDir then (let (r, d2) = dispatch_list w sb d1 (Payload f) in (r, [], l1, d2))
                else if FOp f = OpDeleteFile then (let (r, d2) = dispatch_delete w sb d1 (Payload f) in (r, [], l1, d2))
                else if FOp f = OpStatus then (Inr (dispatch_status w l sb), [], l1, d1)
                else if FOp f = OpKill then (let (r, trace) = dispatch_kill w sb (Payload f) in (r, trace, l1, d1))
                else (Inl (Plain (''unknown operation '' @ quoted (FOp f))), [], l1, d1)))"

section \<open>handle\<close>

definition reply_to :: "Limits \<Rightarrow> Frame \<Rightarrow> payload res \<Rightarrow> Frame" where
  "reply_to lim f r =
     (let reply = zeroFrame\<lparr>Type := FrameResult, ID := ID f\<rparr> in
      case r of
        Inl e \<Rightarrow> reply\<lparr>Error := err_text e\<rparr>
      | Inr p \<Rightarrow>
          (let raw = Marshal p; most = sint (MaxPayloadBytes lim) in
           if most < int (jlen raw) then reply\<lparr>Error := err_text (ErrPayloadTooLarge (FOp f) (int (jlen raw)) most)\<rparr>
           else reply\<lparr>OK := True, Payload := Some raw\<rparr>))"

text \<open>The link is its sandboxes' event sink; \<open>wrote e\<close> is what the write of event \<open>e\<close> returned.\<close>

fun sink_acts :: "(Event \<Rightarrow> gerr option) \<Rightarrow> Link \<Rightarrow> sb_effect list \<Rightarrow> link_act list" where
  "sink_acts wrote l [] = []"
| "sink_acts wrote l (Publishes e # es) = forward (wrote e) l e @ sink_acts wrote l es"
| "sink_acts wrote l (x # es) = In_sandbox x # sink_acts wrote l es"

text \<open>A handler start to end, run alone: register, dispatch, answer, unregister.\<close>

definition link_handle :: "link_world \<Rightarrow> (Event \<Rightarrow> gerr option) \<Rightarrow> gerr option \<Rightarrow> nat \<Rightarrow> Link \<Rightarrow> disk \<Rightarrow> Frame \<Rightarrow> link_act list \<times> Link \<times> disk" where
  "link_handle w wrote answered k l d f =
     (let (r, trace, l1, d1) = dispatch w (link_register (ID f) k l) d f;
          (serr, acts) = link_send answered l1 (reply_to (lk_limits l) f r)
      in (sink_acts wrote l1 trace @ acts, link_unregister (ID f) l1, d1))"

section \<open>Handlers side by side\<close>

text \<open>
  The reading loop and the handlers as they interleave. A handler is a goroutine: spawned by the
  loop, later registered, later done with its work, and last it answers on whatever connection is
  then current. \<open>sy_read\<close> lists the requests read, with the connection each came on.
\<close>

datatype phase = Spawned Frame | Registered Frame | Answering Frame Frame

fun request_of :: "phase \<Rightarrow> Frame" where
  "request_of (Spawned f) = f"
| "request_of (Registered f) = f"
| "request_of (Answering f r) = f"

record link_sys =
  sy_link :: Link
  sy_disk :: disk
  sy_open :: bool
  sy_dialled :: nat
  sy_spawned :: nat
  sy_handlers :: "(nat, phase) gomap"
  sy_read :: "(nat \<times> Frame) list"
  sy_acts :: "link_act list"

definition start_sys :: "Link \<Rightarrow> disk \<Rightarrow> link_sys" where
  "start_sys l d = \<lparr>sy_link = l, sy_disk = d, sy_open = False, sy_dialled = 0, sy_spawned = 0, sy_handlers = [], sy_read = [], sy_acts = []\<rparr>"

definition sys_dial :: "gerr option \<Rightarrow> link_sys \<Rightarrow> link_sys" where
  "sys_dial wrote s =
     (let (e, acts, l) = link_dial None (sy_dialled s) wrote (sy_link s)
      in s\<lparr>sy_link := l, sy_open := (e = None), sy_dialled := Suc (sy_dialled s), sy_acts := sy_acts s @ acts\<rparr>)"

definition sys_request :: "Frame \<Rightarrow> link_sys \<Rightarrow> link_sys" where
  "sys_request f s = s\<lparr>sy_handlers := mset_key (sy_spawned s) (Spawned f) (sy_handlers s), sy_spawned := Suc (sy_spawned s),
     sy_read := sy_read s @ [(sy_dialled s - 1, f)]\<rparr>"

definition sys_cancel :: "u64 \<Rightarrow> link_sys \<Rightarrow> link_sys" where
  "sys_cancel i s = (let (acts, l) = link_cancel i (sy_link s) in s\<lparr>sy_link := l, sy_acts := sy_acts s @ acts\<rparr>)"

definition sys_lost :: "link_sys \<Rightarrow> link_sys" where
  "sys_lost s = s\<lparr>sy_open := False\<rparr>"

definition sys_register :: "nat \<Rightarrow> Frame \<Rightarrow> link_sys \<Rightarrow> link_sys" where
  "sys_register k f s = s\<lparr>sy_link := link_register (ID f) k (sy_link s), sy_handlers := mset_key k (Registered f) (sy_handlers s)\<rparr>"

definition sys_work :: "link_world \<Rightarrow> (Event \<Rightarrow> gerr option) \<Rightarrow> nat \<Rightarrow> Frame \<Rightarrow> link_sys \<Rightarrow> link_sys" where
  "sys_work w wrote k f s =
     (let (r, trace, l, d) = dispatch w (sy_link s) (sy_disk s) f
      in s\<lparr>sy_link := l, sy_disk := d, sy_handlers := mset_key k (Answering f (reply_to (lk_limits l) f r)) (sy_handlers s),
           sy_acts := sy_acts s @ sink_acts wrote l trace\<rparr>)"

definition sys_answer :: "gerr option \<Rightarrow> nat \<Rightarrow> Frame \<Rightarrow> Frame \<Rightarrow> link_sys \<Rightarrow> link_sys" where
  "sys_answer wrote k f r s =
     s\<lparr>sy_link := link_unregister (ID f) (sy_link s), sy_handlers := mdel k (sy_handlers s),
       sy_acts := sy_acts s @ snd (link_send wrote (sy_link s) r)\<rparr>"

inductive link_step :: "link_sys \<Rightarrow> link_sys \<Rightarrow> bool" where
  dial: "\<not> sy_open s \<Longrightarrow> link_step s (sys_dial wrote s)"
| request: "sy_open s \<Longrightarrow> Type f = FrameRequest \<Longrightarrow> link_step s (sys_request f s)"
| cancel: "sy_open s \<Longrightarrow> link_step s (sys_cancel i s)"
| lost: "sy_open s \<Longrightarrow> link_step s (sys_lost s)"
| registers: "mget (sy_handlers s) k = Some (Spawned f) \<Longrightarrow> link_step s (sys_register k f s)"
| works: "mget (sy_handlers s) k = Some (Registered f) \<Longrightarrow> link_step s (sys_work w wrote k f s)"
| answers: "mget (sy_handlers s) k = Some (Answering f r) \<Longrightarrow> link_step s (sys_answer wrote k f r s)"

inductive link_reach :: "link_sys \<Rightarrow> link_sys \<Rightarrow> bool" where
  start: "link_reach s s"
| step: "link_reach s s' \<Longrightarrow> link_step s' s'' \<Longrightarrow> link_reach s s''"

inductive_cases link_stepE: "link_step s s'"

lemmas sys_defs = sys_dial_def sys_request_def sys_cancel_def sys_lost_def sys_register_def sys_work_def sys_answer_def

text \<open>One session start to end, with no handler running meanwhile: the frames that are read, in order,
  until the connection fails. A frame of another type is logged and dropped.\<close>

definition session_read :: "Frame \<Rightarrow> link_sys \<Rightarrow> link_sys" where
  "session_read f s =
     (if Type f = FrameRequest then sys_request f s
      else if Type f = FrameCancel then sys_cancel (ID f) s
      else s)"

definition sys_session :: "gerr option \<Rightarrow> Frame list \<Rightarrow> link_sys \<Rightarrow> link_sys" where
  "sys_session wrote frames s =
     (let s1 = sys_dial wrote s in if sy_open s1 then sys_lost (fold session_read frames s1) else s1)"

lemma link_reach_trans: "link_reach s' s'' \<Longrightarrow> link_reach s s' \<Longrightarrow> link_reach s s''"
  by (induction rule: link_reach.induct) (auto intro: link_reach.step)

lemma link_reach_one: "link_step s s' \<Longrightarrow> link_reach s s'"
  by (rule link_reach.step [OF link_reach.start])

lemma session_read_reach:
  assumes "sy_open s" shows "link_reach s (session_read f s) \<and> sy_open (session_read f s)"
proof -
  have r: "sy_open (sys_request f s)" "sy_open (sys_cancel i s)" for i
    using assms by (simp_all add: sys_request_def sys_cancel_def split_beta)
  show ?thesis
    using assms r link_reach_one [OF link_step.request [OF assms]] link_reach_one [OF link_step.cancel [OF assms]] link_reach.start
    by (simp add: session_read_def)
qed

lemma session_reads_reach: "sy_open s \<Longrightarrow> link_reach s (fold session_read fs s) \<and> sy_open (fold session_read fs s)"
proof (induction fs arbitrary: s)
  case (Cons f fs)
  from session_read_reach [OF Cons.prems, of f] have f: "link_reach s (session_read f s)" "sy_open (session_read f s)" by simp_all
  from Cons.IH [OF f(2)] link_reach_trans [OF _ f(1)] show ?case by simp
qed (simp add: link_reach.start)

lemma session_reached:
  assumes "\<not> sy_open s" shows "link_reach s (sys_session wrote frames s)"
proof -
  have d: "link_reach s (sys_dial wrote s)" by (rule link_reach_one [OF link_step.dial [OF assms]])
  show ?thesis
  proof (cases "sy_open (sys_dial wrote s)")
    case True
    let ?t = "fold session_read frames (sys_dial wrote s)"
    from session_reads_reach [OF True] have "link_reach (sys_dial wrote s) ?t" "sy_open ?t" by simp_all
    then have "link_reach s (sys_lost ?t)" by (rule link_reach.step [OF link_reach_trans [OF _ d] link_step.lost])
    with True show ?thesis by (simp add: sys_session_def)
  qed (use d in \<open>simp add: sys_session_def\<close>)
qed

end
