(* ===== verification/Sandbox_Run.thy ===== *)
theory Sandbox_Run imports Sandbox_Exec begin

text \<open>
  What running a command promises: it runs as the agent, in a process group of its own, in a
  directory below the sandbox's root; its watchers are told of its start, of every byte it writes
  and, last, of its end, whichever way it ends; and an administrator's stop reaches every command
  that is running.
\<close>

section \<open>The working directory\<close>

lemma root_parts_plain: "c \<in> set (root_parts p) \<Longrightarrow> c \<noteq> dotdot \<Longrightarrow> plain_comp c"
  using split_on_sep [of c slash p] by (auto simp: root_parts_def plain_comp_def)

lemma eval_links_plain:
  "eval_links links fs cur todo = Inr p \<Longrightarrow> list_all plain_comp cur \<Longrightarrow> (\<forall>c\<in>set todo. c \<noteq> dotdot \<longrightarrow> plain_comp c) \<Longrightarrow>
   list_all plain_comp p"
proof (induction links fs cur todo rule: eval_links.induct)
  case (2 links fs cur c cs)
  note w0 = "2.prems"(1) and cur = "2.prems"(2)
  have cs: "\<forall>c\<in>set cs. c \<noteq> dotdot \<longrightarrow> plain_comp c" using "2.prems"(3) by simp
  show ?case
  proof (cases "c = dotdot")
    case True
    have "list_all plain_comp (butlast cur)" using cur by (auto simp: list_all_iff dest: in_set_butlastD)
    with "2.IH"(1) [OF True _ _ cs] w0 True show ?thesis by simp
  next
    case False
    then have cc: "list_all plain_comp (cur @ [c])" using cur "2.prems"(3) by simp
    from w0 False obtain n where n: "mget fs (cur @ [c]) = Some n" by (cases "mget fs (cur @ [c])") auto
    show ?thesis
    proof (cases n)
      case (FileN a b d)
      with w0 n False have "p = cur @ [c]" by (auto split: if_splits)
      with cc show ?thesis by simp
    next
      case (DirN a b d)
      with "2.IH"(2) [OF False n DirN _ cc cs] w0 n False show ?thesis by simp
    next
      case (LinkN t m)
      from w0 n False LinkN obtain k where k: "links = Suc k" by (cases links) auto
      have "\<forall>c\<in>set (root_parts t @ cs). c \<noteq> dotdot \<longrightarrow> plain_comp c" using cs root_parts_plain by auto
      with "2.IH"(3) [OF False n LinkN k] w0 n False LinkN k cur show ?thesis by simp
    qed
  qed
qed simp

lemma EvalSymlinks_real:
  assumes "EvalSymlinks fs path = Inr d" shows "real_path fs (comps d) \<and> IsAbs d"
proof -
  obtain p where p: "eval_links max_links fs [] (root_parts path) = Inr p" "d = render True p"
    using assms by (auto simp: EvalSymlinks_def split: sum.splits)
  have "list_all plain_comp p" using eval_links_plain [OF p(1)] root_parts_plain by simp
  then have "ups_then_plain True p" unfolding ups_then_plain_def
    by (intro exI [of _ 0] exI [of _ p]) (simp add: list_all_iff)
  then have "comps d = p" "IsAbs d" by (simp_all add: p(2) comps_render IsAbs_render)
  moreover have "real_path fs []" by (simp add: real_path_def)
  ultimately show ?thesis using eval_links_real [OF p(1)] by simp
qed

lemma workdir_below:
  assumes "IsAbs (RootDir (sb_config s))" "resolveWorkDir u s fs wd = Inr d"
  shows "\<exists>r. inside r \<and> comps d = comps (RootDir (sb_config s)) @ comps r \<and> (sb_ops s = None \<longrightarrow> real_path fs (comps d))"
proof -
  let ?root = "RootDir (sb_config s)"
  obtain n where n: "relativeName s wd = Inr n" using assms(2) by (auto simp: resolveWorkDir_def split: sum.splits)
  note below = nm.lands_below [OF assms(1) n] relativeName_inside [OF assms(1) n]
  show ?thesis
  proof (cases "sb_ops s")
    case None
    then have e: "EvalSymlinks fs (Join [?root, n]) = Inr d" and
      r: "\<exists>rel. Rel ?root d = Inr rel \<and> \<not> (rel = dotdot \<or> HasPrefix rel (dotdot @ [slash]))"
      using assms(2) n by (auto simp: resolveWorkDir_def Let_def simp del: Join.simps split: sum.splits if_splits)
    from r obtain rel where rel: "Rel ?root d = Inr rel" "\<not> (rel = dotdot \<or> HasPrefix rel (dotdot @ [slash]))" by blast
    from EvalSymlinks_real [OF e] Rel_abs [OF assms(1) _ rel] show ?thesis by blast
  next
    case (Some r)
    then have "d = Join [?root, n]"
      using assms(2) n by (auto simp: resolveWorkDir_def Let_def simp del: Join.simps split: sum.splits if_splits)
    with below Some show ?thesis by auto
  qed
qed

section \<open>The trace\<close>

fun published :: "sb_effect list \<Rightarrow> Event list" where
  "published [] = []"
| "published (Publishes e # es) = e # published es"
| "published (_ # es) = published es"

fun starts :: "sb_effect list \<Rightarrow> spawned list" where
  "starts [] = []"
| "starts (Start c # es) = c # starts es"
| "starts (_ # es) = starts es"

lemma published_append [simp]: "published (a @ b) = published a @ published b"
  by (induction a rule: published.induct) auto

lemma starts_append [simp]: "starts (a @ b) = starts a @ starts b"
  by (induction a rule: starts.induct) auto

lemma starts_publish [simp]: "starts (publish s t e) = []" "starts (concat (map (publish s t) es)) = []"
  by (simp add: publish_def) (induction es; simp add: publish_def)

lemma published_publish:
  "sb_bus s \<Longrightarrow> published (publish s t e) = [e\<lparr>SandboxID := sb_id s, At := t\<rparr>]"
  "sb_bus s \<Longrightarrow> published (concat (map (publish s t) es)) = map (\<lambda>e. e\<lparr>SandboxID := sb_id s, At := t\<rparr>) es"
  by (simp add: publish_def) (induction es; simp add: publish_def)

lemma running_after_append [simp]: "running_after (a @ b) s = running_after b (running_after a s)"
  by (induction a s rule: running_after.induct) auto

lemma running_after_publish [simp]:
  "running_after (publish s t e) s' = s'" "running_after (concat (map (publish s t) es)) s' = s'"
  by (simp add: publish_def) (induction es arbitrary: s'; simp add: publish_def)

lemma track_untrack: "i \<notin> set (sb_running s) \<Longrightarrow> untrackRunning i (trackRunning i s) = s"
proof -
  assume "i \<notin> set (sb_running s)"
  moreover from this have "filter (\<lambda>j. j \<noteq> i) (sb_running s) = sb_running s" by (intro filter_True) auto
  ultimately show ?thesis by (simp add: untrackRunning_def trackRunning_def)
qed

lemma venv_trace: "ensureVenv look stat ended s = (s', t) \<Longrightarrow>
    published t = [] \<and> running_after t x = x \<and> sb_bus s' = sb_bus s \<and> sb_id s' = sb_id s \<and> sb_running s' = sb_running s \<and>
    sb_config s' = sb_config s \<and> sb_uid s' = sb_uid s \<and> sb_ops s' = sb_ops s"
  by (auto simp: ensureVenv_def createVenv_def Let_def split: if_splits sum.splits)

lemma filter_interleave:
  "\<forall>x\<in>set xs. P x \<Longrightarrow> \<forall>y\<in>set ys. \<not> P y \<Longrightarrow> filter P (interleave bs xs ys) = xs"
  by (induction bs xs ys rule: interleave.induct) auto

lemma filter_interleave2:
  "\<forall>x\<in>set xs. \<not> P x \<Longrightarrow> \<forall>y\<in>set ys. P y \<Longrightarrow> filter P (interleave bs xs ys) = ys"
  by (induction bs xs ys rule: interleave.induct) auto

lemma set_interleave [simp]: "set (interleave bs xs ys) = set xs \<union> set ys"
  by (induction bs xs ys rule: interleave.induct) auto

text \<open>The events of one command, as its watchers get them.\<close>

definition told :: "Sandbox \<Rightarrow> exec_world \<Rightarrow> string \<Rightarrow> string list \<Rightarrow> string \<Rightarrow> ExecResult \<Rightarrow> Event list \<Rightarrow> bool" where
  "told s w program args workDir r es \<longleftrightarrow>
     (\<exists>first mid fin. es = first # mid @ [fin] \<and>
        Kind first = EventStarted \<and> Command first = commandLine program args \<and> WorkDir first = workDir \<and>
        concat (map Data (filter (\<lambda>e. Kind e = EventStdout) mid)) = concat (xw_stdout w) \<and>
        concat (map Data (filter (\<lambda>e. Kind e = EventStderr) mid)) = concat (xw_stderr w) \<and>
        (\<forall>e\<in>set mid. Kind e = EventStdout \<or> Kind e = EventStderr) \<and>
        Kind fin = EventFinished \<and> ExitCode fin = res_ExitCode r \<and> Truncated fin = res_Truncated r \<and> DurationMs fin = res_DurationMs r \<and>
        (\<forall>e\<in>set es. ExecID e = xw_uuid w \<and> SandboxID e = sb_id s \<and> At e = xw_now w))"

lemma kinds_differ: "EventStdout \<noteq> EventStderr"
  by (simp add: event_kind_defs)

lemma mid_data:
  assumes "\<forall>e\<in>set xs. Kind e = EventStdout" "\<forall>e\<in>set ys. Kind e = EventStderr" "\<And>e. Kind (f e) = Kind e" "\<And>e. Data (f e) = Data e"
  shows "map Data (filter (\<lambda>e. Kind e = EventStdout) (map f (interleave bs xs ys))) = map Data xs"
    "map Data (filter (\<lambda>e. Kind e = EventStderr) (map f (interleave bs xs ys))) = map Data ys"
proof -
  have "filter (\<lambda>e. Kind e = EventStdout) (interleave bs xs ys) = xs"
    by (rule filter_interleave) (use assms kinds_differ in auto)
  moreover have "filter (\<lambda>e. Kind e = EventStderr) (interleave bs xs ys) = ys"
    by (rule filter_interleave2) (use assms kinds_differ in auto)
  ultimately show "map Data (filter (\<lambda>e. Kind e = EventStdout) (map f (interleave bs xs ys))) = map Data xs"
    "map Data (filter (\<lambda>e. Kind e = EventStderr) (map f (interleave bs xs ys))) = map Data ys"
    by (simp_all add: filter_map comp_def assms(3,4))
qed

definition exec_end :: "exec_world \<Rightarrow> ExecResult \<Rightarrow> gerr option \<Rightarrow> bool" where
  "exec_end w r e \<longleftrightarrow>
     (case xw_ctx w of
        CtxDeadline \<Rightarrow> e = Some ErrCommandTimeout \<and> res_ExitCode r = -1
      | CtxCanceled \<Rightarrow> e = Some ErrCommandStopped \<and> res_ExitCode r = -1
      | CtxLive \<Rightarrow> e = None \<and> res_ExitCode r = (case xw_wait w of WaitOk \<Rightarrow> 0 | WaitExit c \<Rightarrow> c | WaitFailed \<Rightarrow> 1))"

lemma exec_run_shape:
  assumes "exec_run w s program args timeout workDir = ((r, e), t)"
  obtains code why where
    "t = Tracks (xw_uuid w)
       # publish s (xw_now w) (zeroEvent\<lparr>Kind := EventStarted, ExecID := xw_uuid w, Command := commandLine program args, WorkDir := workDir\<rparr>)
       @ concat (map (publish s (xw_now w)) (interleave (xw_order w)
           (fst (pump EventStdout (xw_uuid w) (xw_stdout w) (NewCappedBuffer (MaxOutput (sb_config s)))))
           (fst (pump EventStderr (xw_uuid w) (xw_stderr w) (NewCappedBuffer (MaxOutput (sb_config s)))))))
       @ publish s (xw_now w) (finished_event w code (res_Truncated r) why) @ [Untracks (xw_uuid w)]"
    "code = res_ExitCode r" "res_DurationMs r = xw_ms w" "exec_end w r e" "res_ExecID r = xw_uuid w"
  using assms
  by (cases "xw_ctx w") (auto simp: exec_run_def Let_def split_beta exec_end_def zeroExecResult_def)

lemma exec_run_told:
  assumes "exec_run w s program args timeout workDir = ((r, e), t)" "sb_bus s"
  shows "told s w program args workDir r (published t) \<and> exec_end w r e \<and> starts t = [] \<and>
    (\<forall>x. xw_uuid w \<notin> set (sb_running x) \<longrightarrow> running_after t x = x)"
proof -
  obtain code why where t: "t = Tracks (xw_uuid w)
       # publish s (xw_now w) (zeroEvent\<lparr>Kind := EventStarted, ExecID := xw_uuid w, Command := commandLine program args, WorkDir := workDir\<rparr>)
       @ concat (map (publish s (xw_now w)) (interleave (xw_order w)
           (fst (pump EventStdout (xw_uuid w) (xw_stdout w) (NewCappedBuffer (MaxOutput (sb_config s)))))
           (fst (pump EventStderr (xw_uuid w) (xw_stderr w) (NewCappedBuffer (MaxOutput (sb_config s)))))))
       @ publish s (xw_now w) (finished_event w code (res_Truncated r) why) @ [Untracks (xw_uuid w)]"
    and c: "code = res_ExitCode r" "res_DurationMs r = xw_ms w" "exec_end w r e"
    by (rule exec_run_shape [OF assms(1)])
  let ?outs = "fst (pump EventStdout (xw_uuid w) (xw_stdout w) (NewCappedBuffer (MaxOutput (sb_config s))))"
  let ?errs = "fst (pump EventStderr (xw_uuid w) (xw_stderr w) (NewCappedBuffer (MaxOutput (sb_config s))))"
  let ?f = "\<lambda>e. e\<lparr>SandboxID := sb_id s, At := xw_now w\<rparr>"
  let ?mid = "map ?f (interleave (xw_order w) ?outs ?errs)"
  let ?st = "?f (zeroEvent\<lparr>Kind := EventStarted, ExecID := xw_uuid w, Command := commandLine program args, WorkDir := workDir\<rparr>)"
  let ?fin = "?f (finished_event w code (res_Truncated r) why)"
  have p: "published t = ?st # ?mid @ [?fin]" by (simp add: t published_publish [OF assms(2)])
  have k: "\<forall>e\<in>set ?outs. Kind e = EventStdout" "\<forall>e\<in>set ?errs. Kind e = EventStderr"
    "\<forall>e\<in>set ?outs \<union> set ?errs. ExecID e = xw_uuid w"
    using pump_kind by blast+
  have d: "concat (map Data ?outs) = concat (xw_stdout w)" "concat (map Data ?errs) = concat (xw_stderr w)"
    by (simp_all add: pump_data runes.chunks_concat)
  have m: "concat (map Data (filter (\<lambda>e. Kind e = EventStdout) ?mid)) = concat (xw_stdout w)"
    "concat (map Data (filter (\<lambda>e. Kind e = EventStderr) ?mid)) = concat (xw_stderr w)"
    using mid_data [OF k(1,2), of ?f "xw_order w"] d by simp_all
  have "told s w program args workDir r (published t)"
    unfolding told_def p
    using k m c(1,2) by (intro exI [of _ ?st] exI [of _ ?mid] exI [of _ ?fin]) (auto simp: finished_event_def)
  moreover have "starts t = []" by (simp add: t)
  moreover have "running_after t x = x" if "xw_uuid w \<notin> set (sb_running x)" for x
    using track_untrack [OF that] by (simp add: t)
  ultimately show ?thesis using c(3) by blast
qed

text \<open>Either the command was refused, having at most created the environment, or it was started.\<close>

definition exec_dir :: "exec_world \<Rightarrow> Sandbox \<Rightarrow> fs \<Rightarrow> string \<Rightarrow> string res" where
  "exec_dir w s fs workDir = (if workDir \<noteq> [] then resolveWorkDir (xw_around w) s fs workDir else Inr (RootDir (sb_config s)))"

lemma ExecCommand_cases:
  assumes "ExecCommand w s fs program args timeout workDir = ((r, e), t, s')"
    and v: "ensureVenv (xw_environ w) (xw_stat w) (xw_venv_ran w) s = (s1, venv)"
  shows "(e \<noteq> None \<and> (t = [] \<or> t = venv) \<and> res_Stdout r = [] \<and> res_Stderr r = [] \<and> res_ExitCode r = 0) \<or>
    (\<exists>dir resolved t1 tmo. exec_dir w s fs workDir = Inr dir \<and>
       t = venv @ Start \<lparr>sp_path = resolved, sp_args = args, sp_dir = dir,
             sp_env = buildEnv (xw_environ w) (sb_config s) dir (venvBinDir s1), sp_attr = DropTo (Configure None) (sb_uid s1)\<rparr> # t1 \<and>
       exec_run w s1 program args tmo workDir = ((r, e), t1) \<and> s' = s1)"
proof (cases "exec_dir w s fs workDir")
  case (Inl err)
  then show ?thesis using assms(1) by (auto simp: ExecCommand_def exec_dir_def Let_def zeroExecResult_def)
next
  case dir: (Inr dir)
  let ?env = "buildEnv (xw_environ w) (sb_config s) dir (venvBinDir s1)"
  note unf = ExecCommand_def Let_def v dir [unfolded exec_dir_def]
  show ?thesis
  proof (cases "lookProgramForAgent (xw_around w) (xw_stat w) s1 fs program ?env")
    case (Inl err)
    then show ?thesis using assms(1) by (auto simp: unf zeroExecResult_def)
  next
    case look: (Inr resolved)
    show ?thesis
    proof (cases "xw_stdout_pipe w = None \<and> xw_stderr_pipe w = None \<and> xw_start w = None")
      case True
      then show ?thesis using assms(1) look dir by (auto simp: unf split: prod.splits)
    next
      case False
      then show ?thesis using assms(1) look by (auto simp: unf zeroExecResult_def split: option.splits)
    qed
  qed
qed

section \<open>Properties\<close>

text \<open>C13: a command's watchers are told everything about it and nothing else: first that it started,
  with the exact command line, then each stream in full and in order whatever the interleaving,
  last how it ended, with the exit code the caller gets; a timeout, a stop and an exit are told
  apart; and a call that was refused is not heard of, is an error and starts no command of the
  agent's. In every case the running set is afterwards what it was.\<close>

theorem watchers_are_told_the_whole_command:
  assumes "ExecCommand w s fs program args timeout workDir = ((r, e), t, s')" "sb_bus s"
    "xw_uuid w \<notin> set (sb_running s)"
  shows "running_after t s = s \<and>
    (if published t = [] then e \<noteq> None \<and> starts t \<in> {[], starts (snd (ensureVenv (xw_environ w) (xw_stat w) (xw_venv_ran w) s))}
     else told s w program args workDir r (published t) \<and> exec_end w r e)"
proof -
  obtain s1 venv where v: "ensureVenv (xw_environ w) (xw_stat w) (xw_venv_ran w) s = (s1, venv)" by fastforce
  note vt = venv_trace [OF v, of s]
  from ExecCommand_cases [OF assms(1) v] show ?thesis
  proof
    assume "e \<noteq> None \<and> (t = [] \<or> t = venv) \<and> res_Stdout r = [] \<and> res_Stderr r = [] \<and> res_ExitCode r = 0"
    with vt v show ?thesis by auto
  next
    assume "\<exists>dir resolved t1 tmo. exec_dir w s fs workDir = Inr dir \<and>
       t = venv @ Start \<lparr>sp_path = resolved, sp_args = args, sp_dir = dir,
             sp_env = buildEnv (xw_environ w) (sb_config s) dir (venvBinDir s1), sp_attr = DropTo (Configure None) (sb_uid s1)\<rparr> # t1 \<and>
       exec_run w s1 program args tmo workDir = ((r, e), t1) \<and> s' = s1"
    then obtain dir resolved t1 tmo where t: "t = venv @ Start \<lparr>sp_path = resolved, sp_args = args, sp_dir = dir,
             sp_env = buildEnv (xw_environ w) (sb_config s) dir (venvBinDir s1), sp_attr = DropTo (Configure None) (sb_uid s1)\<rparr> # t1"
      and r: "exec_run w s1 program args tmo workDir = ((r, e), t1)" by blast
    have b: "sb_bus s1" using vt assms(2) by simp
    note q = exec_run_told [OF r b]
    have p: "published t = published t1" using vt by (simp add: t)
    have "told s w program args workDir r (published t)" using q vt p by (simp add: told_def)
    moreover from this have "published t \<noteq> []" by (auto simp: told_def)
    moreover have "running_after t s = s" using q vt assms(3) by (simp add: t)
    ultimately show ?thesis using q by simp
  qed
qed

definition sample_world :: exec_world where
  "sample_world = \<lparr>xw_environ = (\<lambda>_. None), xw_stat = (\<lambda>_. Inr (False, 493)), xw_around = sample_surround, xw_venv_ran = None,
     xw_uuid = ''x1'', xw_stdout_pipe = None, xw_stderr_pipe = None, xw_start = None, xw_stdout = [''hi''], xw_stderr = [''no''],
     xw_order = [False], xw_ctx = CtxLive, xw_wait = WaitExit 3, xw_ms = 5, xw_now = 0\<rparr>"

lemma watchers_are_told_the_whole_command_witness:
  "\<exists>r e t s'. ExecCommand sample_world sample_sandbox sample_fs ''/bin/ls'' [''-l''] 0 [] = ((r, e), t, s') \<and>
     told sample_sandbox sample_world ''/bin/ls'' [''-l''] [] r (published t) \<and> exec_end sample_world r e"
proof -
  let ?x = "ExecCommand sample_world sample_sandbox sample_fs ''/bin/ls'' [''-l''] 0 []"
  obtain r e t s' where x: "?x = ((r, e), t, s')" by (metis prod.collapse)
  have "published (fst (snd ?x)) \<noteq> []" by code_simp
  then have "published t \<noteq> []" using x by simp
  moreover have "sb_bus sample_sandbox" "xw_uuid sample_world \<notin> set (sb_running sample_sandbox)"
    by (simp_all add: sample_sandbox_def)
  ultimately show ?thesis using watchers_are_told_the_whole_command [OF x] x by (auto split: if_splits)
qed



text \<open>An administrator's stop announces, then cancels, every command that is running, in the
  same order, and reports how many it was.\<close>

theorem KillAll_announces_then_cancels:
  "fst (KillAll now s byActor why) = length (sb_running s) \<and>
   snd (KillAll now s byActor why) = concat (map (\<lambda>i.
     (if sb_bus s then [Publishes (zeroEvent\<lparr>Kind := EventKilled, ExecID := i, ByActor := byActor, Reason := why, SandboxID := sb_id s, At := now\<rparr>)]
      else []) @ [Cancels i]) (sb_running s)) \<and>
   running_after (snd (KillAll now s byActor why)) s = s"
proof -
  have "running_after (concat (map (\<lambda>i. publish s now (f i) @ [Cancels i]) is)) x = x" for f :: "string \<Rightarrow> Event" and "is" x
    by (induction "is") simp_all
  then show ?thesis by (simp add: KillAll_def) (simp add: publish_def)
qed

text \<open>A program named by a path. In this process it stands for itself, to be found from the
  command's own working directory; through the helper it is looked for where the helper runs, so
  an agent's own script is not found although the command would have found it.\<close>

theorem path_programs_differ_by_mode:
  assumes "slash \<in> set program" "TrimSpace program \<noteq> []" "su_child u = Ran" "program = to_valid program"
  shows "lookProgramForAgent u stat (s\<lparr>sb_ops := None\<rparr>) fs program env = Inr program \<and>
    (is_ok (lookProgramForAgent u stat (s\<lparr>sb_ops := Some k\<rparr>) fs program env) \<longleftrightarrow> su_exec u program = None)"
proof -
  have look: "to_valid OpLook = OpLook" by code_simp
  have n: "rq_Name (piped_request q) = to_valid (rq_Name q)" for q by simp
  show ?thesis
  proof (cases "su_exec u program")
    case None
    then show ?thesis using assms
      by (simp add: lookProgramForAgent_def lookProgram_def ask_helper_ran Perform_def look LookPath_def Let_def
          Err_def piped_response_def zeroResponse_def)
  next
    case (Some e)
    then show ?thesis using assms
      by (simp add: lookProgramForAgent_def lookProgram_def ask_helper_ran Perform_def look LookPath_def Let_def failed_is_error)
  qed
qed

lemma path_programs_differ_by_mode_witness:
  "\<not> is_ok (lookProgramForAgent (sample_surround\<lparr>su_exec := (\<lambda>p. Some ErrNotExist)\<rparr>) (\<lambda>_. Inr (False, 493))
      (sample_sandbox\<lparr>sb_ops := Some sample_runner\<rparr>) sample_fs ''./build.sh'' [])"
proof -
  have "slash \<in> set ''./build.sh''" by (simp add: slash_def)
  moreover have "TrimSpace ''./build.sh'' \<noteq> []" by code_simp
  moreover have "''./build.sh'' = to_valid ''./build.sh''" by code_simp
  moreover have "su_child (sample_surround\<lparr>su_exec := (\<lambda>p. Some ErrNotExist)\<rparr>) = Ran" by (simp add: sample_surround_def)
  ultimately show ?thesis
    using path_programs_differ_by_mode [of "''./build.sh''" "sample_surround\<lparr>su_exec := (\<lambda>p. Some ErrNotExist)\<rparr>"] by simp
qed

end
