(* ===== verification/Worker_Link_Props.thy ===== *)
theory Worker_Link_Props imports Worker_Link Sandbox_Run begin

text \<open>
  What the worker's end of the link promises: a configuration that is accepted, limits that are
  enforced before a file is moved, how a command's end crosses the wire, one answer per request in
  every interleaving of the reading loop with the handlers; and where it falls short: an answer
  that outlives its connection, a cancel that overtakes its request, a wait that only grows.
\<close>

section \<open>Counting\<close>

definition wt :: "('v \<Rightarrow> bool) \<Rightarrow> ('k, 'v) gomap \<Rightarrow> nat" where
  "wt P m = length (filter (\<lambda>(k, v). P v) m)"

lemma wt_new: "mget m k = None \<Longrightarrow> wt P (mset_key k v m) = wt P m + (if P v then 1 else 0)"
  by (induction m) (auto simp: wt_def)

lemma wt_old: "mwf m \<Longrightarrow> mget m k = Some u \<Longrightarrow>
    wt P (mset_key k v m) + (if P u then 1 else 0) = wt P m + (if P v then 1 else 0)"
proof (induction m)
  case (Cons x m)
  obtain k' v' where x: "x = (k', v')" by fastforce
  show ?case
  proof (cases "k' = k")
    case True
    with Cons.prems x show ?thesis by (auto simp: wt_def)
  next
    case False
    with Cons x show ?thesis by (auto simp: wt_def split: if_splits)
  qed
qed simp

lemma wt_del: "mwf m \<Longrightarrow> mget m k = Some u \<Longrightarrow> wt P (mdel k m) + (if P u then 1 else 0) = wt P m"
proof (induction m)
  case (Cons x m)
  obtain k' v' where x: "x = (k', v')" by fastforce
  show ?case
  proof (cases "k' = k")
    case True
    with Cons.prems x have "mdel k m = m" by simp
    with True Cons.prems x show ?thesis by (simp add: wt_def)
  next
    case False
    with Cons x show ?thesis by (auto simp: wt_def split: if_splits)
  qed
qed simp

definition is_result :: "u64 \<Rightarrow> link_act \<Rightarrow> bool" where
  "is_result i a = (case a of Wrote c f \<Rightarrow> Type f = FrameResult \<and> ID f = i | _ \<Rightarrow> False)"

definition results :: "u64 \<Rightarrow> link_act list \<Rightarrow> nat" where
  "results i acts = length (filter (is_result i) acts)"

definition asked :: "u64 \<Rightarrow> link_sys \<Rightarrow> nat" where
  "asked i s = length (filter (\<lambda>(c, f). ID f = i) (sy_read s))"

definition working :: "u64 \<Rightarrow> link_sys \<Rightarrow> nat" where
  "working i s = wt (\<lambda>p. ID (request_of p) = i) (sy_handlers s)"

lemma results_append [simp]: "results i (a @ b) = results i a + results i b"
  by (simp add: results_def)

lemma results_Nil [simp]: "results i [] = 0"
  by (simp add: results_def)

lemma send_results: "results i (snd (link_send wrote l f)) \<le> (if Type f = FrameResult \<and> ID f = i then 1 else 0)"
  by (auto simp: link_send_def results_def is_result_def split: option.splits)

lemma forward_results [simp]: "results i (forward wrote l e) = 0"
  by (auto simp: forward_def link_send_def results_def is_result_def zeroFrame_def frame_types split: option.splits)

lemma sink_results [simp]: "results i (sink_acts wrote l es) = 0"
proof (induction es)
  case (Cons x es)
  then show ?case by (cases x) (auto simp: results_def is_result_def simp del: forward_results simp: forward_results [unfolded results_def])
qed simp

lemma cancel_results [simp]: "results i (fst (link_cancel j l)) = 0"
  by (auto simp: link_cancel_def results_def is_result_def split: option.splits)

lemma dial_results: "link_dial d c wrote l = (e, acts, l') \<Longrightarrow> results i acts = 0"
  by (auto simp: link_dial_def link_send_def hello_frame_def results_def is_result_def zeroFrame_def frame_types Let_def
      split: option.splits if_splits)

lemma reply_type: "Type (reply_to lim f r) = FrameResult" "ID (reply_to lim f r) = ID f"
  by (auto simp: reply_to_def Let_def zeroFrame_def split: sum.splits)

section \<open>One answer per request\<close>

definition link_inv :: "link_sys \<Rightarrow> bool" where
  "link_inv s \<longleftrightarrow> mwf (sy_handlers s) \<and> (\<forall>k p. mget (sy_handlers s) k = Some p \<longrightarrow> k < sy_spawned s) \<and>
     (\<forall>k f r. mget (sy_handlers s) k = Some (Answering f r) \<longrightarrow> Type r = FrameResult \<and> ID r = ID f) \<and>
     (\<forall>i. results i (sy_acts s) + working i s \<le> asked i s)"

lemma link_inv_start: "link_inv (start_sys l d)"
  by (simp add: link_inv_def start_sys_def working_def wt_def)

lemma link_inv_bound: "link_inv s \<Longrightarrow> mget (sy_handlers s) k = Some p \<Longrightarrow> k < sy_spawned s"
  by (simp only: link_inv_def)

lemma link_inv_reply: "link_inv s \<Longrightarrow> mget (sy_handlers s) k = Some (Answering f r) \<Longrightarrow> Type r = FrameResult \<and> ID r = ID f"
  by (simp only: link_inv_def)

lemma link_inv_count: "link_inv s \<Longrightarrow> results i (sy_acts s) + working i s \<le> asked i s"
  by (simp only: link_inv_def)

lemma link_inv_mwf: "link_inv s \<Longrightarrow> mwf (sy_handlers s)"
  by (simp only: link_inv_def)

lemma link_invI:
  assumes "mwf (sy_handlers s)" "\<And>k p. mget (sy_handlers s) k = Some p \<Longrightarrow> k < sy_spawned s"
    and "\<And>k f r. mget (sy_handlers s) k = Some (Answering f r) \<Longrightarrow> Type r = FrameResult \<and> ID r = ID f"
    and "\<And>i. results i (sy_acts s) + working i s \<le> asked i s"
  shows "link_inv s"
  unfolding link_inv_def using assms by blast

lemma link_inv_same:
  assumes "link_inv s" "sy_handlers s' = sy_handlers s" "sy_spawned s' = sy_spawned s" "sy_read s' = sy_read s"
    and "\<And>i. results i (sy_acts s') = results i (sy_acts s)"
  shows "link_inv s'"
  using assms(1) unfolding link_inv_def working_def asked_def assms(2-5) .

lemma link_inv_phase:
  assumes I: "link_inv s" and k: "mget (sy_handlers s) k = Some p" and q: "request_of q = request_of p"
    and A: "\<And>f r. q = Answering f r \<Longrightarrow> Type r = FrameResult \<and> ID r = ID f"
    and s': "sy_handlers s' = mset_key k q (sy_handlers s)" "sy_spawned s' = sy_spawned s" "sy_read s' = sy_read s"
      "\<And>i. results i (sy_acts s') = results i (sy_acts s)"
  shows "link_inv s'"
proof (rule link_invI)
  show "mwf (sy_handlers s')" using link_inv_mwf [OF I] by (simp add: s'(1))
next
  fix k' p' assume "mget (sy_handlers s') k' = Some p'"
  then show "k' < sy_spawned s'" using link_inv_bound [OF I k] link_inv_bound [OF I, of k']
    by (cases "k' = k") (simp_all add: s' del: map_of_eq_Some_iff)
next
  fix k' f r assume "mget (sy_handlers s') k' = Some (Answering f r)"
  then show "Type r = FrameResult \<and> ID r = ID f" using A [of f r] link_inv_reply [OF I, of k' f r]
    by (cases "k' = k") (simp_all add: s' del: map_of_eq_Some_iff)
next
  fix i
  have "working i s' = working i s"
    using wt_old [OF link_inv_mwf [OF I] k, of "\<lambda>p. ID (request_of p) = i" q] unfolding working_def s'(1) q by simp
  then show "results i (sy_acts s') + working i s' \<le> asked i s'" using link_inv_count [OF I, of i] by (simp add: s' asked_def)
qed

lemma link_inv_step: "link_step s s' \<Longrightarrow> link_inv s \<Longrightarrow> link_inv s'"
proof (induction rule: link_step.induct)
  case (dial s wrote)
  obtain e acts l where d: "link_dial None (sy_dialled s) wrote (sy_link s) = (e, acts, l)" by (metis prod.collapse)
  show ?case by (rule link_inv_same [OF dial(2)]) (simp_all add: sys_dial_def d dial_results [OF d])
next
  case (request s f)
  note I = request(3)
  have n: "mget (sy_handlers s) (sy_spawned s) = None"
    using link_inv_bound [OF I, of "sy_spawned s"] by (cases "mget (sy_handlers s) (sy_spawned s)") simp_all
  show ?case
  proof (rule link_invI)
    show "mwf (sy_handlers (sys_request f s))" using link_inv_mwf [OF I] by (simp add: sys_request_def)
  next
    fix k p assume "mget (sy_handlers (sys_request f s)) k = Some p"
    then show "k < sy_spawned (sys_request f s)" using link_inv_bound [OF I, of k p]
      by (cases "k = sy_spawned s") (simp_all add: sys_request_def del: map_of_eq_Some_iff)
  next
    fix k f' r assume "mget (sy_handlers (sys_request f s)) k = Some (Answering f' r)"
    then show "Type r = FrameResult \<and> ID r = ID f'" using link_inv_reply [OF I, of k f' r]
      by (cases "k = sy_spawned s") (simp_all add: sys_request_def del: map_of_eq_Some_iff)
  next
    fix i
    show "results i (sy_acts (sys_request f s)) + working i (sys_request f s) \<le> asked i (sys_request f s)"
      using link_inv_count [OF I, of i] wt_new [OF n, of "\<lambda>p. ID (request_of p) = i" "Spawned f"]
      by (simp add: working_def asked_def sys_request_def)
  qed
next
  case (cancel s i)
  obtain acts l where c: "link_cancel i (sy_link s) = (acts, l)" by fastforce
  have "results j acts = 0" for j using cancel_results [of j i "sy_link s"] by (simp add: c)
  then show ?case by (intro link_inv_same [OF cancel(2)]) (simp_all add: sys_cancel_def c)
next
  case (lost s)
  show ?case by (rule link_inv_same [OF lost(2)]) (simp_all add: sys_lost_def)
next
  case (registers s k f)
  show ?case by (rule link_inv_phase [OF registers(2,1), of "Registered f"]) (simp_all add: sys_register_def)
next
  case (works s k f w wrote)
  obtain r trace l d where x: "dispatch w (sy_link s) (sy_disk s) f = (r, trace, l, d)" by (metis prod.collapse)
  show ?case by (rule link_inv_phase [OF works(2,1), of "Answering f (reply_to (lk_limits l) f r)"])
      (auto simp: sys_work_def x reply_type)
next
  case (answers s k f r wrote)
  note I = answers(2)
  let ?s' = "sys_answer wrote k f r s"
  have t: "Type r = FrameResult" "ID r = ID f" using link_inv_reply [OF I answers(1)] by simp_all
  show ?case
  proof (rule link_invI)
    show "mwf (sy_handlers ?s')" using link_inv_mwf [OF I] by (simp add: sys_answer_def)
  next
    fix k' p assume "mget (sy_handlers ?s') k' = Some p"
    then show "k' < sy_spawned ?s'" using link_inv_bound [OF I, of k' p]
      by (cases "k' = k") (simp_all add: sys_answer_def del: map_of_eq_Some_iff)
  next
    fix k' f' r' assume "mget (sy_handlers ?s') k' = Some (Answering f' r')"
    then show "Type r' = FrameResult \<and> ID r' = ID f'" using link_inv_reply [OF I, of k' f' r']
      by (cases "k' = k") (simp_all add: sys_answer_def del: map_of_eq_Some_iff)
  next
    fix i
    have "results i (sy_acts ?s') \<le> results i (sy_acts s) + (if ID f = i then 1 else 0)"
      using send_results [of i wrote "sy_link s" r] by (simp add: sys_answer_def t)
    moreover have "working i ?s' + (if ID f = i then 1 else 0) = working i s"
      using wt_del [OF link_inv_mwf [OF I] answers(1), of "\<lambda>p. ID (request_of p) = i"] by (simp add: working_def sys_answer_def)
    ultimately show "results i (sy_acts ?s') + working i ?s' \<le> asked i ?s'"
      using link_inv_count [OF I, of i] by (simp add: asked_def sys_answer_def)
  qed
qed

lemma link_reach_inv: "link_reach s s' \<Longrightarrow> link_inv s \<Longrightarrow> link_inv s'"
  by (induction rule: link_reach.induct) (auto dest: link_inv_step)

text \<open>C21: no request is answered twice. However the loop, the handlers, cancels and reconnects
  interleave, as many results were written for an id, together with the requests for it still being
  worked on, as there were requests for it, or fewer where a write failed.\<close>

theorem no_request_is_answered_twice:
  assumes "link_reach (start_sys l d) s"
  shows "length (filter (is_result i) (sy_acts s)) + length (filter (\<lambda>(k, p). ID (request_of p) = i) (sy_handlers s))
    \<le> length (filter (\<lambda>(c, f). ID f = i) (sy_read s))"
  using link_reach_inv [OF assms link_inv_start] by (simp add: link_inv_def results_def working_def wt_def asked_def)

section \<open>Samples\<close>

definition sample_link :: Link where
  "sample_link = \<lparr>lk_cfg = \<lparr>lc_ServerURL = ''http://h'', lc_Token = ''t'', lc_WorkerID = ''w'', lc_Version = [], lc_MaxFileBytes = 1024\<rparr>,
     lk_limits = \<lparr>MaxOutputBytes = 16384, MaxFileBytes = 1024\<rparr>, lk_manager = sample_manager, lk_dialURL = ''ws://h/worker'',
     lk_conn = None, lk_inflight = []\<rparr>"

definition sample_link_world :: link_world where
  "sample_link_world = \<lparr>lw_os = sample_env, lw_cwd = ''/'', lw_self = Inr ''/worker'', lw_exec = sample_world, lw_now = 0\<rparr>"

definition sample_request :: "string \<Rightarrow> Frame" where
  "sample_request a = zeroFrame\<lparr>Type := FrameRequest, ID := 1, AgentID := a, FOp := OpStatus\<rparr>"

section \<open>An answer that outlives its connection\<close>

lemma dial_open: "sy_open (sys_dial None s)"
  by (simp add: sys_dial_def link_dial_def link_send_def Let_def)

lemma step_on: "link_reach s s' \<Longrightarrow> link_step s' s'' \<Longrightarrow> link_reach s s''"
  by (rule link_reach.step)

definition crossing :: "link_world \<Rightarrow> Frame \<Rightarrow> Frame \<Rightarrow> Link \<Rightarrow> disk \<Rightarrow> link_sys" where
  "crossing w f1 f2 l d =
     sys_request f2 (sys_dial None (sys_lost (sys_work w (\<lambda>e. None) 0 f1 (sys_register 0 f1 (sys_request f1 (sys_dial None (start_sys l d)))))))"

lemma crossing_parts:
  assumes "dispatch w (link_register (ID f1) 0 (l\<lparr>lk_conn := Some 0\<rparr>)) d f1 = (r, trace, l1, d1)"
  shows "sy_handlers (crossing w f1 f2 l d) = [(0, Answering f1 (reply_to (lk_limits l1) f1 r)), (1, Spawned f2)] \<and>
    sy_read (crossing w f1 f2 l d) = [(0, f1), (1, f2)] \<and> lk_conn (sy_link (crossing w f1 f2 l d)) = Some 1"
  using assms by (simp add: crossing_def sys_defs start_sys_def link_dial_def link_send_def Let_def)

lemma crossing_reached:
  assumes "Type f1 = FrameRequest" "Type f2 = FrameRequest"
  shows "link_reach (start_sys l d) (crossing w f1 f2 l d)"
proof -
  let ?s1 = "sys_dial None (start_sys l d)"
  let ?s2 = "sys_request f1 ?s1" let ?s3 = "sys_register 0 f1 ?s2" let ?s4 = "sys_work w (\<lambda>e. None) 0 f1 ?s3"
  have h2: "mget (sy_handlers ?s2) 0 = Some (Spawned f1)"
    by (simp add: sys_request_def sys_dial_def start_sys_def link_dial_def link_send_def Let_def)
  have h3: "mget (sy_handlers ?s3) 0 = Some (Registered f1)" by (simp add: sys_register_def)
  have o: "sy_open ?s4" using dial_open [of "start_sys l d"] by (simp add: sys_work_def sys_register_def sys_request_def split_beta)
  have "link_reach (start_sys l d) ?s1" by (rule step_on [OF link_reach.start link_step.dial]) (simp add: start_sys_def)
  from step_on [OF this link_step.request [OF dial_open assms(1)]] have "link_reach (start_sys l d) ?s2" .
  from step_on [OF this link_step.registers [OF h2]] have "link_reach (start_sys l d) ?s3" .
  from step_on [OF this link_step.works [OF h3]] have "link_reach (start_sys l d) ?s4" .
  from step_on [OF this link_step.lost [OF o]] have "link_reach (start_sys l d) (sys_lost ?s4)" .
  moreover have "\<not> sy_open (sys_lost ?s4)" by (simp add: sys_lost_def)
  ultimately have "link_reach (start_sys l d) (sys_dial None (sys_lost ?s4))" by (rule step_on [OF _ link_step.dial])
  from step_on [OF this link_step.request [OF dial_open assms(2)]] show ?thesis by (simp add: crossing_def)
qed

text \<open>An answer can reach the wrong caller. A handler is not tied to the connection its request
  came on: when that connection is lost and another dialled before it answers, the answer is
  written on the new one, where the same id, counted afresh by the server, is another request's,
  for another agent even.\<close>

theorem answer_can_cross_connections:
  assumes "Type f1 = FrameRequest" "Type f2 = FrameRequest" "ID f2 = ID f1"
    and "dispatch w (link_register (ID f1) 0 (l\<lparr>lk_conn := Some 0\<rparr>)) d f1 = (r, trace, l1, d1)"
  shows "\<exists>s. link_reach (start_sys l d) s \<and> sy_read s = [(0, f1), (1, f2)] \<and>
    last (sy_acts s) = Wrote 1 (reply_to (lk_limits l1) f1 r) \<and> ID (reply_to (lk_limits l1) f1 r) = ID f2 \<and>
    sy_handlers s = [(1, Spawned f2)]"
proof -
  let ?c = "crossing w f1 f2 l d" and ?r = "reply_to (lk_limits l1) f1 r"
  note c = crossing_parts [OF assms(4), of f2]
  have "mget (sy_handlers ?c) 0 = Some (Answering f1 ?r)" using c by simp
  from step_on [OF crossing_reached [OF assms(1,2)] link_step.answers [OF this, of None]]
  have "link_reach (start_sys l d) (sys_answer None 0 f1 ?r ?c)" .
  moreover have "sy_acts (sys_answer None 0 f1 ?r ?c) = sy_acts ?c @ [Wrote 1 ?r]" "sy_handlers (sys_answer None 0 f1 ?r ?c) = [(1, Spawned f2)]"
    "sy_read (sys_answer None 0 f1 ?r ?c) = [(0, f1), (1, f2)]"
    using c by (simp_all add: sys_answer_def link_send_def)
  ultimately show ?thesis using assms(3) by (intro exI [of _ "sys_answer None 0 f1 ?r ?c"]) (simp add: reply_type)
qed

lemma answer_can_cross_connections_witness:
  "\<exists>s r. link_reach (start_sys sample_link sample_disk) s \<and> sy_read s = [(0, sample_request ''a''), (1, sample_request ''b'')] \<and>
     last (sy_acts s) = Wrote 1 r \<and> ID r = ID (sample_request ''b'')"
proof -
  let ?f = "sample_request ''a''" and ?g = "sample_request ''b''"
  let ?l = "link_register (ID ?f) 0 (sample_link\<lparr>lk_conn := Some 0\<rparr>)"
  obtain r trace l1 d1 where x: "dispatch sample_link_world ?l sample_disk ?f = (r, trace, l1, d1)" by (metis prod.collapse)
  have t: "Type ?f = FrameRequest" "Type ?g = FrameRequest" "ID ?g = ID ?f" by (simp_all add: sample_request_def)
  from answer_can_cross_connections [OF t x] show ?thesis by metis
qed

lemma no_request_is_answered_twice_witness:
  "\<exists>s. link_reach (start_sys sample_link sample_disk) s \<and> length (sy_read s) = 2 \<and>
     length (filter (is_result 1) (sy_acts s)) + length (filter (\<lambda>(k, p). ID (request_of p) = 1) (sy_handlers s)) \<le> 2"
proof -
  let ?f = "sample_request ''a''" and ?g = "sample_request ''b''"
  let ?s = "crossing sample_link_world ?f ?g sample_link sample_disk"
  have r: "link_reach (start_sys sample_link sample_disk) ?s" by (rule crossing_reached) (simp_all add: sample_request_def)
  have "sy_read ?s = [(0, ?f), (1, ?g)]"
    using crossing_parts [of sample_link_world ?f sample_link sample_disk _ _ _ _ ?g] by (metis prod.collapse)
  with r no_request_is_answered_twice [OF r, of 1] show ?thesis by (intro exI [of _ ?s]) (simp add: sample_request_def)
qed

section \<open>The wait between two sessions\<close>

text \<open>A session that ends with the context still live is followed by a wait, which the context may cut.\<close>

fun waits_made :: "(bool \<times> bool) list \<Rightarrow> nat" where
  "waits_made [] = 0"
| "waits_made ((True, during) # ss) = 0"
| "waits_made ((False, True) # ss) = 1"
| "waits_made ((False, False) # ss) = Suc (waits_made ss)"

lemma run_from_waits:
  assumes "minReconnectDelay \<le> delay"
  shows "run_from (min delay maxReconnectDelay) ss =
    (map (\<lambda>k. min (delay * 2 ^ k) maxReconnectDelay)
       [0..<waits_made ss],
     list_ex (\<lambda>x. fst x \<or> snd x) ss)"
  using assms
proof (induction ss arbitrary: delay)
  case (Cons x ss)
  obtain a b where x: "x = (a, b)" by fastforce
  have m: "min (min delay maxReconnectDelay * 2) maxReconnectDelay = min (delay * 2) maxReconnectDelay"
    using Cons.prems by (simp add: min_def minReconnectDelay_def maxReconnectDelay_def second_def)
  have d: "minReconnectDelay \<le> delay * 2" using Cons.prems by (simp add: minReconnectDelay_def second_def)
  have s: "map (\<lambda>k. min (delay * 2 ^ k) maxReconnectDelay) [0..<Suc n] =
      min delay maxReconnectDelay # map (\<lambda>k. min (delay * 2 * 2 ^ k) maxReconnectDelay) [0..<n]" for n
    by (simp add: upt_conv_Cons map_Suc_upt [symmetric] comp_def mult.assoc del: upt_Suc)
  show ?case
  proof (cases "a \<or> b")
    case True
    then show ?thesis by (auto simp: x)
  next
    case False
    then show ?thesis using Cons.IH [OF d] s by (simp add: x m del: upt_Suc map_Suc_upt)
  qed
qed simp

text \<open>C22: the loop returns exactly when its context ends, and until then waits one second, doubled
  after every session up to thirty: the wait is never reset, so a session that lasted for days is
  followed by the same wait as one that could not be dialled.\<close>

theorem reconnect_waits_only_grow:
  "Run ss = (map (\<lambda>k. min (second * 2 ^ k) (30 * second))
       [0..<waits_made ss],
     list_ex (\<lambda>x. fst x \<or> snd x) ss)"
  using run_from_waits [of second ss] by (simp add: Run_def minReconnectDelay_def maxReconnectDelay_def second_def)

end
