(* ===== verification/Link_Ends.thy ===== *)
theory Link_Ends imports Worker_Link_Props Worker_Hub_Ops begin

text \<open>
  The two ends of the link together: what the server's operation returns for what the worker's
  handler did, and the limits the two agreed on.
\<close>

section \<open>How a command's end crosses\<close>

lemma to_valid_kinds: "to_valid [] = []" "to_valid ErrorKindTimeout = ErrorKindTimeout" "to_valid ErrorKindStopped = ErrorKindStopped"
  by (simp_all add: to_valid_ascii ErrorKindTimeout_def ErrorKindStopped_def)

definition outcome_kind :: "gerr option \<Rightarrow> string" where
  "outcome_kind err = (if err = Some ErrCommandTimeout then ErrorKindTimeout else if err = Some ErrCommandStopped then ErrorKindStopped else [])"

lemma exec_result_kinds:
  assumes "err \<in> {None, Some ErrCommandTimeout, Some ErrCommandStopped}"
  shows "exec_result (r, err) = Inr (PExecResponse ((exec_response r)\<lparr>ex_ErrorKind := outcome_kind err\<rparr>))"
  using assms by (auto simp: exec_result_def outcome_kind_def exec_response_def ErrCommandTimeout_def ErrCommandStopped_def)

text \<open>C19: how a command ended survives the link. When the worker ran it to an exit, a time-out or a
  stop, and the answer is under the payload limit, the server's \<open>Exec\<close> returns the output, the exit
  code, the duration and the truncation mark of that run, and the very error the sandbox gave.\<close>

theorem command_outcome_crosses_the_link:
  assumes "ExecCommand (lw_exec w) sb (dk_fs d) (er_Command (san_exec_request rq))
      (case er_Args (san_exec_request rq) of None \<Rightarrow> [] | Some as \<Rightarrow> as) (exec_timeout (er_TimeoutSec rq))
      (er_WorkDir (san_exec_request rq)) = ((r, err), trace, sb')"
    and "err = None \<or> err = Some ErrCommandTimeout \<or> err = Some ErrCommandStopped"
    and "int (jlen (exec_response_json ((exec_response r)\<lparr>ex_ErrorKind := outcome_kind err\<rparr>))) \<le> sint (MaxPayloadBytes lim)"
    and "call others werr ctx a OpExec (exec_request_json rq) h =
      (Some (answer_of (reply_to lim f (fst (link_exec w sb d (Some (exec_request_json rq)))))), h')"
  shows "\<exists>out. hub_Exec others werr ctx a rq h = (Some (out, err), h') \<and>
    ex_Stdout out = to_valid (res_Stdout r) \<and> ex_Stderr out = to_valid (res_Stderr r) \<and> ex_ExitCode out = res_ExitCode r \<and>
    ex_DurationMs out = res_DurationMs r \<and> ex_Truncated out = res_Truncated r \<and> ex_ExecID out = to_valid (res_ExecID r)"
proof -
  let ?o = "(exec_response r)\<lparr>ex_ErrorKind := outcome_kind err\<rparr>"
  have x: "link_exec w sb d (Some (exec_request_json rq)) = (exec_result (r, err), trace, sb')"
    using assms(1) by (simp add: link_exec_def un_raw_def exec_request_roundtrip) (simp add: san_exec_request_def)
  have e: "err \<in> {None, Some ErrCommandTimeout, Some ErrCommandStopped}" using assms(2) by auto
  have "reply_to lim f (exec_result (r, err)) = zeroFrame\<lparr>Type := FrameResult, ID := ID f, OK := True, Payload := Some (exec_response_json ?o)\<rparr>"
    using assms(3) by (simp add: exec_result_kinds [OF e] reply_to_def Let_def)
  then have c: "call others werr ctx a OpExec (exec_request_json rq) h = (Some (Inr (Some (exec_response_json ?o))), h')"
    using assms(4) by (simp add: x answer_of_def)
  have k: "ex_ErrorKind (san_exec_response ?o) = outcome_kind err"
    by (simp add: san_exec_response_def outcome_kind_def to_valid_kinds)
  have n: "[] \<noteq> ErrorKindTimeout" "[] \<noteq> ErrorKindStopped" "ErrorKindStopped \<noteq> ErrorKindTimeout" "ErrCommandStopped \<noteq> ErrCommandTimeout"
    by (simp_all add: ErrorKindTimeout_def ErrorKindStopped_def ErrCommandTimeout_def ErrCommandStopped_def)
  have "hub_Exec others werr ctx a rq h = (Some (san_exec_response ?o, err), h')"
    unfolding hub_Exec_def c using e n k exec_response_roundtrip [of ?o] by (auto simp: outcome_kind_def)
  then show ?thesis by (simp add: san_exec_response_def exec_response_def)
qed

text \<open>A hub on which the frame \<open>f\<close> is in the channel by the time a call looks.\<close>

definition answering :: "Frame \<Rightarrow> nat \<Rightarrow> Hub \<Rightarrow> Hub" where
  "answering f i h = (if i = 3 then h\<lparr>chans := [(0, [f])]\<rparr> else h)"

lemma sample_answered:
  "\<exists>h. mget (assignments h) ''a'' = Some 0 \<and> w_limits (conn_of h 0) = \<lparr>MaxOutputBytes = 1024, MaxFileBytes = 1024\<rparr> \<and>
     (\<forall>op raw f. jlen raw \<le> 4096 \<longrightarrow> (\<exists>h'. call (answering f) (\<lambda>_. None) None ''a'' op raw h = (Some (answer_of f), h')))"
proof -
  let ?lim = "\<lparr>MaxOutputBytes = 1024, MaxFileBytes = 1024\<rparr>"
  have pl: "sint (MaxPayloadBytes ?lim) = 4096" by code_simp
  obtain s where s: "sys_reach s" "mget (assignments (hub s)) ''a'' = Some 0" "live (hub s) 0" "w_limits (conn_of (hub s) 0) = ?lim"
    "nextID (conn_of (hub s) 0) = 0" "next_chan (hub s) = 0"
    using sample_state by blast
  have op: "\<not> w_closed (conn_of (hub s) 0)"
    using s(3) routes_okD(5) [OF sys_invD(1) [OF sys_reach_inv [OF s(1)]]] by (auto simp: live_def)
  have "\<exists>h'. call (answering f) (\<lambda>_. None) None ''a'' op raw (hub s) = (Some (answer_of f), h')" if "jlen raw \<le> 4096" for op raw f
  proof -
    obtain h2 where reg: "Worker_Hub.register 0 (answering f 1 (hub s)) = (Inr (1, 0), h2)"
      using op s(5,6) by (simp add: Worker_Hub.register_def answering_def Let_def)
    have wf: "workerFor (answering f 0 (hub s)) ''a'' = (Inr 0, hub s)" using s(2) by (simp add: workerFor_def answering_def)
    obtain h4 where rc: "receive 0 (answering f 3 (snd (send_frame 0 (zeroFrame\<lparr>Type := FrameRequest, ID := 1, AgentID := ''a'', FOp := op,
              Payload := Some raw\<rparr>) None (answering f 2 h2)))) = (Some f, h4)"
      by (simp add: receive_def answering_def)
    show ?thesis
      by (rule exI, rule call_answered [where others = "answering f" and w = 0 and i = 1 and c = 0, OF wf _ reg _ rc])
        (use s(4) pl that in simp_all)
  qed
  with s(2,4) show ?thesis by blast
qed

lemma command_outcome_crosses_the_link_witness:
  "\<exists>others h h' out. hub_Exec others (\<lambda>_. None) None ''a'' \<lparr>er_Command = ''/bin/ls'', er_Args = None, er_TimeoutSec = 0, er_WorkDir = []\<rparr> h =
    (Some (out, Some ErrCommandStopped), h') \<and> ex_Stdout out = ''hi''"
proof -
  let ?rq = "\<lparr>er_Command = ''/bin/ls'', er_Args = None, er_TimeoutSec = 0, er_WorkDir = []\<rparr>"
  let ?w = "sample_link_world\<lparr>lw_exec := sample_world\<lparr>xw_ctx := CtxCanceled\<rparr>\<rparr>"
  let ?d = "\<lparr>dk_fs = sample_fs, dk_owner = []\<rparr>" and ?lim = "\<lparr>MaxOutputBytes = 1024, MaxFileBytes = 1024\<rparr>"
  let ?f = "reply_to ?lim zeroFrame (fst (link_exec ?w sample_sandbox ?d (Some (exec_request_json ?rq))))"
  let ?x = "ExecCommand (lw_exec ?w) sample_sandbox (dk_fs ?d) (er_Command (san_exec_request ?rq))
      (case er_Args (san_exec_request ?rq) of None \<Rightarrow> [] | Some as \<Rightarrow> as) (exec_timeout (er_TimeoutSec ?rq)) (er_WorkDir (san_exec_request ?rq))"
  obtain r err trace sb' where x: "?x = ((r, err), trace, sb')" by (metis prod.collapse)
  have "snd (fst ?x) = Some ErrCommandStopped \<and> res_Stdout (fst (fst ?x)) = ''hi'' \<and>
    jlen (exec_response_json ((exec_response (fst (fst ?x)))\<lparr>ex_ErrorKind := outcome_kind (snd (fst ?x))\<rparr>)) < 4096" by code_simp
  note this [unfolded x fst_conv snd_conv]
  then have o: "err = Some ErrCommandStopped" "res_Stdout r = ''hi''"
    "jlen (exec_response_json ((exec_response r)\<lparr>ex_ErrorKind := outcome_kind err\<rparr>)) < 4096" by blast+
  have pl: "sint (MaxPayloadBytes ?lim) = 4096" by code_simp
  have "length (jquote ''command'') = 9" "length (jquote ''/bin/ls'') = 9" by (simp_all add: jquote_plain plain_char_def)
  then have "jlen (exec_request_json ?rq) \<le> 4096" by (simp add: exec_request_json_def opt_defs jlen_def)
  then obtain h h4 where c: "call (answering ?f) (\<lambda>_. None) None ''a'' OpExec (exec_request_json ?rq) h = (Some (answer_of ?f), h4)"
    using sample_answered by blast
  from command_outcome_crosses_the_link [OF x _ _ c] o pl to_valid_ascii [of "''hi''"] show ?thesis
    by (intro exI [of _ "answering ?f"] exI [of _ h] exI [of _ h4]) auto
qed

text \<open>A file over the limit the worker announced is refused before it is read, and one that is
  answered is within it: reading is checked by the size the sandbox reports.\<close>

theorem reads_respect_the_file_limit:
  assumes "sb_ops sb = None" "dispatch_read w lim sb d raw = (Inr (PReadFileResponse q), d')"
  shows "int (length (rfs_Content q)) \<le> sint (MaxFileBytes lim)"
proof -
  obtain rq where rq: "un_raw un_read_request raw = Inr rq"
    using assms(2) by (cases "un_raw un_read_request raw") (auto simp: dispatch_read_def)
  let ?u = "xw_around (lw_exec w)"
  obtain name where n: "relativeName sb (rfq_Path rq) = Inr name"
    using assms(2) by (cases "relativeName sb (rfq_Path rq)") (auto simp: dispatch_read_def rq on_disk_def sb_Stat_def sb_ReadFile_def)
  have fs: "dk_fs (disk_after v sb d (dk_fs d)) = dk_fs d" for v by (simp add: disk_after_def Let_def)
  obtain c a b where c: "node_at (dk_fs d) (opened sb) True name = Inr (FileN c a b)" "rfs_Content q = c"
    "\<not> sint (MaxFileBytes lim) < int (length c)"
    using assms(2) by (auto simp: dispatch_read_def rq on_disk_def sb_Stat_def sb_ReadFile_def n assms(1) root_Stat_def root_ReadFile_def
      fs node_size_def Let_def split: sum.splits node.splits if_splits)
  then show ?thesis by simp
qed

lemma reads_respect_the_file_limit_witness:
  "\<exists>q d'. dispatch_read sample_link_world \<lparr>MaxOutputBytes = 1024, MaxFileBytes = 2\<rparr> sample_sandbox
      \<lparr>dk_fs = mset_key [''s'', ''f''] (FileN ''hi'' 420 ''t'') sample_fs, dk_owner = []\<rparr>
      (Some (read_request_json \<lparr>rfq_Path = ''f''\<rparr>)) = (Inr (PReadFileResponse q), d') \<and> int (length (rfs_Content q)) \<le> 2"
proof -
  let ?lim = "\<lparr>MaxOutputBytes = 1024, MaxFileBytes = 2\<rparr>"
  let ?d = "\<lparr>dk_fs = mset_key [''s'', ''f''] (FileN ''hi'' 420 ''t'') sample_fs, dk_owner = []\<rparr>"
  let ?x = "dispatch_read sample_link_world ?lim sample_sandbox ?d (Some (read_request_json \<lparr>rfq_Path = ''f''\<rparr>))"
  obtain d' where x: "?x = (fst ?x, d')" by (metis prod.collapse)
  have "fst ?x = Inr (PReadFileResponse \<lparr>rfs_Path = ''f'', rfs_Content = ''hi''\<rparr>)" by code_simp
  with x have x': "?x = (Inr (PReadFileResponse \<lparr>rfs_Path = ''f'', rfs_Content = ''hi''\<rparr>), d')" by simp
  have "sb_ops sample_sandbox = None" by (simp add: sample_sandbox_def)
  from reads_respect_the_file_limit [OF this x']
  have "int (length (rfs_Content \<lparr>rfs_Path = ''f'', rfs_Content = ''hi''\<rparr>)) \<le> 2" by simp
  with x' show ?thesis by blast
qed

section \<open>Limits that let streaming through\<close>

lemma esc_nul: "length (esc (replicate n (CHR 0x00))) = 6 * n"
proof (induction n)
  case 0
  show ?case by (simp add: esc.simps)
next
  case (Suc n)
  have "rune_len (CHR 0x00 # replicate n (CHR 0x00)) = 1" by (simp add: rune_len_def Let_def)
  moreover have "length (esc_byte (CHR 0x00)) = 6" by code_simp
  ultimately show ?case using Suc by (simp add: esc.simps [of "CHR 0x00 # _"] esc_rune_def)
qed

definition nul_chunk :: Event where
  "nul_chunk = zeroEvent\<lparr>Kind := EventStdout, Data := replicate ChunkSize (CHR 0x00)\<rparr>"

text \<open>The check a link makes before it connects, that its limits leave room for one chunk of
  output, counts the chunk unescaped: there are limits it accepts under which the frame of one
  chunk of zero bytes is longer than the server will read, which ends the connection.\<close>

theorem New_admits_overflowing_events:
  "\<exists>l. newLink ''/'' \<lparr>lc_ServerURL = ''http://h'', lc_Token = ''t'', lc_WorkerID = ''w'', lc_Version = [], lc_MaxFileBytes = 8192\<rparr>
        ((DefaultConfig ''/s'')\<lparr>MaxOutput := 4096\<rparr>) = Inr l \<and>
     length (Data nul_chunk) = ChunkSize \<and>
     sint (FrameBytes (lk_limits l)) < int (jlen (frame_json tm (zeroFrame\<lparr>Type := FrameEvent, FEvent := Some nul_chunk\<rparr>)))"
proof -
  let ?x = "newLink ''/'' \<lparr>lc_ServerURL = ''http://h'', lc_Token = ''t'', lc_WorkerID = ''w'', lc_Version = [], lc_MaxFileBytes = 8192\<rparr>
        ((DefaultConfig ''/s'')\<lparr>MaxOutput := 4096\<rparr>)"
  have "(case ?x of Inl e \<Rightarrow> False | Inr l \<Rightarrow> sint (FrameBytes (lk_limits l)) = 81920)" by code_simp
  then obtain l where l: "?x = Inr l" "sint (FrameBytes (lk_limits l)) = 81920" by (auto split: sum.splits)
  have "98304 \<le> length (jquote (Data nul_chunk))"
    using esc_nul [of ChunkSize] by (simp add: jquote_def nul_chunk_def ChunkSize_def)
  moreover have "Data nul_chunk \<noteq> []" by (simp add: nul_chunk_def ChunkSize_def)
  ultimately have "98304 \<le> jlen (frame_json tm (zeroFrame\<lparr>Type := FrameEvent, FEvent := Some nul_chunk\<rparr>))"
    by (simp add: frame_json_def event_json_def zeroFrame_def jlen_def opt_defs)
  then show ?thesis using l by (simp add: nul_chunk_def)
qed

end
