(* ===== verification/Link_Files.thy ===== *)
theory Link_Files imports Link_Ends begin

text \<open>
  A file from one end of the link to the other and back: the server's \<open>WriteFile\<close> and \<open>ReadFile\<close>,
  the payloads on the wire, the worker's dispatch and the sandbox's own file operations, composed.
\<close>

section \<open>Reading and describing agree\<close>

lemma OpenRoot_error: "OpenRoot fs path = Inl e \<Longrightarrow> err_text e \<noteq> []"
  by (auto simp: OpenRoot_def simp del: err_text.simps split: sum.splits option.splits node.splits if_splits)

lemma read_then_stat:
  assumes "su_child u = Ran" "fst (sb_ReadFile u s fs p) = Inr data"
  shows "snd (sb_ReadFile u s fs p) = fs \<and> (\<exists>i. sb_Stat u s fs p = (Inr i, fs) \<and> en_Size i = int (length data))"
proof -
  obtain name where n: "relativeName s p = Inr name" using assms(2) by (auto simp: sb_ReadFile_def split: sum.splits)
  have st: "\<exists>x. root_Stat g R k = Inr x \<and> node_size x = int (length c)" if "root_ReadFile g R k = Inr c" for g R k c
    using that by (auto simp: root_ReadFile_def root_Stat_def node_size_def split: sum.splits node.splits)
  show ?thesis
  proof (cases "sb_ops s")
    case None
    with assms(2) n have "root_ReadFile fs (opened s) name = Inr data" by (simp add: sb_ReadFile_def)
    from st [OF this] None n show ?thesis by (auto simp: sb_ReadFile_def sb_Stat_def)
  next
    case (Some r)
    obtain R where R: "OpenRoot fs (to_valid (RootDir (sb_config s))) = Inr R"
      using assms(2) Some n failed_is_error OpenRoot_error
      by (cases "OpenRoot fs (to_valid (RootDir (sb_config s)))")
        (auto simp: sb_ReadFile_def ask_helper_ran [OF assms(1)] Perform_def)
    have "root_ReadFile fs R (to_valid name) = Inr data"
      using assms(2) Some n R read_errors(1) failed_is_error
      by (cases "root_ReadFile fs R (to_valid name)")
        (auto simp: sb_ReadFile_def ask_helper_ran [OF assms(1)] Perform_def piped_response_def zeroResponse_def Err_def failed_def)
    from st [OF this] obtain x where "root_Stat fs R (to_valid name) = Inr x" "node_size x = int (length data)" by blast
    with Some n R \<open>root_ReadFile fs R (to_valid name) = Inr data\<close> show ?thesis
      by (simp add: sb_ReadFile_def sb_Stat_def ask_helper_ran [OF assms(1)] Perform_def perform_stat_def piped_response_def
          zeroResponse_def Err_def piped_entry_def)
  qed
qed

section \<open>What was repaired prints no longer\<close>

lemma esc_to_valid: "length (esc (to_valid s)) \<le> length (esc s)"
proof (induction s rule: to_valid.induct)
  case (1 s)
  consider "s = []" | "s \<noteq> []" "rune_len s = 0" | "s \<noteq> []" "rune_len s \<noteq> 0" by blast
  then show ?case
  proof cases
    case 2
    let ?v = "to_valid (tl s)"
    have "esc (replacement @ ?v) = replacement @ esc ?v"
      by (subst esc.simps) (simp add: replacement_rune, simp add: replacement_def esc_rune_def)
    with "1.IH"(1) [OF 2] 2 show ?thesis
      by (simp add: to_valid.simps [of s] esc.simps [of s], simp add: replacement_def)
  next
    case 3
    let ?n = "rune_len s" and ?v = "to_valid (drop (rune_len s) s)"
    have "esc (take ?n s @ ?v) = esc_rune (take ?n s) @ esc ?v"
      using rune_len_le [of s] 3 by (subst esc.simps) (simp add: rune_len_take)
    with "1.IH"(2) [OF 3] 3 show ?thesis by (simp add: to_valid.simps [of s] esc.simps [of s])
  qed simp
qed

lemma jquote_to_valid: "length (jquote (to_valid s)) \<le> length (jquote s)"
  using esc_to_valid by (simp add: jquote_def)

text \<open>A file that fitted the request it was written with fits the answer it is read with.\<close>

lemma read_answer_fits:
  "jlen (read_response_json \<lparr>rfs_Path = to_valid p, rfs_Content = to_valid c\<rparr>) \<le>
   jlen (write_request_json \<lparr>wfq_Path = p, wfq_Content = c\<rparr>)"
  using jquote_to_valid [of p] jquote_to_valid [of c]
  by (simp add: read_response_json_def write_request_json_def jlen_def)

section \<open>The worker's side\<close>

lemma on_disk_fs: "on_disk w sb d r = (x, d') \<Longrightarrow> x = fst r \<and> dk_fs d' = snd r"
  by (auto simp: on_disk_def disk_after_def Let_def)

lemma dispatch_write_ok:
  assumes "dispatch_write w lim sb d (Some (write_request_json \<lparr>wfq_Path = p, wfq_Content = c\<rparr>)) = (Inr q, d')"
  shows "q = PWriteFileResponse \<lparr>wfs_Path = to_valid p, wfs_Bytes = int (length (to_valid c))\<rparr> \<and>
    int (length (to_valid c)) \<le> sint (MaxFileBytes lim) \<and>
    sb_WriteFile (xw_around (lw_exec w)) sb (dk_fs d) (to_valid p) (to_valid c) 420 = (None, dk_fs d')"
proof -
  obtain e d1 where o: "on_disk w sb d (sb_WriteFile (xw_around (lw_exec w)) sb (dk_fs d) (to_valid p) (to_valid c) 420) = (e, d1)"
    by fastforce
  note f = on_disk_fs [OF o]
  have n: "\<not> sint (MaxFileBytes lim) < int (length (to_valid c))"
    using assms by (auto simp: dispatch_write_def un_raw_def write_request_roundtrip san_write_request_def Let_def split: if_splits)
  with assms o have "e = None \<and> d1 = d' \<and> q = PWriteFileResponse \<lparr>wfs_Path = to_valid p, wfs_Bytes = int (length (to_valid c))\<rparr>"
    by (auto simp: dispatch_write_def un_raw_def write_request_roundtrip san_write_request_def Let_def split: option.splits)
  with f n show ?thesis by (metis linorder_not_less prod.collapse)
qed

lemma dispatch_read_ok:
  assumes "su_child (xw_around (lw_exec w)) = Ran" "fst (sb_ReadFile (xw_around (lw_exec w)) sb (dk_fs d) (to_valid p)) = Inr data"
    and "int (length data) \<le> sint (MaxFileBytes lim)"
  shows "fst (dispatch_read w lim sb d (Some (read_request_json \<lparr>rfq_Path = p\<rparr>))) =
    Inr (PReadFileResponse \<lparr>rfs_Path = to_valid p, rfs_Content = data\<rparr>)"
proof -
  from read_then_stat [OF assms(1,2)] obtain i where i:
    "sb_Stat (xw_around (lw_exec w)) sb (dk_fs d) (to_valid p) = (Inr i, dk_fs d)" "en_Size i = int (length data)" by blast
  obtain x d1 where o: "on_disk w sb d (sb_Stat (xw_around (lw_exec w)) sb (dk_fs d) (to_valid p)) = (x, d1)" by fastforce
  obtain y d2 where o2: "on_disk w sb d1 (sb_ReadFile (xw_around (lw_exec w)) sb (dk_fs d1) (to_valid p)) = (y, d2)" by fastforce
  from on_disk_fs [OF o] i(1) have x: "x = Inr i" "dk_fs d1 = dk_fs d" by simp_all
  from on_disk_fs [OF o2] x assms(2) have y: "y = Inr data" by simp
  show ?thesis using o o2 x(1) y i(2) assms(3)
    by (simp add: dispatch_read_def un_raw_def read_request_roundtrip san_read_request_def Let_def)
qed

lemma GetSandbox_got:
  assumes "GetSandbox v cwd self m d a = (Inr sb, m', d')"
  shows "a \<noteq> [] \<and> GetSandbox v' cwd' self' m' d'' a = (Inr sb, m', d'')"
  using assms by (auto simp: GetSandbox_def Let_def split: if_splits option.splits sum.splits prod.splits)

section \<open>Both ends\<close>

text \<open>A request as it reaches the worker.\<close>

definition request_frame :: "u64 \<Rightarrow> string \<Rightarrow> Op \<Rightarrow> json \<Rightarrow> Frame" where
  "request_frame i a op raw = zeroFrame\<lparr>Type := FrameRequest, ID := i, AgentID := a, FOp := op, Payload := Some raw\<rparr>"

lemma request_frame_simps [simp]:
  "AgentID (request_frame i a op raw) = a" "FOp (request_frame i a op raw) = op" "Payload (request_frame i a op raw) = Some raw"
  "ID (request_frame i a op raw) = i"
  by (simp_all add: request_frame_def)

lemmas dispatch_file_defs = dispatch_def ops

lemma call_fitted:
  assumes "call others werr ctx a op raw h = (Some (Inr x), h')"
  shows "\<exists>k g. workerFor (others 0 h) a = (Inr k, g) \<and> int (jlen raw) \<le> sint (MaxPayloadBytes (w_limits (conn_of g k)))"
proof -
  obtain r g where r: "workerFor (others 0 h) a = (r, g)" by fastforce
  obtain k where k: "r = Inr k" using assms r by (cases r) (simp_all add: call_def)
  have "\<not> sint (MaxPayloadBytes (w_limits (conn_of g k))) < int (jlen raw)"
    using assms call_too_large [where others = others and h = h and a = a and w = k and raw = raw] r k by auto
  with r k show ?thesis by auto
qed

lemma reply_to_read:
  assumes "int (jlen (read_response_json q)) \<le> sint (MaxPayloadBytes lim)"
  shows "answer_of (reply_to lim f (Inr (PReadFileResponse q))) = Inr (Some (read_response_json q))"
  using assms by (simp add: reply_to_def answer_of_def Let_def)

lemma written_request:
  assumes "hub_WriteFile first others werr ctx a p c h = (Some (n, None), h')"
  shows "\<exists>raw out. call others werr ctx a OpWriteFile (write_request_json \<lparr>wfq_Path = p, wfq_Content = c\<rparr>) (snd (workerFor (first h) a)) =
      (Some (Inr raw), h') \<and> un_raw un_write_response raw = Inr out \<and> wfs_Bytes out = n"
  using assms by (auto simp: hub_WriteFile_def finish_def Let_def split: sum.splits if_splits prod.splits option.splits)



end
