(* ===== verification/Storage.thy ===== *)
theory Storage imports Prelude "HOL-Library.List_Lexorder" "HOL-Library.Char_ord" begin

text \<open>
  Package \<open>internal/storage\<close>: the tables and the queries on them. A table is the list of its rows in
  the order they were inserted. The unique indexes and primary keys are those the struct tags of
  \<open>models.go\<close> declare. A statement is atomic: it fails and changes nothing, or has its whole effect.
  What a statement meets is the record \<open>db_world\<close>: whether it fails, what other connections did just
  before it, the clock and the random ids.
\<close>

section \<open>models.go\<close>

type_synonym ActorKind = string

definition ActorKindAgent :: ActorKind where "ActorKindAgent = ''agent''"
definition ActorKindHuman :: ActorKind where "ActorKindHuman = ''human''"

record Actor =
  ac_ID :: string
  ac_DisplayName :: string
  ac_Kind :: ActorKind
  ac_CreatedAt :: int

record AgentCredential =
  cr_ID :: string
  cr_ActorID :: string
  cr_Label :: string
  cr_TokenHash :: string
  cr_CreatedAt :: int
  cr_RevokedAt :: "int option"
  cr_LastUsedAt :: "int option"

record UserIdentity =
  ui_ActorID :: string
  ui_Subject :: string
  ui_Role :: string

record SandboxBlock =
  bk_ID :: string
  bk_ActorID :: string
  bk_ActiveKey :: "string option"
  bk_ByActorID :: string
  bk_ByName :: string
  bk_Reason :: string
  bk_At :: int
  bk_ReleasedAt :: "int option"
  bk_ReleasedByName :: string
  bk_Killed :: int

type_synonym AuditPhase = string

definition AuditStarted :: AuditPhase where "AuditStarted = ''started''"
definition AuditFinished :: AuditPhase where "AuditFinished = ''finished''"

definition AuditOutcomeOK :: string where "AuditOutcomeOK = ''ok''"
definition AuditOutcomeError :: string where "AuditOutcomeError = ''error''"
definition AuditOutcomeBlocked :: string where "AuditOutcomeBlocked = ''blocked''"
definition AuditOutcomeTimeout :: string where "AuditOutcomeTimeout = ''timeout''"
definition AuditOutcomeStopped :: string where "AuditOutcomeStopped = ''stopped''"

lemmas outcome_defs = AuditOutcomeOK_def AuditOutcomeError_def AuditOutcomeBlocked_def AuditOutcomeTimeout_def AuditOutcomeStopped_def

record AuditEvent =
  au_ID :: string
  au_CallID :: string
  au_Phase :: AuditPhase
  au_At :: int
  au_ActorID :: string
  au_ActorName :: string
  au_ActorKind :: ActorKind
  au_Action :: string
  au_Target :: string
  au_WorkerID :: string
  au_ExecID :: string
  au_ExitCode :: "int option"
  au_Outcome :: string
  au_Error :: string
  au_DurationMs :: int
  au_Bytes :: int

record DB =
  db_actors :: "Actor list"
  db_creds :: "AgentCredential list"
  db_identities :: "UserIdentity list"
  db_blocks :: "SandboxBlock list"
  db_audit :: "AuditEvent list"

section \<open>Statements\<close>

definition ErrRecordNotFound :: gerr where "ErrRecordNotFound = Sentinel ''record not found''"

record db_world =
  dw_fault :: "nat \<Rightarrow> gerr option"
  dw_others :: "nat \<Rightarrow> DB \<Rightarrow> DB"
  dw_now :: int
  dw_uuid :: "nat \<Rightarrow> string"
  dw_conflict :: gerr

text \<open>The \<open>i\<close>-th statement of an operation.\<close>

definition stmt :: "db_world \<Rightarrow> nat \<Rightarrow> (DB \<Rightarrow> 'a res \<times> DB) \<Rightarrow> DB \<Rightarrow> 'a res \<times> DB" where
  "stmt w i f d0 = (let d = dw_others w i d0 in case dw_fault w i of Some e \<Rightarrow> (Inl e, d) | None \<Rightarrow> f d)"

text \<open>\<open>First\<close> orders by primary key.\<close>

definition first_row :: "('r \<Rightarrow> string) \<Rightarrow> ('r \<Rightarrow> bool) \<Rightarrow> 'r list \<Rightarrow> 'r res" where
  "first_row key P rows = (case sort_key key (filter P rows) of [] \<Rightarrow> Inl ErrRecordNotFound | r # rs \<Rightarrow> Inr r)"

definition select_first :: "db_world \<Rightarrow> nat \<Rightarrow> (DB \<Rightarrow> 'r res) \<Rightarrow> DB \<Rightarrow> 'r res \<times> DB" where
  "select_first w i q d0 = stmt w i (\<lambda>d. (q d, d)) d0"

definition select_rows :: "db_world \<Rightarrow> nat \<Rightarrow> (DB \<Rightarrow> 'r list) \<Rightarrow> DB \<Rightarrow> 'r list res \<times> DB" where
  "select_rows w i q d0 = stmt w i (\<lambda>d. (Inr (q d), d)) d0"

text \<open>\<open>Create\<close> on each table, refused by a unique index.\<close>

definition insert_actor :: "db_world \<Rightarrow> Actor \<Rightarrow> DB \<Rightarrow> unit res \<times> DB" where
  "insert_actor w a d =
     (if ac_ID a \<in> set (map ac_ID (db_actors d)) \<or> ac_DisplayName a \<in> set (map ac_DisplayName (db_actors d))
      then (Inl (dw_conflict w), d) else (Inr (), d\<lparr>db_actors := db_actors d @ [a]\<rparr>))"

definition insert_cred :: "db_world \<Rightarrow> AgentCredential \<Rightarrow> DB \<Rightarrow> unit res \<times> DB" where
  "insert_cred w c d =
     (if cr_ID c \<in> set (map cr_ID (db_creds d)) \<or> cr_TokenHash c \<in> set (map cr_TokenHash (db_creds d))
      then (Inl (dw_conflict w), d) else (Inr (), d\<lparr>db_creds := db_creds d @ [c]\<rparr>))"

definition active_keys :: "DB \<Rightarrow> string list" where
  "active_keys d = concat (map (\<lambda>b. case bk_ActiveKey b of None \<Rightarrow> [] | Some k \<Rightarrow> [k]) (db_blocks d))"

definition insert_block :: "db_world \<Rightarrow> SandboxBlock \<Rightarrow> DB \<Rightarrow> unit res \<times> DB" where
  "insert_block w b d =
     (if bk_ID b \<in> set (map bk_ID (db_blocks d)) \<or> (case bk_ActiveKey b of None \<Rightarrow> False | Some k \<Rightarrow> k \<in> set (active_keys d))
      then (Inl (dw_conflict w), d) else (Inr (), d\<lparr>db_blocks := db_blocks d @ [b]\<rparr>))"

definition insert_audit :: "db_world \<Rightarrow> AuditEvent \<Rightarrow> DB \<Rightarrow> unit res \<times> DB" where
  "insert_audit w e d =
     (if au_ID e \<in> set (map au_ID (db_audit d)) then (Inl (dw_conflict w), d)
      else (Inr (), d\<lparr>db_audit := db_audit d @ [e]\<rparr>))"

text \<open>Inserting an identity does nothing on a conflict of its subject, and fails on one of its key.\<close>

definition insert_identity :: "db_world \<Rightarrow> UserIdentity \<Rightarrow> DB \<Rightarrow> bool res \<times> DB" where
  "insert_identity w u d =
     (if ui_Subject u \<in> set (map ui_Subject (db_identities d)) then (Inr False, d)
      else if ui_ActorID u \<in> set (map ui_ActorID (db_identities d)) then (Inl (dw_conflict w), d)
      else (Inr True, d\<lparr>db_identities := db_identities d @ [u]\<rparr>))"

text \<open>\<open>Update\<close> of the rows a condition selects; the result counts them.\<close>

definition update_rows :: "('r \<Rightarrow> bool) \<Rightarrow> ('r \<Rightarrow> 'r) \<Rightarrow> 'r list \<Rightarrow> nat \<times> 'r list" where
  "update_rows P f rows = (length (filter P rows), map (\<lambda>r. if P r then f r else r) rows)"

definition update_creds :: "(AgentCredential \<Rightarrow> bool) \<Rightarrow> (AgentCredential \<Rightarrow> AgentCredential) \<Rightarrow> DB \<Rightarrow> nat res \<times> DB" where
  "update_creds P f d = (let (n, rows) = update_rows P f (db_creds d) in (Inr n, d\<lparr>db_creds := rows\<rparr>))"

definition update_blocks :: "(SandboxBlock \<Rightarrow> bool) \<Rightarrow> (SandboxBlock \<Rightarrow> SandboxBlock) \<Rightarrow> DB \<Rightarrow> nat res \<times> DB" where
  "update_blocks P f d = (let (n, rows) = update_rows P f (db_blocks d) in (Inr n, d\<lparr>db_blocks := rows\<rparr>))"

definition update_identities :: "(UserIdentity \<Rightarrow> bool) \<Rightarrow> (UserIdentity \<Rightarrow> UserIdentity) \<Rightarrow> DB \<Rightarrow> nat res \<times> DB" where
  "update_identities P f d = (let (n, rows) = update_rows P f (db_identities d) in (Inr n, d\<lparr>db_identities := rows\<rparr>))"

section \<open>\<open>actor_repo.go\<close>\<close>

definition ErrActorNotFound :: gerr where "ErrActorNotFound = Sentinel ''actor not found''"
definition ErrCredentialNotFound :: gerr where "ErrCredentialNotFound = Sentinel ''agent credential not found''"
definition ErrTokenRevoked :: gerr where "ErrTokenRevoked = Sentinel ''agent token revoked''"
definition ErrEmptyDisplayName :: gerr where "ErrEmptyDisplayName = Sentinel ''display name is required''"
definition ErrDisplayNameConflict :: gerr where "ErrDisplayNameConflict = Sentinel ''an actor with that display name already exists''"

lemmas storage_errs = ErrActorNotFound_def ErrCredentialNotFound_def ErrTokenRevoked_def ErrEmptyDisplayName_def
  ErrDisplayNameConflict_def ErrRecordNotFound_def

definition actor_where :: "(Actor \<Rightarrow> bool) \<Rightarrow> DB \<Rightarrow> Actor res" where
  "actor_where P d = first_row ac_ID P (db_actors d)"

definition CreateAgent :: "db_world \<Rightarrow> string \<Rightarrow> DB \<Rightarrow> Actor res \<times> DB" where
  "CreateAgent w name0 d =
     (let name = TrimSpace name0 in
      if name = [] then (Inl ErrEmptyDisplayName, d)
      else
        (let (probe, d1) = select_first w 0 (actor_where (\<lambda>a. ac_DisplayName a = name)) d in
         case probe of
           Inr _ \<Rightarrow> (Inl ErrDisplayNameConflict, d1)
         | Inl e \<Rightarrow>
             if \<not> errors_is e ErrRecordNotFound then (Inl (Wrap ''check display name: '' e []), d1)
             else
               (let actor = \<lparr>ac_ID = dw_uuid w 0, ac_DisplayName = name, ac_Kind = ActorKindAgent, ac_CreatedAt = dw_now w\<rparr>;
                    (made, d2) = stmt w 1 (insert_actor w actor) d1
                in case made of
                     Inr _ \<Rightarrow> (Inr actor, d2)
                   | Inl e2 \<Rightarrow>
                       (let (again, d3) = select_first w 2 (actor_where (\<lambda>a. ac_DisplayName a = name)) d2
                        in (case again of Inr _ \<Rightarrow> Inl ErrDisplayNameConflict | Inl _ \<Rightarrow> Inl (Wrap ''create agent: '' e2 []), d3)))))"

text \<open>\<open>i\<close> is the number of the statement.\<close>

definition GetActorByID :: "db_world \<Rightarrow> nat \<Rightarrow> string \<Rightarrow> DB \<Rightarrow> Actor res \<times> DB" where
  "GetActorByID w i k d =
     (let (r, d1) = select_first w i (actor_where (\<lambda>a. ac_ID a = k)) d
      in (case r of Inr a \<Rightarrow> Inr a | Inl e \<Rightarrow> Inl (if errors_is e ErrRecordNotFound then ErrActorNotFound else e), d1))"

text \<open>\<open>ORDER BY created_at DESC\<close>; rows of the same instant may come in any order, here insertion order.\<close>

definition newest_first :: "('r \<Rightarrow> int) \<Rightarrow> 'r list \<Rightarrow> 'r list" where
  "newest_first t rows = sort_key (\<lambda>r. - t r) rows"

definition ListAgents :: "db_world \<Rightarrow> nat \<Rightarrow> DB \<Rightarrow> Actor list res \<times> DB" where
  "ListAgents w i d = select_rows w i (\<lambda>d. newest_first ac_CreatedAt (filter (\<lambda>a. ac_Kind a = ActorKindAgent) (db_actors d))) d"

definition raw_token :: "db_world \<Rightarrow> string" where
  "raw_token w = ''age_'' @ dw_uuid w 0"

text \<open>\<open>sha\<close> is the SHA-256 digest in hexadecimal.\<close>

definition Issue :: "(string \<Rightarrow> string) \<Rightarrow> db_world \<Rightarrow> string \<Rightarrow> string \<Rightarrow> DB \<Rightarrow> (string \<times> AgentCredential) res \<times> DB" where
  "Issue sha w actorID label d =
     (let (a, d1) = GetActorByID w 0 actorID d in
      case a of
        Inl e \<Rightarrow> (Inl e, d1)
      | Inr _ \<Rightarrow>
          (let cred = \<lparr>cr_ID = dw_uuid w 1, cr_ActorID = actorID, cr_Label = label, cr_TokenHash = sha (raw_token w),
                       cr_CreatedAt = dw_now w, cr_RevokedAt = None, cr_LastUsedAt = None\<rparr>;
               (made, d2) = stmt w 1 (insert_cred w cred) d1
           in (case made of Inl e \<Rightarrow> Inl (Wrap ''issue agent token: '' e []) | Inr _ \<Rightarrow> Inr (raw_token w, cred), d2)))"

definition IssueAgentToken :: "(string \<Rightarrow> string) \<Rightarrow> db_world \<Rightarrow> string \<Rightarrow> DB \<Rightarrow> (string \<times> AgentCredential) res \<times> DB" where
  "IssueAgentToken sha w actorID d = Issue sha w actorID [] d"

definition ListAgentCredentials :: "db_world \<Rightarrow> string \<Rightarrow> DB \<Rightarrow> AgentCredential list res \<times> DB" where
  "ListAgentCredentials w actorID d =
     select_rows w 0 (\<lambda>d. newest_first cr_CreatedAt (filter (\<lambda>c. cr_ActorID c = actorID) (db_creds d))) d"

definition RevokeAgentToken :: "db_world \<Rightarrow> string \<Rightarrow> DB \<Rightarrow> gerr option \<times> DB" where
  "RevokeAgentToken w credID d =
     (let (r, d1) = stmt w 0 (update_creds (\<lambda>c. cr_ID c = credID \<and> cr_RevokedAt c = None) (\<lambda>c. c\<lparr>cr_RevokedAt := Some (dw_now w)\<rparr>)) d
      in (case r of Inl e \<Rightarrow> Some e | Inr n \<Rightarrow> if n = 0 then Some ErrCredentialNotFound else None, d1))"

definition RevokeAllAgentCredentials :: "db_world \<Rightarrow> string \<Rightarrow> DB \<Rightarrow> gerr option \<times> DB" where
  "RevokeAllAgentCredentials w actorID d =
     (let (r, d1) = stmt w 0 (update_creds (\<lambda>c. cr_ActorID c = actorID \<and> cr_RevokedAt c = None) (\<lambda>c. c\<lparr>cr_RevokedAt := Some (dw_now w)\<rparr>)) d
      in (case r of Inl e \<Rightarrow> Some e | Inr n \<Rightarrow> None, d1))"

definition ActorsWithActiveToken :: "db_world \<Rightarrow> nat \<Rightarrow> DB \<Rightarrow> string list res \<times> DB" where
  "ActorsWithActiveToken w i d =
     select_rows w i (\<lambda>d. remdups (map cr_ActorID (filter (\<lambda>c. cr_RevokedAt c = None) (db_creds d)))) d"

text \<open>Of package \<open>internal/auth\<close>. The last use is written as best it can; a failure of it is dropped.\<close>

definition Authenticate :: "(string \<Rightarrow> string) \<Rightarrow> db_world \<Rightarrow> string \<Rightarrow> DB \<Rightarrow> Actor res \<times> DB" where
  "Authenticate sha w raw d =
     (let (c, d1) = select_first w 0 (\<lambda>d. first_row cr_ID (\<lambda>c. cr_TokenHash c = sha raw) (db_creds d)) d in
      case c of
        Inl e \<Rightarrow> (Inl (if errors_is e ErrRecordNotFound then ErrCredentialNotFound else e), d1)
      | Inr cred \<Rightarrow>
          if cr_RevokedAt cred \<noteq> None then (Inl ErrTokenRevoked, d1)
          else
            (let (_, d2) = stmt w 1 (update_creds (\<lambda>c. cr_ID c = cr_ID cred) (\<lambda>c. c\<lparr>cr_LastUsedAt := Some (dw_now w)\<rparr>)) d1
             in GetActorByID w 2 (cr_ActorID cred) d2))"

text \<open>The same steps, in \<open>actor_repo.go\<close>.\<close>

definition AuthenticateAgentToken :: "(string \<Rightarrow> string) \<Rightarrow> db_world \<Rightarrow> string \<Rightarrow> DB \<Rightarrow> Actor res \<times> DB" where
  "AuthenticateAgentToken sha w raw d =
     (let (c, d1) = select_first w 0 (\<lambda>d. first_row cr_ID (\<lambda>c. cr_TokenHash c = sha raw) (db_creds d)) d in
      case c of
        Inl e \<Rightarrow> (Inl (if errors_is e ErrRecordNotFound then ErrCredentialNotFound else e), d1)
      | Inr cred \<Rightarrow>
          if cr_RevokedAt cred \<noteq> None then (Inl ErrTokenRevoked, d1)
          else
            (let (_, d2) = stmt w 1 (update_creds (\<lambda>c. cr_ID c = cr_ID cred) (\<lambda>c. c\<lparr>cr_LastUsedAt := Some (dw_now w)\<rparr>)) d1
             in GetActorByID w 2 (cr_ActorID cred) d2))"

end
