(* ===== verification/Storage_Repos.thy ===== *)
theory Storage_Repos imports Storage Procexec begin

text \<open>
  Package \<open>internal/storage\<close>: the repositories of the journal (\<open>audit_repo.go\<close>), of the emergency
  blocks (\<open>sandbox_block_repo.go\<close>) and of the human users (\<open>human_repo.go\<close>).
\<close>

section \<open>\<open>audit_repo.go\<close>\<close>

definition maxTargetBytes :: nat where "maxTargetBytes = push_bit 10 2"

record AuditRecord =
  ar_CallID :: string
  ar_Actor :: "Actor option"
  ar_Action :: string
  ar_Target :: string
  ar_WorkerID :: string
  ar_ExecID :: string
  ar_Outcome :: string
  ar_Error :: string
  ar_DurationMs :: int
  ar_Bytes :: int
  ar_ExitCode :: "int option"

definition zeroAuditRecord :: AuditRecord where
  "zeroAuditRecord = \<lparr>ar_CallID = [], ar_Actor = None, ar_Action = [], ar_Target = [], ar_WorkerID = [], ar_ExecID = [],
     ar_Outcome = [], ar_Error = [], ar_DurationMs = 0, ar_Bytes = 0, ar_ExitCode = None\<rparr>"

text \<open>The cut moves back over the continuation bytes of a character.\<close>

fun rune_cut :: "string \<Rightarrow> nat \<Rightarrow> nat" where
  "rune_cut s 0 = 0"
| "rune_cut s (Suc n) = (if is_cont (s ! Suc n) then rune_cut s n else Suc n)"

definition ellipsis :: string where "ellipsis = [CHR 0xE2, CHR 0x80, CHR 0xA6]"

definition truncateTarget :: "string \<Rightarrow> string" where
  "truncateTarget s = (if length s \<le> maxTargetBytes then s else take (rune_cut s maxTargetBytes) s @ ellipsis)"

definition audit_event :: "db_world \<Rightarrow> nat \<Rightarrow> AuditRecord \<Rightarrow> AuditPhase \<Rightarrow> AuditEvent" where
  "audit_event w k rec phase =
     \<lparr>au_ID = dw_uuid w k, au_CallID = ar_CallID rec, au_Phase = phase, au_At = dw_now w,
      au_ActorID = (case ar_Actor rec of None \<Rightarrow> [] | Some a \<Rightarrow> ac_ID a),
      au_ActorName = (case ar_Actor rec of None \<Rightarrow> [] | Some a \<Rightarrow> ac_DisplayName a),
      au_ActorKind = (case ar_Actor rec of None \<Rightarrow> [] | Some a \<Rightarrow> ac_Kind a),
      au_Action = ar_Action rec, au_Target = truncateTarget (ar_Target rec), au_WorkerID = ar_WorkerID rec,
      au_ExecID = ar_ExecID rec, au_ExitCode = ar_ExitCode rec, au_Outcome = ar_Outcome rec,
      au_Error = truncateTarget (ar_Error rec), au_DurationMs = ar_DurationMs rec, au_Bytes = ar_Bytes rec\<rparr>"

definition appendAudit :: "db_world \<Rightarrow> nat \<Rightarrow> AuditRecord \<Rightarrow> AuditPhase \<Rightarrow> DB \<Rightarrow> gerr option \<times> DB" where
  "appendAudit w k rec phase d =
     (let (r, d1) = stmt w 0 (insert_audit w (audit_event w k rec phase)) d
      in (case r of Inl e \<Rightarrow> Some e | Inr _ \<Rightarrow> None, d1))"

definition AppendAuditStarted :: "db_world \<Rightarrow> AuditRecord \<Rightarrow> DB \<Rightarrow> (string \<times> gerr option) \<times> DB" where
  "AppendAuditStarted w rec0 d =
     (let rec = (if ar_CallID rec0 = [] then rec0\<lparr>ar_CallID := dw_uuid w 0\<rparr> else rec0);
          (e, d1) = appendAudit w 1 rec AuditStarted d
      in ((ar_CallID rec, e), d1))"

definition AppendAuditFinished :: "db_world \<Rightarrow> AuditRecord \<Rightarrow> DB \<Rightarrow> gerr option \<times> DB" where
  "AppendAuditFinished w rec d = appendAudit w 0 rec AuditFinished d"

record AuditFilter =
  fl_ActorID :: string
  fl_Action :: string
  fl_Since :: "int option"
  fl_Limit :: int

definition audit_matches :: "AuditFilter \<Rightarrow> AuditEvent \<Rightarrow> bool" where
  "audit_matches f e \<longleftrightarrow> (fl_ActorID f = [] \<or> au_ActorID e = fl_ActorID f) \<and> (fl_Action f = [] \<or> au_Action e = fl_Action f) \<and>
     (case fl_Since f of None \<Rightarrow> True | Some t \<Rightarrow> t \<le> au_At e)"

definition ListAudit :: "db_world \<Rightarrow> AuditFilter \<Rightarrow> DB \<Rightarrow> AuditEvent list res \<times> DB" where
  "ListAudit w f d =
     (let most = (if fl_Limit f \<le> 0 \<or> 1000 < fl_Limit f then 200 else fl_Limit f)
      in select_rows w 0 (\<lambda>d. take (nat most) (newest_first au_At (filter (audit_matches f) (db_audit d)))) d)"

definition PruneAudit :: "db_world \<Rightarrow> int \<Rightarrow> DB \<Rightarrow> nat res \<times> DB" where
  "PruneAudit w retention d =
     (if retention \<le> 0 then (Inr 0, d)
      else stmt w 0 (\<lambda>d. (Inr (length (filter (\<lambda>e. au_At e < dw_now w - retention) (db_audit d))),
                     d\<lparr>db_audit := filter (\<lambda>e. \<not> au_At e < dw_now w - retention) (db_audit d)\<rparr>)) d)"

section \<open>\<open>sandbox_block_repo.go\<close>\<close>

definition ErrAlreadyBlocked :: gerr where "ErrAlreadyBlocked = Sentinel ''sandbox is already blocked''"
definition ErrNotBlocked :: gerr where "ErrNotBlocked = Sentinel ''sandbox is not blocked''"
definition ErrEmptyReason :: gerr where "ErrEmptyReason = Sentinel ''a block reason is required''"

definition ActiveSandboxBlock :: "db_world \<Rightarrow> nat \<Rightarrow> string \<Rightarrow> DB \<Rightarrow> SandboxBlock option res \<times> DB" where
  "ActiveSandboxBlock w i actorID d =
     (let (r, d1) = select_first w i (\<lambda>d. first_row bk_ID (\<lambda>b. bk_ActiveKey b = Some actorID) (db_blocks d)) d
      in (case r of
            Inr b \<Rightarrow> Inr (Some b)
          | Inl e \<Rightarrow> if errors_is e ErrRecordNotFound then Inr None else Inl (Wrap ''look up sandbox block: '' e []), d1))"

definition new_block :: "db_world \<Rightarrow> string \<Rightarrow> Actor \<Rightarrow> string \<Rightarrow> SandboxBlock" where
  "new_block w actorID blockedBy reason =
     \<lparr>bk_ID = dw_uuid w 0, bk_ActorID = actorID, bk_ActiveKey = Some actorID, bk_ByActorID = ac_ID blockedBy,
      bk_ByName = ac_DisplayName blockedBy, bk_Reason = reason, bk_At = dw_now w, bk_ReleasedAt = None,
      bk_ReleasedByName = [], bk_Killed = 0\<rparr>"

definition BlockSandbox :: "db_world \<Rightarrow> string \<Rightarrow> Actor \<Rightarrow> string \<Rightarrow> DB \<Rightarrow> SandboxBlock res \<times> DB" where
  "BlockSandbox w actorID blockedBy reason d =
     (if reason = [] then (Inl ErrEmptyReason, d)
      else
        (let block = new_block w actorID blockedBy reason;
             (made, d1) = stmt w 0 (insert_block w block) d
         in case made of
              Inr _ \<Rightarrow> (Inr block, d1)
            | Inl e \<Rightarrow>
                (let (existing, d2) = ActiveSandboxBlock w 1 actorID d1
                 in (case existing of
                       Inr (Some b) \<Rightarrow> Inl ErrAlreadyBlocked
                     | _ \<Rightarrow> Inl (Wrap ''create sandbox block: '' e []), d2))))"

definition ReleaseSandbox :: "db_world \<Rightarrow> string \<Rightarrow> Actor \<Rightarrow> DB \<Rightarrow> gerr option \<times> DB" where
  "ReleaseSandbox w actorID releasedBy d =
     (let (r, d1) = stmt w 0 (update_blocks (\<lambda>b. bk_ActorID b = actorID \<and> bk_ActiveKey b \<noteq> None)
             (\<lambda>b. b\<lparr>bk_ActiveKey := None, bk_ReleasedAt := Some (dw_now w), bk_ReleasedByName := ac_DisplayName releasedBy\<rparr>)) d
      in (case r of Inl e \<Rightarrow> Some e | Inr n \<Rightarrow> if n = 0 then Some ErrNotBlocked else None, d1))"

text \<open>A later row of the same agent replaces an earlier one in the map.\<close>

definition ActiveSandboxBlocks :: "db_world \<Rightarrow> nat \<Rightarrow> DB \<Rightarrow> (string, SandboxBlock) gomap res \<times> DB" where
  "ActiveSandboxBlocks w i d =
     (let (r, d1) = select_rows w i (\<lambda>d. filter (\<lambda>b. bk_ActiveKey b \<noteq> None) (db_blocks d)) d
      in (case r of Inl e \<Rightarrow> Inl e | Inr bs \<Rightarrow> Inr (fold (\<lambda>b. mset_key (bk_ActorID b) b) bs []), d1))"

definition RecordKilledProcesses :: "db_world \<Rightarrow> string \<Rightarrow> int \<Rightarrow> DB \<Rightarrow> gerr option \<times> DB" where
  "RecordKilledProcesses w blockID killed d =
     (let (r, d1) = stmt w 0 (update_blocks (\<lambda>b. bk_ID b = blockID) (\<lambda>b. b\<lparr>bk_Killed := killed\<rparr>)) d
      in (case r of Inl e \<Rightarrow> Some e | Inr n \<Rightarrow> None, d1))"

section \<open>\<open>human_repo.go\<close>\<close>

definition identity_of :: "string \<Rightarrow> DB \<Rightarrow> UserIdentity res" where
  "identity_of subject d = first_row ui_ActorID (\<lambda>u. ui_Subject u = subject) (db_identities d)"

text \<open>The transaction: both rows or neither. The result is whether this call made the identity.\<close>

definition human_tx :: "db_world \<Rightarrow> string \<Rightarrow> string \<Rightarrow> string \<Rightarrow> string \<Rightarrow> DB \<Rightarrow> bool res \<times> DB" where
  "human_tx w newID subject displayName role d =
     (let (u, d1) = insert_identity w \<lparr>ui_ActorID = newID, ui_Subject = subject, ui_Role = role\<rparr> d in
      case u of
        Inl e \<Rightarrow> (Inl e, d)
      | Inr False \<Rightarrow> (Inr False, d1)
      | Inr True \<Rightarrow>
          (let (a, d2) = insert_actor w \<lparr>ac_ID = newID, ac_DisplayName = displayName, ac_Kind = ActorKindHuman, ac_CreatedAt = dw_now w\<rparr> d1
           in case a of Inl e \<Rightarrow> (Inl e, d) | Inr _ \<Rightarrow> (Inr True, d2)))"

text \<open>The actor a row names; here a missing row stays \<open>ErrRecordNotFound\<close>.\<close>

definition named_actor :: "db_world \<Rightarrow> nat \<Rightarrow> string \<Rightarrow> DB \<Rightarrow> Actor res \<times> DB" where
  "named_actor w i k d = select_first w i (actor_where (\<lambda>a. ac_ID a = k)) d"

definition GetOrCreateHumanActor :: "db_world \<Rightarrow> string \<Rightarrow> string \<Rightarrow> string \<Rightarrow> DB \<Rightarrow> Actor res \<times> DB" where
  "GetOrCreateHumanActor w subject displayName role d =
     (let (found, d1) = select_first w 0 (identity_of subject) d in
      case found of
        Inr identity \<Rightarrow>
          (if ui_Role identity \<noteq> role
           then (let (up, d2) = stmt w 1 (update_identities (\<lambda>u. ui_ActorID u = ui_ActorID identity) (\<lambda>u. u\<lparr>ui_Role := role\<rparr>)) d1
                 in case up of Inl e \<Rightarrow> (Inl e, d2) | Inr _ \<Rightarrow> named_actor w 2 (ui_ActorID identity) d2)
           else named_actor w 2 (ui_ActorID identity) d1)
      | Inl e \<Rightarrow>
          if \<not> errors_is e ErrRecordNotFound then (Inl e, d1)
          else
            (let newID = dw_uuid w 0; (won, d2) = stmt w 1 (human_tx w newID subject displayName role) d1 in
             case won of
               Inl e2 \<Rightarrow> (Inl e2, d2)
             | Inr True \<Rightarrow> named_actor w 2 newID d2
             | Inr False \<Rightarrow>
                 (let (winner, d3) = select_first w 2 (identity_of subject) d2
                  in case winner of Inl e3 \<Rightarrow> (Inl e3, d3) | Inr u \<Rightarrow> named_actor w 3 (ui_ActorID u) d3)))"

end
