(* ===== verification/Storage_Inv.thy ===== *)
theory Storage_Inv imports Storage_Repos begin

text \<open>
  The database as its users leave it: every statement the repositories make is a step, whoever
  makes it and in whatever order, and the tables keep the invariant \<open>db_ok\<close>. What no statement
  undoes (a revocation, an actor, the link of a login to its actor) is stated once in the locale
  \<open>kept_by_statements\<close> and holds from then on.
\<close>

section \<open>Statements as steps\<close>

definition revoke_where :: "(AgentCredential \<Rightarrow> bool) \<Rightarrow> int \<Rightarrow> DB \<Rightarrow> DB" where
  "revoke_where P t d = snd (update_creds (\<lambda>c. P c \<and> cr_RevokedAt c = None) (\<lambda>c. c\<lparr>cr_RevokedAt := Some t\<rparr>) d)"

definition touch_where :: "(AgentCredential \<Rightarrow> bool) \<Rightarrow> int \<Rightarrow> DB \<Rightarrow> DB" where
  "touch_where P t d = snd (update_creds P (\<lambda>c. c\<lparr>cr_LastUsedAt := Some t\<rparr>) d)"

definition release_where :: "(SandboxBlock \<Rightarrow> bool) \<Rightarrow> int \<Rightarrow> string \<Rightarrow> DB \<Rightarrow> DB" where
  "release_where P t n d = snd (update_blocks (\<lambda>b. P b \<and> bk_ActiveKey b \<noteq> None)
     (\<lambda>b. b\<lparr>bk_ActiveKey := None, bk_ReleasedAt := Some t, bk_ReleasedByName := n\<rparr>) d)"

inductive db_stmt :: "DB \<Rightarrow> DB \<Rightarrow> bool" where
  actor: "db_stmt d (snd (insert_actor w a d))"
| cred: "cr_RevokedAt c = None \<Longrightarrow> db_stmt d (snd (insert_cred w c d))"
| revoke: "db_stmt d (revoke_where P t d)"
| touch: "db_stmt d (touch_where P t d)"
| block: "bk_ActiveKey b = Some (bk_ActorID b) \<Longrightarrow> bk_ReleasedAt b = None \<Longrightarrow> db_stmt d (snd (insert_block w b d))"
| release: "db_stmt d (release_where P t n d)"
| killed: "db_stmt d (snd (update_blocks P (\<lambda>b. b\<lparr>bk_Killed := k\<rparr>) d))"
| audit: "db_stmt d (snd (insert_audit w e d))"
| prune: "db_stmt d (d\<lparr>db_audit := filter Q (db_audit d)\<rparr>)"
| human: "db_stmt d (snd (human_tx w newID subject displayName role d))"
| role: "db_stmt d (snd (update_identities P (\<lambda>u. u\<lparr>ui_Role := r\<rparr>) d))"

inductive db_reach :: "DB \<Rightarrow> DB \<Rightarrow> bool" where
  here: "db_reach d d"
| more: "db_reach d d' \<Longrightarrow> db_stmt d' d'' \<Longrightarrow> db_reach d d''"

lemma db_reach_one: "db_stmt d d' \<Longrightarrow> db_reach d d'"
  by (rule db_reach.more [OF db_reach.here])

lemma db_reach_trans: "db_reach d' d'' \<Longrightarrow> db_reach d d' \<Longrightarrow> db_reach d d''"
  by (induction rule: db_reach.induct) (auto intro: db_reach.more)

section \<open>The invariant\<close>

definition db_ok :: "DB \<Rightarrow> bool" where
  "db_ok d \<longleftrightarrow> distinct (map ac_ID (db_actors d)) \<and> distinct (map ac_DisplayName (db_actors d)) \<and>
     distinct (map cr_ID (db_creds d)) \<and> distinct (map cr_TokenHash (db_creds d)) \<and>
     distinct (map ui_ActorID (db_identities d)) \<and> distinct (map ui_Subject (db_identities d)) \<and>
     distinct (map bk_ID (db_blocks d)) \<and> distinct (active_keys d) \<and>
     (\<forall>b\<in>set (db_blocks d). bk_ActiveKey b = (if bk_ReleasedAt b = None then Some (bk_ActorID b) else None)) \<and>
     distinct (map au_ID (db_audit d))"

lemma update_rows_simps [simp]: "fst (update_rows P f rows) = length (filter P rows)"
  "snd (update_rows P f rows) = map (\<lambda>r. if P r then f r else r) rows"
  by (simp_all add: update_rows_def)

lemma update_snd [simp]:
  "snd (update_creds P f d) = d\<lparr>db_creds := map (\<lambda>r. if P r then f r else r) (db_creds d)\<rparr>"
  "snd (update_blocks Q g d) = d\<lparr>db_blocks := map (\<lambda>r. if Q r then g r else r) (db_blocks d)\<rparr>"
  "snd (update_identities R h d) = d\<lparr>db_identities := map (\<lambda>r. if R r then h r else r) (db_identities d)\<rparr>"
  by (simp_all add: update_creds_def update_blocks_def update_identities_def split_beta)

lemma map_update_key: "(\<And>r. key (f r) = key r) \<Longrightarrow> map (\<lambda>r. key (if P r then f r else r)) rows = map key rows"
  by simp

lemma active_keys_append [simp]: "active_keys (d\<lparr>db_blocks := xs @ [b]\<rparr>) =
    active_keys (d\<lparr>db_blocks := xs\<rparr>) @ (case bk_ActiveKey b of None \<Rightarrow> [] | Some k \<Rightarrow> [k])"
  by (simp add: active_keys_def)

lemma active_keys_other [simp]: "active_keys (d\<lparr>db_actors := a\<rparr>) = active_keys d" "active_keys (d\<lparr>db_creds := c\<rparr>) = active_keys d"
  "active_keys (d\<lparr>db_identities := i\<rparr>) = active_keys d" "active_keys (d\<lparr>db_audit := e\<rparr>) = active_keys d"
  by (simp_all add: active_keys_def)

lemma active_keys_killed: "active_keys (d\<lparr>db_blocks := map (\<lambda>b. if P b then b\<lparr>bk_Killed := k\<rparr> else b) xs\<rparr>) = active_keys (d\<lparr>db_blocks := xs\<rparr>)"
  unfolding active_keys_def by (induction xs) auto

lemma active_keys_release:
  "set (active_keys (d\<lparr>db_blocks := map (\<lambda>b. if P b \<and> bk_ActiveKey b \<noteq> None then b\<lparr>bk_ActiveKey := None, bk_ReleasedAt := t, bk_ReleasedByName := n\<rparr> else b) xs\<rparr>))
     \<subseteq> set (active_keys (d\<lparr>db_blocks := xs\<rparr>))"
  "distinct (active_keys (d\<lparr>db_blocks := xs\<rparr>)) \<Longrightarrow> distinct (active_keys (d\<lparr>db_blocks :=
     map (\<lambda>b. if P b \<and> bk_ActiveKey b \<noteq> None then b\<lparr>bk_ActiveKey := None, bk_ReleasedAt := t, bk_ReleasedByName := n\<rparr> else b) xs\<rparr>))"
  unfolding active_keys_def by (induction xs) (auto split: option.splits)

lemma db_ok_stmt: "db_stmt d d' \<Longrightarrow> db_ok d \<Longrightarrow> db_ok d'"
proof (induction rule: db_stmt.induct)
  case (release d P t n)
  then show ?case using active_keys_release(2) [where d = d and xs = "db_blocks d" and P = P and t = "Some t" and n = n]
    by (auto simp: db_ok_def release_where_def comp_def if_distrib cong: if_cong)
next
  case (human d w newID subject displayName role)
  then show ?case by (auto simp: db_ok_def human_tx_def insert_identity_def insert_actor_def Let_def)
qed (auto simp: db_ok_def insert_actor_def insert_cred_def insert_block_def insert_audit_def revoke_where_def touch_where_def
      comp_def if_distrib active_keys_killed distinct_map_filter cong: if_cong)

lemma db_ok_reach: "db_reach d d' \<Longrightarrow> db_ok d \<Longrightarrow> db_ok d'"
  by (induction rule: db_reach.induct) (auto dest: db_ok_stmt)

section \<open>What no statement undoes\<close>

locale kept_by_statements =
  fixes P :: "DB \<Rightarrow> bool"
  assumes kept: "db_stmt d d' \<Longrightarrow> P d \<Longrightarrow> P d'"
begin

lemma kept_reach: "db_reach d d' \<Longrightarrow> P d \<Longrightarrow> P d'"
  by (induction rule: db_reach.induct) (auto dest: kept)

lemma kept_among: "(\<And>i d. db_reach d (dw_others w i d)) \<Longrightarrow> P d \<Longrightarrow> P (dw_others w i d)"
  by (rule kept_reach)

end

definition token_revoked :: "string \<Rightarrow> DB \<Rightarrow> bool" where
  "token_revoked h d \<longleftrightarrow> (\<exists>c\<in>set (db_creds d). cr_TokenHash c = h \<and> cr_RevokedAt c \<noteq> None)"

definition token_of :: "string \<Rightarrow> string \<Rightarrow> DB \<Rightarrow> bool" where
  "token_of h k d \<longleftrightarrow> (\<exists>c\<in>set (db_creds d). cr_TokenHash c = h \<and> cr_ActorID c = k)"

definition known_actor :: "string \<Rightarrow> DB \<Rightarrow> bool" where
  "known_actor k d \<longleftrightarrow> k \<in> set (map ac_ID (db_actors d))"

definition linked :: "string \<Rightarrow> string \<Rightarrow> DB \<Rightarrow> bool" where
  "linked s k d \<longleftrightarrow> (\<exists>u\<in>set (db_identities d). ui_Subject u = s \<and> ui_ActorID u = k)"

lemma bex_map_keep: "(\<And>x. Q x \<Longrightarrow> Q (f x)) \<Longrightarrow> \<exists>x\<in>set xs. Q x \<Longrightarrow> \<exists>x\<in>set (map f xs). Q x"
  by auto

lemma creds_kept:
  assumes "db_stmt d d'" "\<And>c t. Q c \<Longrightarrow> cr_RevokedAt c = None \<Longrightarrow> Q (c\<lparr>cr_RevokedAt := Some t\<rparr>)" "\<And>c t. Q c \<Longrightarrow> Q (c\<lparr>cr_LastUsedAt := Some t\<rparr>)"
    and "\<exists>c\<in>set (db_creds d). Q c"
  shows "\<exists>c\<in>set (db_creds d'). Q c"
  using assms(1)
proof cases
  case (revoke P t)
  then have c: "db_creds d' = map (\<lambda>r. if P r \<and> cr_RevokedAt r = None then r\<lparr>cr_RevokedAt := Some t\<rparr> else r) (db_creds d)"
    by (simp add: revoke_where_def)
  show ?thesis unfolding c by (rule bex_map_keep [OF _ assms(4)]) (simp add: assms(2))
next
  case (touch P t)
  then have c: "db_creds d' = map (\<lambda>r. if P r then r\<lparr>cr_LastUsedAt := Some t\<rparr> else r) (db_creds d)"
    by (simp add: touch_where_def)
  show ?thesis unfolding c by (rule bex_map_keep [OF _ assms(4)]) (simp add: assms(3))
qed (use assms(4) in \<open>auto simp: insert_actor_def insert_cred_def insert_block_def insert_audit_def release_where_def human_tx_def
      insert_identity_def Let_def\<close>)

lemma identities_kept:
  assumes "db_stmt d d'" "\<And>u r. Q u \<Longrightarrow> Q (u\<lparr>ui_Role := r\<rparr>)" "\<exists>u\<in>set (db_identities d). Q u"
  shows "\<exists>u\<in>set (db_identities d'). Q u"
  using assms(1)
proof cases
  case (role P r)
  then have c: "db_identities d' = map (\<lambda>u. if P u then u\<lparr>ui_Role := r\<rparr> else u) (db_identities d)" by simp
  show ?thesis unfolding c by (rule bex_map_keep [OF _ assms(3)]) (simp add: assms(2))
qed (use assms(3) in \<open>auto simp: insert_actor_def insert_cred_def insert_block_def insert_audit_def release_where_def human_tx_def
      insert_identity_def revoke_where_def touch_where_def Let_def\<close>)

interpretation revoked: kept_by_statements "token_revoked h" for h
  unfolding token_revoked_def by unfold_locales (erule creds_kept; simp)

interpretation token: kept_by_statements "token_of h k" for h k
  unfolding token_of_def by unfold_locales (erule creds_kept; simp)

interpretation known: kept_by_statements "known_actor k" for k
  by unfold_locales (erule db_stmt.cases; auto simp: known_actor_def insert_actor_def insert_cred_def insert_block_def insert_audit_def
    release_where_def human_tx_def insert_identity_def revoke_where_def touch_where_def Let_def image_iff)

interpretation login: kept_by_statements "linked s k" for s k
  unfolding linked_def by unfold_locales (erule identities_kept; simp)

interpretation sound: kept_by_statements db_ok
  by unfold_locales (rule db_ok_stmt)

end
