(* ===== verification/Storage_Props.thy ===== *)
theory Storage_Props imports Storage_Inv Go_Json begin

text \<open>
  What the repositories promise: at most one emergency block per agent however administrators race,
  tokens that stay with their agent and revocations that are final, one actor per login, and journal
  texts that are cut without breaking a character.
\<close>

definition peers :: "db_world \<Rightarrow> bool" where
  "peers w \<longleftrightarrow> (\<forall>i d. db_reach d (dw_others w i d))"

definition quiet :: "db_world \<Rightarrow> bool" where
  "quiet w \<longleftrightarrow> (\<forall>i. dw_fault w i = None)"

section \<open>Operations are made of statements\<close>

lemma peersD: "peers w \<Longrightarrow> db_reach d (dw_others w i d)"
  by (simp add: peers_def)

lemma stmt_reach: "peers w \<Longrightarrow> (\<And>d. db_reach d (snd (f d))) \<Longrightarrow> db_reach d (snd (stmt w i f d))"
  by (auto simp: stmt_def Let_def split: option.split intro: db_reach_trans peersD)

lemma select_reach: "peers w \<Longrightarrow> db_reach d (snd (select_first w i q d))" "peers w \<Longrightarrow> db_reach d (snd (select_rows w i q' d))"
  by (auto simp: select_first_def select_rows_def intro!: stmt_reach db_reach.here)

lemma stmt_then: "peers w \<Longrightarrow> stmt w i f d = (r, d') \<Longrightarrow> (\<And>d. db_reach d (snd (f d))) \<Longrightarrow> db_reach d d'"
  using stmt_reach [of w f d i] by simp

lemma select_then: "peers w \<Longrightarrow> select_first w i q d = (r, d') \<Longrightarrow> db_reach d d'"
  using select_reach(1) [of w d i q] by simp

lemma first_row_Inr: "first_row key P rows = Inr r \<Longrightarrow> r \<in> set rows \<and> P r"
proof -
  assume "first_row key P rows = Inr r"
  then obtain rs where "sort_key key (filter P rows) = r # rs" by (auto simp: first_row_def split: list.splits)
  then have "r \<in> set (sort_key key (filter P rows))" by simp
  then show ?thesis by simp
qed

lemma first_row_Inl: "first_row key P rows = Inl e \<longleftrightarrow> e = ErrRecordNotFound \<and> (\<forall>r\<in>set rows. \<not> P r)"
proof -
  have "sort_key key (filter P rows) = [] \<longleftrightarrow> (\<forall>r\<in>set rows. \<not> P r)"
    using set_sort [of key "filter P rows"] by (auto simp flip: set_empty)
  then show ?thesis by (auto simp: first_row_def split: list.splits)
qed

lemma select_first_quiet: "quiet w \<Longrightarrow> select_first w i q d = (q (dw_others w i d), dw_others w i d)"
  by (simp add: select_first_def stmt_def quiet_def Let_def)

lemma stmt_quiet: "quiet w \<Longrightarrow> stmt w i f d = f (dw_others w i d)"
  by (simp add: stmt_def quiet_def Let_def)

section \<open>Blocks\<close>

definition active_for :: "string \<Rightarrow> SandboxBlock \<Rightarrow> bool" where
  "active_for k b \<longleftrightarrow> bk_ActorID b = k \<and> bk_ReleasedAt b = None"

lemma active_keys_ok:
  assumes "\<forall>b\<in>set bs. bk_ActiveKey b = (if bk_ReleasedAt b = None then Some (bk_ActorID b) else None)"
  shows "active_keys (d\<lparr>db_blocks := bs\<rparr>) = map bk_ActorID (filter (\<lambda>b. bk_ReleasedAt b = None) bs)"
  using assms by (induction bs) (auto simp: active_keys_def split: if_splits)

lemma distinct_key_filter: "distinct (map f (filter Q xs)) \<Longrightarrow> length (filter (\<lambda>x. f x = k \<and> Q x) xs) \<le> 1"
  by (induction xs) (auto simp: image_iff filter_empty_conv split: if_splits)

lemma one_active:
  assumes "db_ok d" shows "length (filter (active_for k) (db_blocks d)) \<le> 1"
proof -
  have "active_keys d = map bk_ActorID (filter (\<lambda>b. bk_ReleasedAt b = None) (db_blocks d))"
    using active_keys_ok [of "db_blocks d" d] assms by (simp add: db_ok_def)
  then have "distinct (map bk_ActorID (filter (\<lambda>b. bk_ReleasedAt b = None) (db_blocks d)))" using assms by (simp add: db_ok_def)
  from distinct_key_filter [OF this, of k] show ?thesis by (simp add: active_for_def [abs_def])
qed

lemma active_row:
  assumes "db_ok d" "b \<in> set (db_blocks d)"
  shows "bk_ActiveKey b = Some k \<longleftrightarrow> active_for k b"
proof -
  have "bk_ActiveKey b = (if bk_ReleasedAt b = None then Some (bk_ActorID b) else None)" using assms by (simp add: db_ok_def)
  then show ?thesis by (auto simp: active_for_def)
qed

lemma active_key_iff:
  assumes "db_ok d" shows "k \<in> set (active_keys d) \<longleftrightarrow> filter (active_for k) (db_blocks d) \<noteq> []"
proof -
  have "k \<in> set (active_keys d) \<longleftrightarrow> (\<exists>b\<in>set (db_blocks d). bk_ActiveKey b = Some k)"
    by (force simp: active_keys_def split: option.splits)
  also have "\<dots> \<longleftrightarrow> (\<exists>b\<in>set (db_blocks d). active_for k b)" using active_row [OF assms, of _ k] by auto
  finally show ?thesis by (simp add: filter_empty_conv)
qed

text \<open>C24: at most one block of an agent is active in any state the statements lead to, whoever else is
  writing in between; a block that is reported made is the one that is active, and it is made only
  where none was.\<close>

theorem blocking_is_exclusive:
  assumes "db_ok d0" "db_reach d0 d" "peers w" "BlockSandbox w k admin reason d = (r, d')"
  shows "length (filter (active_for k) (db_blocks d')) \<le> 1 \<and>
    (\<forall>b. r = Inr b \<longrightarrow> filter (active_for k) (db_blocks d') = [b] \<and> filter (active_for k) (db_blocks (dw_others w 0 d)) = [] \<and>
       bk_Reason b = reason \<and> bk_ByName b = ac_DisplayName admin)"
proof (cases "reason = []")
  case True
  with assms one_active [OF db_ok_reach [OF assms(2,1)]] show ?thesis by (auto simp: BlockSandbox_def)
next
  case False
  let ?d1 = "dw_others w 0 d" and ?b = "new_block w k admin reason"
  have ok1: "db_ok ?d1" by (rule db_ok_reach [OF peersD [OF assms(3)] db_ok_reach [OF assms(2,1)]])
  have nb: "bk_ActiveKey ?b = Some k" "active_for k ?b" "bk_Reason ?b = reason" "bk_ByName ?b = ac_DisplayName admin"
    "bk_ActorID ?b = k" "bk_ReleasedAt ?b = None" by (simp_all add: new_block_def active_for_def)
  obtain m d2 where m: "stmt w 0 (insert_block w ?b) d = (m, d2)" by fastforce
  have ok2: "db_ok d2"
    using m ok1 db_ok_stmt [OF db_stmt.block [of ?b ?d1 w] ok1] nb by (auto simp: stmt_def Let_def split: option.splits)
  show ?thesis
  proof (cases m)
    case (Inr u)
    with m have "snd (insert_block w ?b ?d1) = d2" "k \<notin> set (active_keys ?d1)" "d2 = ?d1\<lparr>db_blocks := db_blocks ?d1 @ [?b]\<rparr>"
      using nb by (auto simp: stmt_def Let_def insert_block_def split: option.splits if_splits)
    moreover from this active_key_iff [OF ok1, of k] have e: "filter (active_for k) (db_blocks ?d1) = []" by simp
    moreover have "r = Inr ?b" "d' = d2" using assms(4) False m Inr by (simp_all add: BlockSandbox_def Let_def)
    ultimately show ?thesis using nb by simp
  next
    case (Inl e)
    obtain x d3 where x: "ActiveSandboxBlock w 1 k d2 = (x, d3)" by fastforce
    then have "db_reach d2 d3"
      by (auto simp: ActiveSandboxBlock_def Let_def split_beta dest: arg_cong [where f = snd] intro: select_reach(1) [OF assms(3)])
    then have "db_ok d3" using ok2 by (rule db_ok_reach)
    moreover have "d' = d3" "\<And>b. r \<noteq> Inr b"
      using assms(4) False m Inl x by (auto simp: BlockSandbox_def Let_def split: sum.splits option.splits)
    ultimately show ?thesis using one_active by auto
  qed
qed

definition quiet_world :: db_world where
  "quiet_world = \<lparr>dw_fault = (\<lambda>_. None), dw_others = (\<lambda>_ d. d), dw_now = 7, dw_uuid = (\<lambda>i. show_nat i), dw_conflict = Plain ''unique''\<rparr>"

definition sample_admin :: Actor where
  "sample_admin = \<lparr>ac_ID = ''h'', ac_DisplayName = ''Ada'', ac_Kind = ActorKindHuman, ac_CreatedAt = 0\<rparr>"

definition sample_agent :: Actor where
  "sample_agent = \<lparr>ac_ID = ''a'', ac_DisplayName = ''bot'', ac_Kind = ActorKindAgent, ac_CreatedAt = 1\<rparr>"

definition sample_db :: DB where
  "sample_db = \<lparr>db_actors = [sample_admin, sample_agent], db_creds = [], db_identities = [], db_blocks = [], db_audit = []\<rparr>"

lemma sample_db_ok: "db_ok sample_db"
  by (simp add: db_ok_def sample_db_def active_keys_def sample_admin_def sample_agent_def)

lemma quiet_world_ok [simp]: "peers quiet_world" "quiet quiet_world"
  by (simp_all add: peers_def quiet_def quiet_world_def db_reach.here)

lemma blocking_is_exclusive_witness:
  "\<exists>b d. BlockSandbox quiet_world ''a'' sample_admin ''loop'' sample_db = (Inr b, d) \<and> filter (active_for ''a'') (db_blocks d) = [b]"
proof -
  let ?x = "BlockSandbox quiet_world ''a'' sample_admin ''loop'' sample_db"
  have "is_ok (fst ?x)" by (simp add: BlockSandbox_def stmt_def quiet_world_def insert_block_def sample_db_def active_keys_def new_block_def Let_def)
  then obtain b d where x: "?x = (Inr b, d)" by (cases ?x; cases "fst ?x") auto
  from blocking_is_exclusive [OF sample_db_ok db_reach.here quiet_world_ok(1) x] x show ?thesis by blast
qed

section \<open>Tokens\<close>

lemma insert_cred_reach: "cr_RevokedAt c = None \<Longrightarrow> db_reach d (snd (insert_cred w c d))"
  by (rule db_reach_one [OF db_stmt.cred])

lemma touch_reach: "db_reach d (snd (update_creds P (\<lambda>c. c\<lparr>cr_LastUsedAt := Some t\<rparr>) d))"
  using db_reach_one [OF db_stmt.touch, of d P t] by (simp add: touch_where_def)

lemma GetActorByID_then: "peers w \<Longrightarrow> GetActorByID w i k d = (r, d') \<Longrightarrow> db_reach d d'"
  using select_reach(1) [of w d i "actor_where (\<lambda>a. ac_ID a = k)"] by (auto simp: GetActorByID_def split_beta)

lemma GetActorByID_Inr: "GetActorByID w i k d = (Inr a, d') \<Longrightarrow> ac_ID a = k"
  by (auto simp: GetActorByID_def select_first_def stmt_def Let_def actor_where_def split: sum.splits option.splits if_splits dest: first_row_Inr)

lemma GetActorByID_known:
  assumes "quiet w" "peers w" "known_actor k d" shows "\<exists>a d'. GetActorByID w i k d = (Inr a, d') \<and> ac_ID a = k"
proof -
  have "known_actor k (dw_others w i d)" by (rule known.kept_reach [OF peersD [OF assms(2)] assms(3)])
  then obtain a where "actor_where (\<lambda>a. ac_ID a = k) (dw_others w i d) = Inr a"
    by (cases "actor_where (\<lambda>a. ac_ID a = k) (dw_others w i d)") (auto simp: actor_where_def first_row_Inl known_actor_def)
  with first_row_Inr [of ac_ID "\<lambda>a. ac_ID a = k"] show ?thesis
    by (auto simp: GetActorByID_def select_first_quiet [OF assms(1)] actor_where_def)
qed

lemma Issue_makes:
  assumes "peers w" "Issue sha w k l d = (Inr (raw, c), d')"
  shows "db_reach d d' \<and> token_of (sha raw) k d' \<and> known_actor k d'"
proof -
  obtain a d1 where a: "GetActorByID w 0 k d = (Inr a, d1)"
    using assms(2) by (cases "GetActorByID w 0 k d") (auto simp: Issue_def split: sum.splits)
  let ?c = "\<lparr>cr_ID = dw_uuid w 1, cr_ActorID = k, cr_Label = l, cr_TokenHash = sha (raw_token w),
                       cr_CreatedAt = dw_now w, cr_RevokedAt = None, cr_LastUsedAt = None\<rparr>"
  obtain m d2 where m: "stmt w 1 (insert_cred w ?c) d1 = (m, d2)" by fastforce
  have i: "m = Inr ()" "d' = d2" "raw = raw_token w" using assms(2) a m by (auto simp: Issue_def Let_def split: sum.splits)
  have r: "db_reach d d1" "db_reach d1 d2"
    by (rule GetActorByID_then [OF assms(1) a]) (rule stmt_then [OF assms(1) m insert_cred_reach], simp)
  have "known_actor k d1"
    using a by (auto simp: GetActorByID_def select_first_def stmt_def Let_def actor_where_def known_actor_def
        split: sum.splits option.splits if_splits dest!: first_row_Inr)
  then have "known_actor k d2" by (rule known.kept_reach [OF r(2)])
  moreover have "token_of (sha raw) k d2"
    using m i by (auto simp: stmt_def Let_def insert_cred_def token_of_def split: option.splits if_splits)
  ultimately show ?thesis using r db_reach_trans i by blast
qed

lemma by_hash: "db_ok d \<Longrightarrow> c1 \<in> set (db_creds d) \<Longrightarrow> c2 \<in> set (db_creds d) \<Longrightarrow> cr_TokenHash c1 = cr_TokenHash c2 \<Longrightarrow> c1 = c2"
  by (auto simp: db_ok_def distinct_map inj_on_def)

text \<open>C25: a token belongs to the agent it was issued to, and a revocation is final. Whatever statements
  are made after a token is issued, by anyone, presenting it gives that agent, or, from the moment
  it is revoked and for ever, \<open>ErrTokenRevoked\<close>.\<close>

theorem tokens_last_until_revoked:
  assumes "db_ok d0" "peers w" "Issue sha w k l d0 = (Inr (raw, c), d1)" "db_reach d1 d2"
    and "peers w2" "quiet w2" "Authenticate sha w2 raw d2 = (r, d3)"
  shows "(r = Inl ErrTokenRevoked \<or> (\<exists>a. r = Inr a \<and> ac_ID a = k \<and> \<not> token_revoked (sha raw) d2)) \<and>
    (token_revoked (sha raw) d2 \<longrightarrow> r = Inl ErrTokenRevoked)"
proof -
  note m = Issue_makes [OF assms(2,3)]
  let ?d = "dw_others w2 0 d2"
  have r2: "db_reach d2 ?d" by (rule peersD [OF assms(5)])
  have m1: "db_reach d0 d1" "token_of (sha raw) k d1" "known_actor k d1" using m by simp_all
  have ok: "db_ok ?d" by (rule db_ok_reach [OF r2 db_ok_reach [OF assms(4) db_ok_reach [OF m1(1) assms(1)]]])
  have tk: "token_of (sha raw) k ?d" "known_actor k ?d"
    by (rule token.kept_reach [OF r2 token.kept_reach [OF assms(4) m1(2)]])
      (rule known.kept_reach [OF r2 known.kept_reach [OF assms(4) m1(3)]])
  obtain cr where cr: "first_row cr_ID (\<lambda>c. cr_TokenHash c = sha raw) (db_creds ?d) = Inr cr"
  proof (cases "first_row cr_ID (\<lambda>c. cr_TokenHash c = sha raw) (db_creds ?d)")
    case (Inl e)
    then have "\<forall>c\<in>set (db_creds ?d). cr_TokenHash c \<noteq> sha raw" by (simp add: first_row_Inl)
    with tk(1) show ?thesis by (auto simp: token_of_def)
  qed
  then have c: "cr \<in> set (db_creds ?d)" "cr_TokenHash cr = sha raw" using first_row_Inr [OF cr] by simp_all
  have same: "c' = cr" if "c' \<in> set (db_creds ?d)" "cr_TokenHash c' = sha raw" for c'
    by (rule by_hash [OF ok that(1) c(1)]) (simp add: that(2) c(2))
  have k: "cr_ActorID cr = k" using tk(1) same unfolding token_of_def by blast
  have rv: "token_revoked (sha raw) ?d \<longleftrightarrow> cr_RevokedAt cr \<noteq> None"
    using same c unfolding token_revoked_def by blast
  show ?thesis
  proof (cases "cr_RevokedAt cr = None")
    case True
    let ?t = "stmt w2 1 (update_creds (\<lambda>c. cr_ID c = cr_ID cr) (\<lambda>c. c\<lparr>cr_LastUsedAt := Some (dw_now w2)\<rparr>)) ?d"
    obtain u d4 where u: "?t = (u, d4)" by fastforce
    have "known_actor k d4" by (rule known.kept_reach [OF stmt_then [OF assms(5) u touch_reach] tk(2)])
    then obtain a d' where "GetActorByID w2 2 k d4 = (Inr a, d')" "ac_ID a = k" using GetActorByID_known [OF assms(6,5)] by blast
    moreover have "GetActorByID w2 2 k d4 = (r, d3)"
      using assms(7) True u by (simp add: Authenticate_def select_first_quiet [OF assms(6)] cr k)
    ultimately have "\<exists>a. r = Inr a \<and> ac_ID a = k" by auto
    moreover have "\<not> token_revoked (sha raw) d2" using rv True revoked.kept_reach [OF r2] by blast
    ultimately show ?thesis by blast
  next
    case False
    then have "r = Inl ErrTokenRevoked" using assms(7) by (simp add: Authenticate_def select_first_quiet [OF assms(6)] cr del: not_None_eq)
    then show ?thesis by simp
  qed
qed

lemma tokens_last_until_revoked_witness:
  "\<exists>raw c d1 a d3. Issue (\<lambda>x. x) quiet_world ''a'' ''ci'' sample_db = (Inr (raw, c), d1) \<and>
     Authenticate (\<lambda>x. x) quiet_world raw d1 = (Inr a, d3) \<and> ac_ID a = ''a'' \<and>
     fst (Authenticate (\<lambda>x. x) quiet_world raw (snd (RevokeAllAgentCredentials quiet_world ''a'' d1))) = Inl ErrTokenRevoked"
proof -
  let ?i = "Issue (\<lambda>x. x) quiet_world ''a'' ''ci'' sample_db"
  have "is_ok (fst ?i)" by code_simp
  then obtain raw c d1 where i: "?i = (Inr (raw, c), d1)" by (cases ?i; cases "fst ?i") auto
  let ?d2 = "snd (RevokeAllAgentCredentials quiet_world ''a'' d1)"
  have rv: "?d2 = revoke_where (\<lambda>c. cr_ActorID c = ''a'') 7 d1"
    by (simp add: RevokeAllAgentCredentials_def stmt_def quiet_world_def Let_def split_beta revoke_where_def)
  have r: "db_reach d1 ?d2" unfolding rv by (rule db_reach_one [OF db_stmt.revoke])
  have not: "\<not> token_revoked raw d1"
  proof -
    have "list_all (\<lambda>c. cr_RevokedAt c = None) (db_creds (snd ?i))" by code_simp
    then show ?thesis by (auto simp: i token_revoked_def list_all_iff)
  qed
  have yes: "token_revoked raw ?d2"
  proof -
    obtain c' where c': "c' \<in> set (db_creds d1)" "cr_TokenHash c' = raw" "cr_ActorID c' = ''a''"
      using Issue_makes [OF quiet_world_ok(1) i] by (auto simp: token_of_def)
    moreover from this not have "cr_RevokedAt c' = None" by (auto simp: token_revoked_def)
    ultimately have "c'\<lparr>cr_RevokedAt := Some 7\<rparr> \<in> set (db_creds ?d2)" by (force simp: rv revoke_where_def)
    with c'(2) show ?thesis unfolding token_revoked_def by (intro bexI [of _ "c'\<lparr>cr_RevokedAt := Some 7\<rparr>"]) simp_all
  qed
  obtain x1 d3 where x1: "Authenticate (\<lambda>x. x) quiet_world raw d1 = (x1, d3)" by fastforce
  obtain x2 d4 where x2: "Authenticate (\<lambda>x. x) quiet_world raw ?d2 = (x2, d4)" by fastforce
  have "fst (Authenticate (\<lambda>x. x) quiet_world (fst (projr (fst ?i))) (snd ?i)) \<noteq> Inl ErrTokenRevoked" by code_simp
  then have "x1 \<noteq> Inl ErrTokenRevoked" by (simp add: i x1)
  with tokens_last_until_revoked [OF sample_db_ok quiet_world_ok(1) i db_reach.here quiet_world_ok x1]
  obtain a where "x1 = Inr a" "ac_ID a = ''a''" by blast
  moreover have "x2 = Inl ErrTokenRevoked"
    using tokens_last_until_revoked [OF sample_db_ok quiet_world_ok(1) i r quiet_world_ok x2] yes by simp
  then have "fst (Authenticate (\<lambda>x. x) quiet_world raw ?d2) = Inl ErrTokenRevoked" unfolding x2 by (simp only: fst_conv)
  ultimately show ?thesis using i x1 by blast
qed

section \<open>Logins\<close>

lemma human_tx_reach: "db_reach d (snd (human_tx w i s n r d))"
  by (rule db_reach_one [OF db_stmt.human])

lemma role_reach: "db_reach d (snd (update_identities P (\<lambda>u. u\<lparr>ui_Role := r\<rparr>) d))"
  by (rule db_reach_one [OF db_stmt.role])

lemma identity_linked: "identity_of s d = Inr u \<Longrightarrow> linked s (ui_ActorID u) d"
  by (auto simp: identity_of_def linked_def dest!: first_row_Inr)

lemma select_Inr: "select_first w i q d = (Inr r, d') \<Longrightarrow> q d' = Inr r"
  by (auto simp: select_first_def stmt_def Let_def split: option.splits)

lemma named_then:
  assumes "peers w" "named_actor w i k d = (Inr a, d')" shows "db_reach d d' \<and> ac_ID a = k"
proof -
  have x: "select_first w i (actor_where (\<lambda>a. ac_ID a = k)) d = (Inr a, d')" using assms(2) by (simp add: named_actor_def)
  from select_Inr [OF x] have "ac_ID a = k" by (auto simp: actor_where_def dest: first_row_Inr)
  with select_then [OF assms(1) x] show ?thesis by simp
qed

lemma human_tx_won: "human_tx w i s n r d = (Inr True, d') \<Longrightarrow> linked s i d'"
  by (auto simp: human_tx_def insert_identity_def insert_actor_def linked_def Let_def split: if_splits sum.splits)

lemma login_links:
  assumes p: "peers w" and g: "GetOrCreateHumanActor w s n role d = (Inr a, d')"
  shows "db_reach d d' \<and> linked s (ac_ID a) d'"
proof -
  obtain f d1 where f: "select_first w 0 (identity_of s) d = (f, d1)" by fastforce
  have r1: "db_reach d d1" by (rule select_then [OF p f])
  show ?thesis
  proof (cases f)
    case (Inr u)
    have l: "linked s (ui_ActorID u) d1" by (rule identity_linked [OF select_Inr [OF f [unfolded Inr]]])
    obtain d2 where d2: "db_reach d1 d2" "named_actor w 2 (ui_ActorID u) d2 = (Inr a, d')"
    proof (cases "ui_Role u = role")
      case True
      with g f Inr show ?thesis by (intro that [OF db_reach.here]) (simp add: GetOrCreateHumanActor_def)
    next
      case False
      obtain x d2 where x: "stmt w 1 (update_identities (\<lambda>v. ui_ActorID v = ui_ActorID u) (\<lambda>v. v\<lparr>ui_Role := role\<rparr>)) d1 = (x, d2)" by fastforce
      from stmt_then [OF p x role_reach] have "db_reach d1 d2" .
      with g f Inr False x show ?thesis by (intro that [of d2]) (auto simp: GetOrCreateHumanActor_def split: sum.splits)
    qed
    from named_then [OF p d2(2)] login.kept_reach [OF d2(1) l] show ?thesis
      using r1 d2(1) by (metis login.kept_reach db_reach_trans)
  next
    case (Inl e)
    let ?k = "dw_uuid w 0"
    obtain won d2 where t: "stmt w 1 (human_tx w ?k s n role) d1 = (won, d2)" by fastforce
    have r2: "db_reach d1 d2" by (rule stmt_then [OF p t human_tx_reach])
    have e: "errors_is e ErrRecordNotFound" using g f Inl by (auto simp: GetOrCreateHumanActor_def split: if_splits)
    then have g2: "(case won of Inl e2 \<Rightarrow> (Inl e2, d2) | Inr True \<Rightarrow> named_actor w 2 ?k d2
        | Inr False \<Rightarrow> (let (winner, d3) = select_first w 2 (identity_of s) d2
                  in case winner of Inl e3 \<Rightarrow> (Inl e3, d3) | Inr u \<Rightarrow> named_actor w 3 (ui_ActorID u) d3)) = (Inr a, d')"
      using g f Inl t by (simp add: GetOrCreateHumanActor_def)
    show ?thesis
    proof (cases won)
      case (Inr b)
      show ?thesis
      proof (cases b)
        case True
        with g2 Inr have na: "named_actor w 2 ?k d2 = (Inr a, d')" by simp
        have "linked s ?k d2" using t Inr True human_tx_won by (auto simp: stmt_def Let_def split: option.splits)
        with named_then [OF p na] show ?thesis using r1 r2 by (metis login.kept_reach db_reach_trans)
      next
        case False
        obtain x d3 where x: "select_first w 2 (identity_of s) d2 = (x, d3)" by fastforce
        with g2 Inr False obtain u where u: "x = Inr u" "named_actor w 3 (ui_ActorID u) d3 = (Inr a, d')" by (cases x) auto
        have "linked s (ui_ActorID u) d3" by (rule identity_linked [OF select_Inr [OF x [unfolded u(1)]]])
        with named_then [OF p u(2)] select_then [OF p x] show ?thesis using r1 r2 by (metis login.kept_reach db_reach_trans)
      qed
    qed (use g2 in simp)
  qed
qed

lemma linked_once:
  assumes "db_ok d" "linked s k d" "linked s' k' d" shows "s = s' \<longleftrightarrow> k = k'"
  using assms by (auto simp: db_ok_def linked_def distinct_map inj_on_def)

text \<open>C26: one login, one actor. However many requests of the same subject race to create its actor,
  and whatever is written in between, they all end with the same actor, and requests of different
  subjects with different ones.\<close>

theorem one_actor_per_login:
  assumes "db_ok d0" "peers w1" "GetOrCreateHumanActor w1 s1 n1 role1 d0 = (Inr a1, d1)" "db_reach d1 d2"
    and "peers w2" "GetOrCreateHumanActor w2 s2 n2 role2 d2 = (Inr a2, d3)"
  shows "ac_ID a1 = ac_ID a2 \<longleftrightarrow> s1 = s2"
proof -
  note l1 = login_links [OF assms(2,3)] and l2 = login_links [OF assms(5,6)]
  have ok: "db_ok d3" using l1 l2 assms(1,4) db_ok_reach by blast
  have "linked s1 (ac_ID a1) d3" using l1 l2 assms(4) login.kept_reach by blast
  with linked_once [OF ok] l2 show ?thesis by blast
qed

lemma one_actor_per_login_witness:
  "\<exists>a1 d1 a2 d2. GetOrCreateHumanActor quiet_world ''sub'' ''Eve'' ''viewer'' sample_db = (Inr a1, d1) \<and>
     GetOrCreateHumanActor quiet_world ''sub'' ''Eve B'' ''admin'' d1 = (Inr a2, d2) \<and> ac_ID a1 = ac_ID a2"
proof -
  let ?x = "GetOrCreateHumanActor quiet_world ''sub'' ''Eve'' ''viewer'' sample_db"
  let ?y = "GetOrCreateHumanActor quiet_world ''sub'' ''Eve B'' ''admin'' (snd ?x)"
  have "is_ok (fst ?x) \<and> is_ok (fst ?y)" by code_simp
  then obtain a1 a2 where x: "?x = (Inr a1, snd ?x)" "?y = (Inr a2, snd ?y)"
    by (cases "fst ?x"; cases "fst ?y") (auto simp: prod_eq_iff)
  from one_actor_per_login [OF sample_db_ok quiet_world_ok(1) x(1) db_reach.here quiet_world_ok(1) x(2)] x show ?thesis by metis
qed

section \<open>Cut texts\<close>

lemma rune_cut_le: "rune_cut s n \<le> n"
  by (induction n) auto

lemma rune_cut_start: "rune_cut s n = 0 \<or> \<not> is_cont (s ! rune_cut s n)"
  by (induction n) auto

lemma rune_cut_between: "rune_cut s n < j \<Longrightarrow> j \<le> n \<Longrightarrow> is_cont (s ! j)"
proof (induction n)
  case (Suc n)
  then show ?case by (cases "j = Suc n") (auto split: if_splits)
qed simp

text \<open>What the journal keeps of a target or an error is bounded whatever was passed: the text
  itself up to 2048 bytes, or its longest beginning that ends before a whole character there, and
  an ellipsis; so a text of whole characters stays one.\<close>

theorem journal_texts_are_cut_whole:
  assumes "whole_text cs"
  shows "length (truncateTarget (concat cs)) \<le> 2051 \<and>
    (truncateTarget (concat cs) = concat cs \<or>
     (\<exists>k. truncateTarget (concat cs) = concat (take k cs) @ ellipsis \<and> k < length cs \<and> 2048 < length (concat (take (Suc k) cs))))"
proof (cases "length (concat cs) \<le> 2048")
  case True
  then show ?thesis by (simp add: truncateTarget_def maxTargetBytes_def)
next
  case False
  let ?s = "concat cs" and ?c = "rune_cut (concat cs) 2048"
  have m: "maxTargetBytes = 2048" by (simp add: maxTargetBytes_def)
  have t: "truncateTarget ?s = take ?c ?s @ ellipsis" using False by (simp add: truncateTarget_def m)
  have c: "?c \<le> 2048" by (rule rune_cut_le)
  obtain k q where k: "k \<le> length cs" "take ?c ?s = concat (take k cs) @ q"
    "q = [] \<or> (k < length cs \<and> (\<exists>r'. r' \<noteq> [] \<and> cs ! k = q @ r'))"
    using append_concat_take_nth [OF append_take_drop_id [of ?c ?s]] by blast
  have len: "?c = length (concat (take k cs)) + length q" using arg_cong [OF k(2), of length] False c by simp
  have at: "?s ! (length (concat (take k cs)) + j) = cs ! k ! j" if "k < length cs" "j < length (cs ! k)" for j
  proof -
    have "?s = concat (take k cs) @ cs ! k @ concat (drop (Suc k) cs)"
      by (metis concat_append append_take_drop_id Cons_nth_drop_Suc that(1) concat.simps(2))
    then show ?thesis using that(2) by (simp add: nth_append)
  qed
  have q: "q = []"
  proof (rule ccontr)
    assume "q \<noteq> []"
    with k(3) obtain r' where r: "k < length cs" "r' \<noteq> []" "cs ! k = q @ r'" by blast
    have "whole_char (cs ! k)" using assms r(1) by (simp add: whole_text_def list_all_length)
    moreover have "q ! 0 # tl q @ r' = cs ! k" using r(3) \<open>q \<noteq> []\<close> by (cases q) simp_all
    ultimately have "list_all is_cont (tl q @ r')" using r(3) \<open>q \<noteq> []\<close> by (cases q) (auto simp: whole_char_def)
    then have "is_cont (hd r')" using r(2) by (cases r') auto
    moreover have "?s ! ?c = hd r'" using at [OF r(1), of "length q"] r by (simp add: len nth_append hd_conv_nth)
    moreover have "?c \<noteq> 0" using len \<open>q \<noteq> []\<close> by simp
    ultimately show False using rune_cut_start [of ?s 2048] by simp
  qed
  have kl: "k < length cs" using False c len q k(1) by (cases "k = length cs") auto
  have "2048 < length (concat (take (Suc k) cs))"
  proof (rule ccontr)
    assume a: "\<not> 2048 < length (concat (take (Suc k) cs))"
    have wk: "whole_char (cs ! k)" "cs ! k \<noteq> []" using assms kl by (auto simp: whole_text_def list_all_length whole_char_def)
    have l: "length (concat (take (Suc k) cs)) = ?c + length (cs ! k)" using kl len q by (simp add: take_Suc_conv_app_nth)
    then have j: "?c < ?c + length (cs ! k)" "?c + length (cs ! k) \<le> 2048" using a wk(2) by auto
    have "Suc k < length cs" using False a kl by (cases "Suc k = length cs") auto
    moreover from this assms have w2: "whole_char (cs ! Suc k)" "cs ! Suc k \<noteq> []"
      by (auto simp: whole_text_def list_all_length whole_char_def)
    moreover have "?s ! (?c + length (cs ! k)) = hd (cs ! Suc k)"
    proof -
      have "?s = concat (take (Suc k) cs) @ cs ! Suc k @ concat (drop (Suc (Suc k)) cs)"
        by (metis concat_append append_take_drop_id Cons_nth_drop_Suc \<open>Suc k < length cs\<close> concat.simps(2))
      then show ?thesis using w2(2) l by (simp add: nth_append hd_conv_nth)
    qed
    ultimately show False using rune_cut_between [OF j] by (cases "cs ! Suc k") (auto simp: whole_char_def)
  qed
  moreover have "length (concat (take k cs)) \<le> 2048" using len q c by simp
  ultimately show ?thesis using t k(2) q kl by (auto simp: ellipsis_def)
qed

lemma journal_texts_are_cut_whole_witness:
  "\<exists>k. truncateTarget (concat (replicate 3000 ''x'')) = concat (take k (replicate 3000 ''x'')) @ ellipsis \<and> k < 3000 \<and> 2048 \<le> k"
proof -
  let ?cs = "replicate 3000 ''x''"
  have "whole_char ''x''" by code_simp
  then have w: "whole_text ?cs" by (simp add: whole_text_def list_all_iff)
  have l: "length (concat (take n ?cs)) = min n 3000" for n by (simp add: length_concat sum_list_replicate)
  have "length (truncateTarget (concat ?cs)) \<noteq> length (concat ?cs)"
    using journal_texts_are_cut_whole [OF w] l [of 3000] by simp
  then have "truncateTarget (concat ?cs) \<noteq> concat ?cs" by metis
  with journal_texts_are_cut_whole [OF w] obtain k where
    "truncateTarget (concat ?cs) = concat (take k ?cs) @ ellipsis" "k < 3000" "2048 < length (concat (take (Suc k) ?cs))" by auto
  with l [of "Suc k"] show ?thesis by (intro exI [of _ k]) simp
qed

end
