(* ===== verification/Tools.thy ===== *)
theory Tools imports Storage_Props Worker_Hub_Ops begin

text \<open>
  Package \<open>internal/tools/sandbox\<close>: the six tools an agent calls, over any executor
  (\<open>mcpserver.Executor\<close>, a record of operations on its state), with the gate every call passes and
  the journal around it. The authenticated actor and the database are arguments, each of which may
  be missing, as in the code. A call the executor never answers is \<open>None\<close>. How \<open>strconv.Quote\<close> and
  \<open>Time.Format\<close> print is in the record \<open>tool_text\<close>.
\<close>

section \<open>\<open>mcpserver.Executor\<close>\<close>

type_synonym ('h, 'a) exec_op = "'h \<Rightarrow> ('a \<times> gerr option) option \<times> 'h"

record 'h Executor =
  xe_Exec :: "string \<Rightarrow> ExecRequest \<Rightarrow> ('h, ExecResponse) exec_op"
  xe_ReadFile :: "string \<Rightarrow> string \<Rightarrow> ('h, string) exec_op"
  xe_WriteFile :: "string \<Rightarrow> string \<Rightarrow> string \<Rightarrow> ('h, int) exec_op"
  xe_ListDir :: "string \<Rightarrow> string \<Rightarrow> ('h, FileInfo list option) exec_op"
  xe_DeleteFile :: "string \<Rightarrow> string \<Rightarrow> ('h, DeleteFileResponse) exec_op"
  xe_Status :: "string \<Rightarrow> ('h, StatusResponse) exec_op"
  xe_Kill :: "string \<Rightarrow> string \<Rightarrow> string \<Rightarrow> ('h, int) exec_op"
  xe_WorkerFor :: "(string \<Rightarrow> 'h \<Rightarrow> string option) option"

text \<open>The hub as an executor, as \<open>cmd/executor\<close> passes it.\<close>

definition hub_executor :: "(Hub \<Rightarrow> Hub) \<Rightarrow> (nat \<Rightarrow> Hub \<Rightarrow> Hub) \<Rightarrow> (nat \<Rightarrow> gerr option) \<Rightarrow> gerr option \<Rightarrow> Hub Executor" where
  "hub_executor first others werr ctx =
     \<lparr>xe_Exec = hub_Exec others werr ctx, xe_ReadFile = hub_ReadFile others werr ctx,
      xe_WriteFile = hub_WriteFile first others werr ctx, xe_ListDir = hub_ListDir others werr ctx,
      xe_DeleteFile = hub_DeleteFile others werr ctx, xe_Status = hub_Status others werr ctx,
      xe_Kill = hub_Kill others werr ctx, xe_WorkerFor = Some (\<lambda>a h. WorkerFor h a)\<rparr>"

section \<open>\<open>block.go\<close>\<close>

definition ErrSandboxBlocked :: gerr where "ErrSandboxBlocked = Sentinel ''sandbox is administratively blocked''"
definition ErrNoActor :: gerr where "ErrNoActor = Sentinel ''no authenticated actor in context''"

record tool_text =
  tt_quote :: "string \<Rightarrow> string"
  tt_time :: "int \<Rightarrow> string"

definition blockedError :: "tool_text \<Rightarrow> SandboxBlock \<Rightarrow> gerr" where
  "blockedError t b = Wrap [] ErrSandboxBlocked ('' by '' @ bk_ByName b @ '' at '' @ tt_time t (bk_At b) @ '': '' @ bk_Reason b @
     '' '' @ [CHR 0xE2, CHR 0x80, CHR 0x94] @ '' this is a human decision, not a transient error; do not retry, contact an operator to resume'')"

definition agentForCall :: "tool_text \<Rightarrow> db_world \<Rightarrow> Actor option \<Rightarrow> DB option \<Rightarrow> string res \<times> DB option" where
  "agentForCall t w actor db =
     (case actor of
        None \<Rightarrow> (Inl ErrNoActor, db)
      | Some a \<Rightarrow>
          (case db of
             None \<Rightarrow> (Inr (ac_ID a), None)
           | Some d \<Rightarrow>
               (let (block, d1) = ActiveSandboxBlock w 0 (ac_ID a) d
                in (case block of
                      Inl e \<Rightarrow> Inl (Wrap ''cannot verify sandbox block state: '' e [])
                    | Inr (Some b) \<Rightarrow> Inl (blockedError t b)
                    | Inr None \<Rightarrow> Inr (ac_ID a), Some d1))))"

section \<open>Handlers\<close>

record CallToolResult =
  ct_IsError :: bool
  ct_Text :: string

type_synonym ('h, 'o) tool_ret = "(CallToolResult option \<times> 'o \<times> gerr option) option \<times> 'h \<times> DB option"

datatype tool_input =
    ExecCommandInput string "string list option" int string
  | ReadFileInput string
  | WriteFileInput string string
  | ListDirInput string
  | DeleteFileInput string
  | SandboxStatusInput

record ExecCommandOutput =
  eo_Stdout :: string
  eo_Stderr :: string
  eo_ExitCode :: int
  eo_DurationMs :: int
  eo_Truncated :: bool
  eo_outcome :: string

datatype tool_output =
    OExec ExecCommandOutput
  | ORead string string
  | OWrite string int
  | OList string "FileInfo list"
  | ODelete string bool bool
  | OStatus "StatusResponse option"

definition zeroExecOutput :: ExecCommandOutput where
  "zeroExecOutput = \<lparr>eo_Stdout = [], eo_Stderr = [], eo_ExitCode = 0, eo_DurationMs = 0, eo_Truncated = False, eo_outcome = []\<rparr>"

text \<open>The gate, then the work.\<close>

definition gated :: "tool_text \<Rightarrow> db_world \<Rightarrow> Actor option \<Rightarrow> 'o \<Rightarrow>
    (string \<Rightarrow> 'h \<Rightarrow> (CallToolResult option \<times> 'o \<times> gerr option) option \<times> 'h) \<Rightarrow> 'h \<Rightarrow> DB option \<Rightarrow> ('h, 'o) tool_ret" where
  "gated t w actor zero work h db =
     (let (g, db1) = agentForCall t w actor db in
      case g of Inl e \<Rightarrow> (Some (None, zero, Some e), h, db1) | Inr a \<Rightarrow> (let (r, h1) = work a h in (r, h1, db1)))"

definition cutShortResult :: "gerr \<Rightarrow> string \<Rightarrow> string \<Rightarrow> CallToolResult" where
  "cutShortResult reason out errs =
     \<lparr>ct_IsError = True, ct_Text = err_text reason @
        (if out \<noteq> [] \<or> errs \<noteq> []
         then [CHR 0x0A, CHR 0x0A] @ ''partial output before the command was cut:'' @ [CHR 0x0A] @ ''--- stdout ---'' @ [CHR 0x0A] @ out @
              [CHR 0x0A] @ ''--- stderr ---'' @ [CHR 0x0A] @ errs
         else [])\<rparr>"

definition exec_output :: "ExecResponse \<Rightarrow> ExecCommandOutput" where
  "exec_output r = \<lparr>eo_Stdout = ex_Stdout r, eo_Stderr = ex_Stderr r, eo_ExitCode = ex_ExitCode r, eo_DurationMs = ex_DurationMs r,
     eo_Truncated = ex_Truncated r, eo_outcome = []\<rparr>"

definition exec_answer :: "ExecResponse \<times> gerr option \<Rightarrow> CallToolResult option \<times> tool_output \<times> gerr option" where
  "exec_answer x =
     (case x of (r, err) \<Rightarrow>
        (let out = exec_output r in
         case err of
           None \<Rightarrow> (None, OExec out, None)
         | Some e \<Rightarrow>
             if errors_is e ErrCommandTimeout
             then (Some (cutShortResult e (eo_Stdout out) (eo_Stderr out)), OExec (out\<lparr>eo_outcome := AuditOutcomeTimeout\<rparr>), None)
             else if errors_is e ErrCommandStopped
             then (Some (cutShortResult e (eo_Stdout out) (eo_Stderr out)), OExec (out\<lparr>eo_outcome := AuditOutcomeStopped\<rparr>), None)
             else (None, OExec out, Some e)))"

definition execCommandHandler :: "'h Executor \<Rightarrow> tool_text \<Rightarrow> db_world \<Rightarrow> Actor option \<Rightarrow> string \<Rightarrow> string list option \<Rightarrow> int \<Rightarrow> string \<Rightarrow>
    'h \<Rightarrow> DB option \<Rightarrow> ('h, tool_output) tool_ret" where
  "execCommandHandler x t w actor command args timeout workDir h db =
     gated t w actor (OExec zeroExecOutput)
       (\<lambda>a h. let (r, h1) = xe_Exec x a \<lparr>er_Command = command, er_Args = args, er_TimeoutSec = timeout, er_WorkDir = workDir\<rparr> h
              in (map_option exec_answer r, h1)) h db"

text \<open>The shape the file tools share: an error of the executor is wrapped, with an empty output.\<close>

definition file_answer :: "string \<Rightarrow> 'o \<Rightarrow> ('a \<Rightarrow> 'o) \<Rightarrow> 'a \<times> gerr option \<Rightarrow> CallToolResult option \<times> 'o \<times> gerr option" where
  "file_answer pre zero f x = (case x of (a, None) \<Rightarrow> (None, f a, None) | (a, Some e) \<Rightarrow> (None, zero, Some (Wrap pre e [])))"

definition empty_path :: "'o \<Rightarrow> 'h \<Rightarrow> DB option \<Rightarrow> ('h, 'o) tool_ret" where
  "empty_path zero h db = (Some (None, zero, Some (Plain ''path cannot be empty'')), h, db)"

definition readFileHandler :: "'h Executor \<Rightarrow> tool_text \<Rightarrow> db_world \<Rightarrow> Actor option \<Rightarrow> string \<Rightarrow> 'h \<Rightarrow> DB option \<Rightarrow> ('h, tool_output) tool_ret" where
  "readFileHandler x t w actor path h db =
     (if path = [] then empty_path (ORead [] []) h db
      else gated t w actor (ORead [] [])
        (\<lambda>a h. let (r, h1) = xe_ReadFile x a path h in (map_option (file_answer ''read file: '' (ORead [] []) (\<lambda>c. ORead path c)) r, h1)) h db)"

definition writeFileHandler :: "'h Executor \<Rightarrow> tool_text \<Rightarrow> db_world \<Rightarrow> Actor option \<Rightarrow> string \<Rightarrow> string \<Rightarrow> 'h \<Rightarrow> DB option \<Rightarrow> ('h, tool_output) tool_ret" where
  "writeFileHandler x t w actor path content h db =
     (if path = [] then empty_path (OWrite [] 0) h db
      else gated t w actor (OWrite [] 0)
        (\<lambda>a h. let (r, h1) = xe_WriteFile x a path content h in (map_option (file_answer ''write file: '' (OWrite [] 0) (\<lambda>n. OWrite path n)) r, h1)) h db)"

definition listDirHandler :: "'h Executor \<Rightarrow> tool_text \<Rightarrow> db_world \<Rightarrow> Actor option \<Rightarrow> string \<Rightarrow> 'h \<Rightarrow> DB option \<Rightarrow> ('h, tool_output) tool_ret" where
  "listDirHandler x t w actor path0 h db =
     (let path = (if path0 = [] then ''.'' else path0)
      in gated t w actor (OList [] [])
        (\<lambda>a h. let (r, h1) = xe_ListDir x a path h
               in (map_option (file_answer ''list directory: '' (OList [] []) (\<lambda>fs. OList path (case fs of None \<Rightarrow> [] | Some l \<Rightarrow> l))) r, h1)) h db)"

definition deleteFileHandler :: "'h Executor \<Rightarrow> tool_text \<Rightarrow> db_world \<Rightarrow> Actor option \<Rightarrow> string \<Rightarrow> 'h \<Rightarrow> DB option \<Rightarrow> ('h, tool_output) tool_ret" where
  "deleteFileHandler x t w actor path h db =
     (if path = [] then empty_path (ODelete [] False False) h db
      else gated t w actor (ODelete [] False False)
        (\<lambda>a h. let (r, h1) = xe_DeleteFile x a path h
               in (map_option (file_answer ''delete: '' (ODelete [] False False) (\<lambda>q. ODelete path (dfs_Existed q) (dfs_WasDirectory q))) r, h1)) h db)"

definition sandboxStatusHandler :: "'h Executor \<Rightarrow> tool_text \<Rightarrow> db_world \<Rightarrow> Actor option \<Rightarrow> 'h \<Rightarrow> DB option \<Rightarrow> ('h, tool_output) tool_ret" where
  "sandboxStatusHandler x t w actor h db =
     gated t w actor (OStatus None)
       (\<lambda>a h. let (r, h1) = xe_Status x a h
              in (map_option (\<lambda>y. case y of (s, None) \<Rightarrow> (None, OStatus (Some s), None) | (s, Some e) \<Rightarrow> (None, OStatus None, Some e)) r, h1)) h db"

text \<open>The interfaces an output may implement for the journal.\<close>

fun auditBytes :: "tool_output \<Rightarrow> int option" where
  "auditBytes (OExec out) = Some (int (length (eo_Stdout out) + length (eo_Stderr out)))"
| "auditBytes (ORead p c) = Some (int (length c))"
| "auditBytes (OWrite p n) = Some n"
| "auditBytes _ = None"

fun auditOutcome :: "tool_output \<Rightarrow> string option" where
  "auditOutcome (OExec out) = Some (eo_outcome out)"
| "auditOutcome _ = None"

fun auditExitCode :: "tool_output \<Rightarrow> int option" where
  "auditExitCode (OExec out) = Some (eo_ExitCode out)"
| "auditExitCode _ = None"

section \<open>\<open>audit.go\<close>\<close>

record tool_world =
  tw_text :: tool_text
  tw_start :: db_world
  tw_gate :: db_world
  tw_end :: db_world
  tw_ms :: int

definition worker_name :: "'h Executor \<Rightarrow> string \<Rightarrow> 'h \<Rightarrow> string" where
  "worker_name x a h = (case xe_WorkerFor x of None \<Rightarrow> [] | Some f \<Rightarrow> (case f a h of None \<Rightarrow> [] | Some w \<Rightarrow> w))"

definition call_outcome :: "tool_output \<Rightarrow> gerr option \<Rightarrow> string" where
  "call_outcome out err =
     (case err of
        Some e \<Rightarrow> if errors_is e ErrSandboxBlocked then AuditOutcomeBlocked else AuditOutcomeError
      | None \<Rightarrow> (case auditOutcome out of Some oc \<Rightarrow> if oc \<noteq> [] then oc else AuditOutcomeOK | None \<Rightarrow> AuditOutcomeOK))"

definition started_record :: "'h Executor \<Rightarrow> string \<Rightarrow> string \<Rightarrow> Actor \<Rightarrow> 'h \<Rightarrow> AuditRecord" where
  "started_record x action target a h =
     zeroAuditRecord\<lparr>ar_Actor := Some a, ar_Action := action, ar_Target := target, ar_WorkerID := worker_name x (ac_ID a) h\<rparr>"

definition finished_record :: "'h Executor \<Rightarrow> AuditRecord \<Rightarrow> int \<Rightarrow> tool_output \<Rightarrow> gerr option \<Rightarrow> Actor \<Rightarrow> 'h \<Rightarrow> AuditRecord" where
  "finished_record x rec ms out err a h =
     rec\<lparr>ar_DurationMs := ms, ar_Outcome := call_outcome out err, ar_ExitCode := auditExitCode out,
         ar_Error := (case err of None \<Rightarrow> [] | Some e \<Rightarrow> err_text e),
         ar_WorkerID := (if ar_WorkerID rec = [] then worker_name x (ac_ID a) h else ar_WorkerID rec),
         ar_Bytes := (case auditBytes out of None \<Rightarrow> 0 | Some n \<Rightarrow> n)\<rparr>"

definition audited :: "'h Executor \<Rightarrow> tool_world \<Rightarrow> Actor option \<Rightarrow> string \<Rightarrow> string \<Rightarrow>
    ('h \<Rightarrow> DB option \<Rightarrow> ('h, tool_output) tool_ret) \<Rightarrow> 'h \<Rightarrow> DB option \<Rightarrow> ('h, tool_output) tool_ret" where
  "audited x w actor action target handler h db =
     (case (actor, db) of
        (Some a, Some d) \<Rightarrow>
          (let rec0 = started_record x action target a h;
               ((callID, jerr), d1) = AppendAuditStarted (tw_start w) rec0 d;
               rec1 = rec0\<lparr>ar_CallID := callID\<rparr>;
               (ret, h1, db1) = handler h (Some d1)
           in case ret of
                None \<Rightarrow> (None, h1, db1)
              | Some (result, out, err) \<Rightarrow>
                  (let rec2 = finished_record x rec1 (tw_ms w) out err a h1
                   in (ret, h1, map_option (\<lambda>d2. snd (AppendAuditFinished (tw_end w) rec2 d2)) db1)))
      | _ \<Rightarrow> handler h db)"

section \<open>\<open>registrar.go\<close>\<close>

definition quoted_list :: "tool_text \<Rightarrow> string list \<Rightarrow> string" where
  "quoted_list t xs = CHR ''['' # join_with '' '' (map (tt_quote t) xs) @ '']''"

text \<open>A call of a registered tool.\<close>

fun call_tool :: "'h Executor \<Rightarrow> tool_world \<Rightarrow> Actor option \<Rightarrow> tool_input \<Rightarrow> 'h \<Rightarrow> DB option \<Rightarrow> ('h, tool_output) tool_ret" where
  "call_tool x w actor (ExecCommandInput c args timeout dir) h db =
     audited x w actor ''exec_command'' (quoted_list (tw_text w) (c # (case args of None \<Rightarrow> [] | Some as \<Rightarrow> as)))
       (execCommandHandler x (tw_text w) (tw_gate w) actor c args timeout dir) h db"
| "call_tool x w actor (ReadFileInput p) h db = audited x w actor ''read_file'' p (readFileHandler x (tw_text w) (tw_gate w) actor p) h db"
| "call_tool x w actor (WriteFileInput p c) h db =
     audited x w actor ''write_file'' p (writeFileHandler x (tw_text w) (tw_gate w) actor p c) h db"
| "call_tool x w actor (ListDirInput p) h db = audited x w actor ''list_dir'' p (listDirHandler x (tw_text w) (tw_gate w) actor p) h db"
| "call_tool x w actor (DeleteFileInput p) h db =
     audited x w actor ''delete_file'' p (deleteFileHandler x (tw_text w) (tw_gate w) actor p) h db"
| "call_tool x w actor SandboxStatusInput h db =
     audited x w actor ''get_sandbox_status'' [] (sandboxStatusHandler x (tw_text w) (tw_gate w) actor) h db"

end
