(* ===== verification/Tools_Props.thy ===== *)
theory Tools_Props imports Tools begin

text \<open>
  What the tools promise: a block is the end of an agent's calls until it is released, every call is
  in the journal with an outcome that agrees with what the agent was told, and a call on behalf of
  one agent leaves the others where they are.
\<close>

section \<open>The shape of a tool call\<close>

text \<open>An answer tells the agent of a failure by an error or by a result that is marked as one.\<close>

definition told_ok :: "CallToolResult option \<times> tool_output \<times> gerr option \<Rightarrow> bool" where
  "told_ok r = (case r of (result, out, err) \<Rightarrow> err = None \<and> (case result of None \<Rightarrow> True | Some t \<Rightarrow> \<not> ct_IsError t))"

definition outcome_agrees :: "CallToolResult option \<times> tool_output \<times> gerr option \<Rightarrow> bool" where
  "outcome_agrees r = (case r of (result, out, err) \<Rightarrow> call_outcome out err = AuditOutcomeOK \<longleftrightarrow> told_ok r)"

lemma call_outcome_err: "call_outcome out (Some e) \<noteq> AuditOutcomeOK"
  by (simp add: call_outcome_def outcome_defs)

lemma outcome_agrees_err: "outcome_agrees (None, out, Some e)"
  by (simp add: outcome_agrees_def told_ok_def call_outcome_err)

lemma outcome_agrees_plain: "auditOutcome out = None \<Longrightarrow> outcome_agrees (None, out, err)"
  by (cases err) (simp_all add: outcome_agrees_def told_ok_def call_outcome_err, simp add: call_outcome_def)

lemma outcome_agrees_exec: "outcome_agrees (exec_answer x)"
proof (cases x)
  case (Pair r err)
  then show ?thesis
    by (cases err) (auto simp: exec_answer_def Let_def outcome_agrees_def told_ok_def call_outcome_def exec_output_def cutShortResult_def outcome_defs)
qed

lemma outcome_agrees_file: "(\<And>a. auditOutcome (f a) = None) \<Longrightarrow> outcome_agrees (file_answer pre zero f x)"
  by (cases x; cases "snd x") (auto simp: file_answer_def intro: outcome_agrees_err outcome_agrees_plain)

text \<open>Every tool is a journalled handler, and every handler the same two checks before its work: a path
  where one is needed, then the gate. The work does not depend on the database or the caller's record.\<close>

fun path_given :: "tool_input \<Rightarrow> bool" where
  "path_given (ReadFileInput p) = (p \<noteq> [])"
| "path_given (WriteFileInput p c) = (p \<noteq> [])"
| "path_given (DeleteFileInput p) = (p \<noteq> [])"
| "path_given _ = True"

fun tool_name :: "tool_input \<Rightarrow> string" where
  "tool_name (ExecCommandInput c as t d) = ''exec_command''"
| "tool_name (ReadFileInput p) = ''read_file''"
| "tool_name (WriteFileInput p c) = ''write_file''"
| "tool_name (ListDirInput p) = ''list_dir''"
| "tool_name (DeleteFileInput p) = ''delete_file''"
| "tool_name SandboxStatusInput = ''get_sandbox_status''"

fun tool_target :: "tool_text \<Rightarrow> tool_input \<Rightarrow> string" where
  "tool_target t (ExecCommandInput c as n d) = quoted_list t (c # (case as of None \<Rightarrow> [] | Some xs \<Rightarrow> xs))"
| "tool_target t (ReadFileInput p) = p"
| "tool_target t (WriteFileInput p c) = p"
| "tool_target t (ListDirInput p) = p"
| "tool_target t (DeleteFileInput p) = p"
| "tool_target t SandboxStatusInput = []"

fun tool_zero :: "tool_input \<Rightarrow> tool_output" where
  "tool_zero (ExecCommandInput c as t d) = OExec zeroExecOutput"
| "tool_zero (ReadFileInput p) = ORead [] []"
| "tool_zero (WriteFileInput p c) = OWrite [] 0"
| "tool_zero (ListDirInput p) = OList [] []"
| "tool_zero (DeleteFileInput p) = ODelete [] False False"
| "tool_zero SandboxStatusInput = OStatus None"

definition answering_with :: "('a \<times> gerr option \<Rightarrow> 'b) \<Rightarrow> ('h, 'a) exec_op \<Rightarrow> 'h \<Rightarrow> 'b option \<times> 'h" where
  "answering_with f op h = (let (r, h1) = op h in (map_option f r, h1))"

definition status_answer :: "StatusResponse \<times> gerr option \<Rightarrow> CallToolResult option \<times> tool_output \<times> gerr option" where
  "status_answer y = (case y of (s, None) \<Rightarrow> (None, OStatus (Some s), None) | (s, Some e) \<Rightarrow> (None, OStatus None, Some e))"

fun tool_work :: "'h Executor \<Rightarrow> tool_input \<Rightarrow> string \<Rightarrow> 'h \<Rightarrow> (CallToolResult option \<times> tool_output \<times> gerr option) option \<times> 'h" where
  "tool_work x (ExecCommandInput c as t d) =
     (\<lambda>a. answering_with exec_answer (xe_Exec x a \<lparr>er_Command = c, er_Args = as, er_TimeoutSec = t, er_WorkDir = d\<rparr>))"
| "tool_work x (ReadFileInput p) = (\<lambda>a. answering_with (file_answer ''read file: '' (ORead [] []) (\<lambda>c. ORead p c)) (xe_ReadFile x a p))"
| "tool_work x (WriteFileInput p c) = (\<lambda>a. answering_with (file_answer ''write file: '' (OWrite [] 0) (\<lambda>n. OWrite p n)) (xe_WriteFile x a p c))"
| "tool_work x (ListDirInput p0) =
     (\<lambda>a. let p = (if p0 = [] then ''.'' else p0)
      in answering_with (file_answer ''list directory: '' (OList [] []) (\<lambda>fs. OList p (case fs of None \<Rightarrow> [] | Some l \<Rightarrow> l))) (xe_ListDir x a p))"
| "tool_work x (DeleteFileInput p) =
     (\<lambda>a. answering_with (file_answer ''delete: '' (ODelete [] False False) (\<lambda>q. ODelete p (dfs_Existed q) (dfs_WasDirectory q))) (xe_DeleteFile x a p))"
| "tool_work x SandboxStatusInput = (\<lambda>a. answering_with status_answer (xe_Status x a))"

definition checked :: "'h Executor \<Rightarrow> tool_text \<Rightarrow> db_world \<Rightarrow> Actor option \<Rightarrow> tool_input \<Rightarrow> 'h \<Rightarrow> DB option \<Rightarrow> ('h, tool_output) tool_ret" where
  "checked x t w actor inp h db =
     (if path_given inp then gated t w actor (tool_zero inp) (tool_work x inp) h db else empty_path (tool_zero inp) h db)"

lemmas handler_defs = execCommandHandler_def readFileHandler_def writeFileHandler_def listDirHandler_def deleteFileHandler_def
  sandboxStatusHandler_def

lemma handlers_checked:
  "execCommandHandler x t w actor c args timeout dir = checked x t w actor (ExecCommandInput c args timeout dir)"
  "readFileHandler x t w actor p = checked x t w actor (ReadFileInput p)"
  "writeFileHandler x t w actor p c = checked x t w actor (WriteFileInput p c)"
  "listDirHandler x t w actor p = checked x t w actor (ListDirInput p)"
  "deleteFileHandler x t w actor p = checked x t w actor (DeleteFileInput p)"
  "sandboxStatusHandler x t w actor = checked x t w actor SandboxStatusInput"
  by (simp_all add: fun_eq_iff checked_def handler_defs answering_with_def [abs_def] status_answer_def [abs_def] Let_def)

lemma call_tool_shape:
  "call_tool x w actor inp h db =
     audited x w actor (tool_name inp) (tool_target (tw_text w) inp) (checked x (tw_text w) (tw_gate w) actor inp) h db"
  by (cases inp) (simp_all add: handlers_checked)

lemma tool_work_agrees: "tool_work x inp k g = (Some y, g') \<Longrightarrow> outcome_agrees y"
proof -
  have a: "outcome_agrees y" if "answering_with f op g = (Some y, g')" "\<And>u. outcome_agrees (f u)" for f and op :: "('a, 'c) exec_op"
    using that by (auto simp: answering_with_def Let_def split: prod.splits)
  have s: "outcome_agrees (status_answer y)" for y
    by (cases y; cases "snd y") (auto simp: status_answer_def intro: outcome_agrees_err outcome_agrees_plain)
  assume w: "tool_work x inp k g = (Some y, g')"
  show ?thesis
  proof (cases inp)
    case (ExecCommandInput c args t dir)
    from w [unfolded ExecCommandInput tool_work.simps] show ?thesis by (rule a) (rule outcome_agrees_exec)
  next
    case (ReadFileInput p)
    from w [unfolded ReadFileInput tool_work.simps] show ?thesis by (rule a) (rule outcome_agrees_file, simp)
  next
    case (WriteFileInput p c)
    from w [unfolded WriteFileInput tool_work.simps] show ?thesis by (rule a) (rule outcome_agrees_file, simp)
  next
    case (ListDirInput p)
    from w [unfolded ListDirInput tool_work.simps Let_def] show ?thesis by (rule a) (rule outcome_agrees_file, simp)
  next
    case (DeleteFileInput p)
    from w [unfolded DeleteFileInput tool_work.simps] show ?thesis by (rule a) (rule outcome_agrees_file, simp)
  next
    case SandboxStatusInput
    from w [unfolded SandboxStatusInput tool_work.simps] show ?thesis by (rule a) (rule s)
  qed
qed

section \<open>The gate\<close>

definition blocked :: "string \<Rightarrow> DB \<Rightarrow> bool" where
  "blocked k d \<longleftrightarrow> filter (active_for k) (db_blocks d) \<noteq> []"

definition leaves_blocks :: "db_world \<Rightarrow> bool" where
  "leaves_blocks w \<longleftrightarrow> (\<forall>i d. db_reach d (dw_others w i d) \<and> db_blocks (dw_others w i d) = db_blocks d)"

lemma leaves_blocksD: "leaves_blocks w \<Longrightarrow> db_reach d (dw_others w i d)" "leaves_blocks w \<Longrightarrow> db_blocks (dw_others w i d) = db_blocks d"
  by (simp_all add: leaves_blocks_def)

definition real_faults :: "db_world \<Rightarrow> bool" where
  "real_faults w \<longleftrightarrow> (\<forall>i e. dw_fault w i = Some e \<longrightarrow> \<not> errors_is e ErrRecordNotFound)"

lemma gate_blocked:
  assumes "db_ok d" "leaves_blocks w" "real_faults w" "blocked (ac_ID a) d"
  shows "\<exists>e db1. agentForCall t w (Some a) (Some d) = (Inl e, db1) \<and> (dw_fault w 0 = None \<longrightarrow> errors_is e ErrSandboxBlocked)"
proof -
  let ?d = "dw_others w 0 d"
  have ok: "db_ok ?d" by (rule db_ok_reach [OF leaves_blocksD(1) [OF assms(2)] assms(1)])
  show ?thesis
  proof (cases "dw_fault w 0")
    case (Some e)
    then show ?thesis using assms(3) by (auto simp: real_faults_def agentForCall_def ActiveSandboxBlock_def select_first_def stmt_def Let_def)
  next
    case None
    have "\<exists>b\<in>set (db_blocks ?d). bk_ActiveKey b = Some (ac_ID a)"
      using assms(4) active_row [OF ok, of _ "ac_ID a"] leaves_blocksD(2) [OF assms(2)] by (auto simp: blocked_def filter_empty_conv)
    then obtain b where "first_row bk_ID (\<lambda>b. bk_ActiveKey b = Some (ac_ID a)) (db_blocks ?d) = Inr b"
      by (cases "first_row bk_ID (\<lambda>b. bk_ActiveKey b = Some (ac_ID a)) (db_blocks ?d)") (auto simp: first_row_Inl)
    with None show ?thesis
      by (auto simp: agentForCall_def ActiveSandboxBlock_def select_first_def stmt_def Let_def blockedError_def ErrSandboxBlocked_def)
  qed
qed

lemma audit_keeps:
  assumes "leaves_blocks w"
  shows "db_reach d (snd (AppendAuditStarted w rec d))" "db_blocks (snd (AppendAuditStarted w rec d)) = db_blocks d"
proof -
  have i: "db_reach d (snd (insert_audit w e d))" "db_blocks (snd (insert_audit w e d)) = db_blocks d" for e d
    by (rule db_reach_one [OF db_stmt.audit]) (simp add: insert_audit_def)
  have "db_reach d (snd (stmt w 0 (insert_audit w e) d)) \<and> db_blocks (snd (stmt w 0 (insert_audit w e) d)) = db_blocks d" for e
    using leaves_blocksD [OF assms, where d = d and i = 0] i by (auto simp: stmt_def Let_def split: option.split intro: db_reach_trans)
  then show "db_reach d (snd (AppendAuditStarted w rec d))" "db_blocks (snd (AppendAuditStarted w rec d)) = db_blocks d"
    by (simp_all add: AppendAuditStarted_def appendAudit_def Let_def split_beta)
qed

lemma audited_refused:
  assumes "\<And>d1. db_reach d d1 \<Longrightarrow> db_blocks d1 = db_blocks d \<Longrightarrow>
      \<exists>out e db1. handler h (Some d1) = (Some (None, out, Some e), h, db1) \<and> Q e"
    and "leaves_blocks (tw_start w)" "audited x w (Some a) action target handler h (Some d) = (ret, h', db')"
  shows "h' = h \<and> (\<exists>out e. ret = Some (None, out, Some e) \<and> Q e)"
proof -
  let ?s = "AppendAuditStarted (tw_start w) (started_record x action target a h) d"
  obtain callID jerr d1 where s: "?s = ((callID, jerr), d1)" by (metis prod.collapse)
  have "db_reach d d1" "db_blocks d1 = db_blocks d" using audit_keeps [OF assms(2), where d = d and rec = "started_record x action target a h"] s by simp_all
  from assms(1) [OF this] obtain out e db1 where "handler h (Some d1) = (Some (None, out, Some e), h, db1)" "Q e" by blast
  then show ?thesis using assms(3) s by (auto simp: audited_def Let_def)
qed

lemma audited_answer:
  assumes "\<And>d1. d1 = snd (AppendAuditStarted (tw_start w) (started_record x action target a h) d) \<Longrightarrow>
      \<exists>db1. handler h (Some d1) = (ret, h1, Some db1)"
  shows "\<exists>db'. audited x w (Some a) action target handler h (Some d) = (ret, h1, Some db')"
proof -
  obtain callID jerr d1 where s: "AppendAuditStarted (tw_start w) (started_record x action target a h) d = ((callID, jerr), d1)"
    by (metis prod.collapse)
  with assms [of d1] obtain db1 where "handler h (Some d1) = (ret, h1, Some db1)" by auto
  with s show ?thesis by (cases ret) (auto simp: audited_def Let_def)
qed

text \<open>A gate that cannot be read refuses the call, and the answer does not hang on the journal.\<close>

definition unverified :: "gerr \<Rightarrow> gerr" where
  "unverified e = Wrap ''cannot verify sandbox block state: '' (Wrap ''look up sandbox block: '' e []) []"

lemma gate_fault:
  assumes "real_faults w" "dw_fault w 0 = Some e"
  shows "agentForCall t w (Some a) (Some d) = (Inl (unverified e), Some (dw_others w 0 d))"
  using assms by (auto simp: real_faults_def agentForCall_def ActiveSandboxBlock_def select_first_def stmt_def unverified_def Let_def)

lemma faulty_gate_tool:
  assumes "real_faults (tw_gate w)" "dw_fault (tw_gate w) 0 = Some e"
  shows "\<exists>out err db'. call_tool x w (Some a) inp h (Some d) = (Some (None, out, Some err), h, Some db') \<and>
    (path_given inp \<longrightarrow> err = unverified e)"
proof -
  have "\<exists>db1. checked x (tw_text w) (tw_gate w) (Some a) inp h (Some d1) =
      (Some (None, tool_zero inp, Some (if path_given inp then unverified e else Plain ''path cannot be empty'')), h, Some db1)" for d1
    by (simp add: checked_def gated_def empty_path_def gate_fault [OF assms])
  from audited_answer [where handler = "checked x (tw_text w) (tw_gate w) (Some a) inp", OF this]
  show ?thesis unfolding call_tool_shape by fastforce
qed

lemma checked_blocks:
  assumes "\<And>i d. dw_others w i d = d" "db_blocks d1 = db_blocks d2"
  shows "\<exists>ret h1. checked x t w (Some a) inp h (Some d1) = (ret, h1, Some d1) \<and> checked x t w (Some a) inp h (Some d2) = (ret, h1, Some d2)"
proof -
  have "\<exists>g. agentForCall t w (Some a) (Some d1) = (g, Some d1) \<and> agentForCall t w (Some a) (Some d2) = (g, Some d2)"
    using assms by (auto simp: agentForCall_def ActiveSandboxBlock_def select_first_def stmt_def Let_def split: option.splits)
  then obtain g where g: "agentForCall t w (Some a) (Some d1) = (g, Some d1)" "agentForCall t w (Some a) (Some d2) = (g, Some d2)" by blast
  show ?thesis by (cases g) (simp_all add: checked_def gated_def empty_path_def g Let_def split_beta)
qed

lemma journal_fails_open:
  assumes "leaves_blocks (tw_start w)" "leaves_blocks ws" "\<And>i d. dw_others (tw_gate w) i d = d"
    and "call_tool x w (Some a) inp h (Some d) = (ret, h', db')"
  shows "\<exists>db''. call_tool x (w\<lparr>tw_start := ws, tw_end := we\<rparr>) (Some a) inp h (Some d) = (ret, h', Some db'')"
proof -
  let ?v = "w\<lparr>tw_start := ws, tw_end := we\<rparr>" and ?c = "checked x (tw_text w) (tw_gate w) (Some a) inp h"
  obtain r h1 where r: "?c (Some d) = (r, h1, Some d)" using checked_blocks [OF assms(3) refl, of x "tw_text w" a inp h d] by blast
  have same: "\<exists>db1. ?c (Some d1) = (r, h1, Some db1)" if "db_blocks d1 = db_blocks d" for d1
    using checked_blocks [OF assms(3) that, where t = "tw_text w" and x = x and a = a and inp = inp and h = h] r by auto
  have "\<exists>db1. ?c (Some d1) = (r, h1, Some db1)" if "d1 = snd (AppendAuditStarted (tw_start v) rec d)" "leaves_blocks (tw_start v)" for d1 v rec
    using same audit_keeps(2) [OF that(2)] that(1) by simp
  then have a: "\<exists>db''. call_tool x v (Some a) inp h (Some d) = (r, h1, Some db'')"
    if "leaves_blocks (tw_start v)" "tw_text v = tw_text w" "tw_gate v = tw_gate w" for v
    unfolding call_tool_shape that(2,3) using that(1) by (intro audited_answer) blast
  from a [of w] a [of ?v] assms(1,2,4) show ?thesis by auto
qed

lemma blocked_tool:
  assumes "db_ok d" "blocked (ac_ID a) d" "leaves_blocks (tw_start w)" "leaves_blocks (tw_gate w)" "real_faults (tw_gate w)"
    and "call_tool x w (Some a) inp h (Some d) = (ret, h', db')"
  shows "h' = h \<and> (\<exists>out e. ret = Some (None, out, Some e) \<and>
    (path_given inp \<and> dw_fault (tw_gate w) 0 = None \<longrightarrow> errors_is e ErrSandboxBlocked))"
proof -
  have g: "\<exists>e db1. agentForCall (tw_text w) (tw_gate w) (Some a) (Some d1) = (Inl e, db1) \<and>
      (dw_fault (tw_gate w) 0 = None \<longrightarrow> errors_is e ErrSandboxBlocked)" if "db_reach d d1" "db_blocks d1 = db_blocks d" for d1
    by (rule gate_blocked [OF db_ok_reach [OF that(1) assms(1)] assms(4,5)]) (use assms(2) that(2) in \<open>simp add: blocked_def\<close>)
  have r: "\<exists>out e db1. gated (tw_text w) (tw_gate w) (Some a) zero work h (Some d1) = (Some (None, out, Some e), h, db1) \<and>
      (path_given inp \<and> dw_fault (tw_gate w) 0 = None \<longrightarrow> errors_is e ErrSandboxBlocked)"
    if "db_reach d d1" "db_blocks d1 = db_blocks d" for d1 zero work
    using g [OF that] by (auto simp: gated_def Let_def)
  have "\<exists>out e db1. checked x (tw_text w) (tw_gate w) (Some a) inp h (Some d1) = (Some (None, out, Some e), h, db1) \<and>
      (path_given inp \<and> dw_fault (tw_gate w) 0 = None \<longrightarrow> errors_is e ErrSandboxBlocked)"
    if "db_reach d d1" "db_blocks d1 = db_blocks d" for d1
    using r [OF that, of "tool_zero inp" "tool_work x inp"] by (auto simp: checked_def empty_path_def)
  from audited_refused [OF this assms(3) assms(6) [unfolded call_tool_shape]] show ?thesis by blast
qed

text \<open>An emergency block is effective at once. While an agent's block stands, no tool call of it
  reaches a worker, whatever the tool and its arguments: the executor's state is untouched and the
  call ends in an error, the block's own when the block could be read and the call was well formed;
  a block table that cannot be read refuses the call as well.\<close>

theorem blocked_agent_reaches_no_worker:
  assumes "db_ok d" "blocked (ac_ID a) d" "leaves_blocks (tw_start w)" "leaves_blocks (tw_gate w)" "real_faults (tw_gate w)"
    and "call_tool x w (Some a) inp h (Some d) = (ret, h', db')"
  shows "h' = h \<and> (\<exists>out e. ret = Some (None, out, Some e) \<and>
    (path_given inp \<and> dw_fault (tw_gate w) 0 = None \<longrightarrow> errors_is e ErrSandboxBlocked))"
  by (rule blocked_tool [OF assms])

section \<open>The journal\<close>

definition alone :: "db_world \<Rightarrow> bool" where
  "alone w \<longleftrightarrow> (\<forall>i. dw_fault w i = None) \<and> (\<forall>i d. dw_others w i d = d)"

lemma gated_agrees:
  assumes "\<And>k g. \<exists>r h1. work k g = (r, h1) \<and> (\<forall>y. r = Some y \<longrightarrow> outcome_agrees y)" "\<And>i d. dw_others w i d = d"
  shows "\<exists>r h1. gated t w (Some a) zero work h (Some d) = (r, h1, Some d) \<and> (\<forall>y. r = Some y \<longrightarrow> outcome_agrees y)"
proof -
  have "\<exists>g. agentForCall t w (Some a) (Some d) = (g, Some d)"
    using assms(2) by (auto simp: agentForCall_def ActiveSandboxBlock_def select_first_def stmt_def Let_def split: option.splits)
  then obtain g where g: "agentForCall t w (Some a) (Some d) = (g, Some d)" by blast
  show ?thesis
  proof (cases g)
    case (Inl e)
    with g show ?thesis by (simp add: gated_def outcome_agrees_err)
  next
    case (Inr k)
    with g assms(1) [of k h] show ?thesis by (auto simp: gated_def Let_def)
  qed
qed

lemma audited_rows:
  assumes H: "\<And>d1. \<exists>r h1. handler h (Some d1) = (r, h1, Some d1) \<and> (\<forall>y. r = Some y \<longrightarrow> outcome_agrees y)"
    and w: "alone (tw_start w)" "alone (tw_end w)"
    and fresh: "dw_uuid (tw_start w) 1 \<notin> set (map au_ID (db_audit d))"
      "dw_uuid (tw_end w) 0 \<notin> set (map au_ID (db_audit d)) \<union> {dw_uuid (tw_start w) 1}"
    and r: "audited x w (Some a) action target handler h (Some d) = (ret, h', db')"
  shows "\<exists>s rest. db' = Some (d\<lparr>db_audit := db_audit d @ s # rest\<rparr>) \<and> au_Phase s = AuditStarted \<and> au_ActorID s = ac_ID a \<and>
    au_Action s = action \<and> (case ret of None \<Rightarrow> rest = []
      | Some y \<Rightarrow> \<exists>f. rest = [f] \<and> au_Phase f = AuditFinished \<and> au_CallID f = au_CallID s \<and> au_ActorID f = ac_ID a \<and>
          au_Action f = action \<and> (au_Outcome f = AuditOutcomeOK \<longleftrightarrow> told_ok y))"
proof -
  let ?rec0 = "started_record x action target a h"
  let ?rec1 = "?rec0\<lparr>ar_CallID := dw_uuid (tw_start w) 0\<rparr>"
  let ?s = "audit_event (tw_start w) 1 ?rec1 AuditStarted" and ?d1 = "d\<lparr>db_audit := db_audit d @ [audit_event (tw_start w) 1 ?rec1 AuditStarted]\<rparr>"
  have s: "AppendAuditStarted (tw_start w) ?rec0 d = ((dw_uuid (tw_start w) 0, None), ?d1)"
    using w(1) fresh(1) by (simp add: AppendAuditStarted_def appendAudit_def stmt_def alone_def insert_audit_def started_record_def
        zeroAuditRecord_def audit_event_def Let_def)
  obtain y h1 where y: "handler h (Some ?d1) = (y, h1, Some ?d1)" "\<And>z. y = Some z \<Longrightarrow> outcome_agrees z" using H by blast
  have sv: "au_Phase ?s = AuditStarted" "au_ActorID ?s = ac_ID a" "au_Action ?s = action" "au_CallID ?s = dw_uuid (tw_start w) 0"
    by (simp_all add: audit_event_def started_record_def)
  show ?thesis
  proof (cases y)
    case None
    with r s y sv show ?thesis by (intro exI [of _ ?s] exI [of _ "[]"]) (simp add: audited_def Let_def)
  next
    case (Some z)
    obtain result out err where z: "z = (result, out, err)" by (metis prod.collapse)
    let ?rec2 = "finished_record x ?rec1 (tw_ms w) out err a h1"
    let ?f = "audit_event (tw_end w) 0 ?rec2 AuditFinished"
    have e: "snd (AppendAuditFinished (tw_end w) ?rec2 ?d1) = d\<lparr>db_audit := db_audit d @ [?s, ?f]\<rparr>"
      using w(2) fresh(2) by (auto simp: AppendAuditFinished_def appendAudit_def stmt_def alone_def insert_audit_def audit_event_def Let_def)
    have "au_Outcome ?f = call_outcome out err" "au_Phase ?f = AuditFinished" "au_ActorID ?f = ac_ID a" "au_Action ?f = action"
      "au_CallID ?f = dw_uuid (tw_start w) 0" by (simp_all add: audit_event_def finished_record_def started_record_def)
    moreover have "call_outcome out err = AuditOutcomeOK \<longleftrightarrow> told_ok z" using y(2) [OF Some] by (simp add: outcome_agrees_def z)
    moreover have "audited x w (Some a) action target handler h (Some d) = (Some z, h1, Some (snd (AppendAuditFinished (tw_end w) ?rec2 ?d1)))"
      by (simp add: audited_def s y(1) Some z Let_def del: One_nat_def)
    then have "db' = Some (d\<lparr>db_audit := db_audit d @ [?s, ?f]\<rparr>)" "ret = Some z" by (simp_all add: r e del: One_nat_def)
    ultimately show ?thesis using sv by (intro exI [of _ ?s] exI [of _ "[?f]"]) simp
  qed
qed


definition quiet_tool_world :: tool_world where
  "quiet_tool_world = \<lparr>tw_text = \<lparr>tt_quote = (\<lambda>s. s), tt_time = (\<lambda>t. [])\<rparr>, tw_start = quiet_world, tw_gate = quiet_world,
     tw_end = quiet_world, tw_ms = 3\<rparr>"

abbreviation idle_hub :: "Hub Executor" where
  "idle_hub \<equiv> hub_executor (\<lambda>h. h) (\<lambda>i h. h) (\<lambda>i. None) None"

lemma quiet_tool_worlds: "leaves_blocks quiet_world" "real_faults quiet_world" "alone quiet_world"
  by (simp_all add: leaves_blocks_def real_faults_def alone_def quiet_world_def db_reach.here)

lemma blocked_agent_reaches_no_worker_witness:
  "\<exists>d e out db'. blocked ''a'' d \<and>
     call_tool idle_hub quiet_tool_world (Some sample_agent) (WriteFileInput ''f'' ''x'') (newHub (NewBroadcaster 0)) (Some d) =
       (Some (None, out, Some e), newHub (NewBroadcaster 0), db') \<and> errors_is e ErrSandboxBlocked"
proof -
  let ?b = "new_block quiet_world ''a'' sample_admin ''loop''"
  let ?d = "sample_db\<lparr>db_blocks := [?b]\<rparr>"
  let ?x = "call_tool idle_hub quiet_tool_world (Some sample_agent) (WriteFileInput ''f'' ''x'') (newHub (NewBroadcaster 0)) (Some ?d)"
  have ok: "db_ok ?d" using sample_db_ok by (simp add: db_ok_def active_keys_def new_block_def)
  have b: "blocked (ac_ID sample_agent) ?d" by (simp add: blocked_def active_for_def new_block_def sample_agent_def)
  obtain ret h' db' where x: "?x = (ret, h', db')" by (metis prod.collapse)
  have w: "leaves_blocks (tw_start quiet_tool_world)" "leaves_blocks (tw_gate quiet_tool_world)" "real_faults (tw_gate quiet_tool_world)"
    "dw_fault (tw_gate quiet_tool_world) 0 = None" using quiet_tool_worlds by (simp_all add: quiet_tool_world_def quiet_world_def)
  from blocked_agent_reaches_no_worker [OF ok b w(1-3) x] w(4) obtain out e where
    "h' = newHub (NewBroadcaster 0)" "ret = Some (None, out, Some e)" "errors_is e ErrSandboxBlocked" by auto
  with x b show ?thesis by (intro exI [of _ ?d] exI [of _ e] exI [of _ out] exI [of _ db']) (simp add: sample_agent_def)
qed


section \<open>One agent's calls and the others\<close>

text \<open>What a tool relies on: an operation for one agent leaves what is seen of another alone.\<close>

locale isolated_executor =
  fixes x :: "'h Executor" and view :: "string \<Rightarrow> 'h \<Rightarrow> 'v"
  assumes exec: "a \<noteq> b \<Longrightarrow> view b (snd (xe_Exec x a rq h)) = view b h"
    and reads: "a \<noteq> b \<Longrightarrow> view b (snd (xe_ReadFile x a p h)) = view b h"
    and writes: "a \<noteq> b \<Longrightarrow> view b (snd (xe_WriteFile x a p c h)) = view b h"
    and lists: "a \<noteq> b \<Longrightarrow> view b (snd (xe_ListDir x a p h)) = view b h"
    and deletes: "a \<noteq> b \<Longrightarrow> view b (snd (xe_DeleteFile x a p h)) = view b h"
    and status: "a \<noteq> b \<Longrightarrow> view b (snd (xe_Status x a h)) = view b h"
begin

lemma gated_view:
  assumes "\<And>g. view b (snd (work (ac_ID a) g)) = view b g"
  shows "view b (fst (snd (gated t w (Some a) zero work h db))) = view b h"
  using assms by (auto simp: gated_def agentForCall_def split_beta Let_def split: option.splits sum.splits)

lemma audited_view: "(\<And>g e. view b (fst (snd (handler g e))) = view b g) \<Longrightarrow>
    view b (fst (snd (audited x w actor action target handler h db))) = view b h"
  by (simp add: audited_def split_beta Let_def split: option.split)

lemma tool_view:
  assumes n: "ac_ID a \<noteq> b"
  shows "view b (fst (snd (call_tool x w (Some a) inp h db))) = view b h"
proof (cases inp)
  case (ExecCommandInput c args t d)
  show ?thesis unfolding ExecCommandInput call_tool.simps execCommandHandler_def
    by (intro audited_view gated_view) (simp add: split_beta Let_def exec [OF n])
next
  case (ReadFileInput p)
  have g: "view b (fst (snd (gated t v (Some a) z (\<lambda>a h. let (r, h1) = xe_ReadFile x a p h in (map_option f r, h1)) g e))) = view b g" for t v z f g e
    by (rule gated_view) (simp add: split_beta Let_def reads [OF n])
  show ?thesis unfolding ReadFileInput call_tool.simps 
    by (rule audited_view, unfold readFileHandler_def, cases "p = []", simp add: empty_path_def, simp only: if_False g)
next
  case (WriteFileInput p c)
  have g: "view b (fst (snd (gated t v (Some a) z (\<lambda>a h. let (r, h1) = xe_WriteFile x a p c h in (map_option f r, h1)) g e))) = view b g" for t v z f g e
    by (rule gated_view) (simp add: split_beta Let_def writes [OF n])
  show ?thesis unfolding WriteFileInput call_tool.simps 
    by (rule audited_view, unfold writeFileHandler_def, cases "p = []", simp add: empty_path_def, simp only: if_False g)
next
  case (ListDirInput p)
  have g: "view b (fst (snd (gated t v (Some a) z (\<lambda>a h. let (r, h1) = xe_ListDir x a p h in (map_option f r, h1)) g e))) = view b g" for t v z f g e p
    by (rule gated_view) (simp add: split_beta Let_def lists [OF n])
  show ?thesis unfolding ListDirInput call_tool.simps listDirHandler_def Let_def [of "if _ then _ else _"] by (intro audited_view g)
next
  case (DeleteFileInput p)
  have g: "view b (fst (snd (gated t v (Some a) z (\<lambda>a h. let (r, h1) = xe_DeleteFile x a p h in (map_option f r, h1)) g e))) = view b g" for t v z f g e
    by (rule gated_view) (simp add: split_beta Let_def deletes [OF n])
  show ?thesis unfolding DeleteFileInput call_tool.simps 
    by (rule audited_view, unfold deleteFileHandler_def, cases "p = []", simp add: empty_path_def, simp only: if_False g)
next
  case SandboxStatusInput
  show ?thesis unfolding SandboxStatusInput call_tool.simps sandboxStatusHandler_def
    by (intro audited_view gated_view) (simp add: split_beta Let_def status [OF n])
qed

end

lemma names_kept:
  "WorkerFor (unregister w i h) b = WorkerFor h b" "WorkerFor (snd (send_frame w f out h)) b = WorkerFor h b"
  "WorkerFor (snd (Worker_Hub.register w h)) b = WorkerFor h b" "WorkerFor (snd (receive c h)) b = WorkerFor h b"
  by (auto simp: WorkerFor_def unregister_def send_frame_def Worker_Hub.register_def receive_def Let_def map_option_case
      split: option.splits list.splits)

lemma workerFor_others: "a \<noteq> b \<Longrightarrow> WorkerFor (snd (workerFor h a)) b = WorkerFor h b"
  by (auto simp: WorkerFor_def workerFor_def split: option.splits)

lemma call_others:
  assumes "a \<noteq> b" "\<And>i h. WorkerFor (others i h) b = WorkerFor h b"
  shows "WorkerFor (snd (call others werr ctx a op raw h)) b = WorkerFor h b"
  using assms by (simp add: call_def Let_def split_beta names_kept workerFor_others split: sum.split option.split)

lemma hub_isolated:
  assumes "\<And>b h. WorkerFor (first h) b = WorkerFor h b" "\<And>i b h. WorkerFor (others i h) b = WorkerFor h b"
  shows "isolated_executor (hub_executor first others werr ctx) (\<lambda>b h. WorkerFor h b)"
  using assms by unfold_locales
    (simp_all add: hub_executor_def hub_Exec_def hub_ReadFile_def hub_WriteFile_def hub_ListDir_def hub_DeleteFile_def hub_Status_def
      split_beta Let_def call_others workerFor_others split: sum.split)

interpretation alone_hub: isolated_executor "hub_executor (\<lambda>h. h) (\<lambda>i h. h) werr ctx" "\<lambda>b h. WorkerFor h b" for werr ctx
  by (rule hub_isolated) simp_all



end
