(* ===== verification/Rest_Api.thy ===== *)
theory Rest_Api imports Tools_Props "HOL-Library.Product_Lexorder" begin

text \<open>
  Package \<open>internal/restapi\<close> behind \<open>internal/humanauth\<close>: what an operator's browser calls. A request
  is a route with its parameters and decoded body, as the router hands it on; an answer is a status
  and a body. A handler that never answers, because the worker it stopped commands on does not, is
  \<open>None\<close>, with the state it left. Each repository call has a \<open>db_world\<close> of its own.
\<close>

section \<open>Requests and answers\<close>

definition RoleAdmin :: string where "RoleAdmin = ''admin''"
definition RoleViewer :: string where "RoleViewer = ''viewer''"

record Identity =
  id_Subject :: string
  id_DisplayName :: string
  id_Role :: string

definition stub_identity :: Identity where
  "stub_identity = \<lparr>id_Subject = ''stub-user'', id_DisplayName = ''Local Tester'', id_Role = RoleAdmin\<rparr>"

record server =
  sv_db :: DB
  sv_hub :: Hub

record rest_world =
  rw_auth :: db_world
  rw_db :: "nat \<Rightarrow> db_world"
  rw_sha :: "string \<Rightarrow> string"
  rw_others :: "nat \<Rightarrow> Hub \<Rightarrow> Hub"
  rw_werr :: "nat \<Rightarrow> gerr option"
  rw_ctx :: "gerr option"
  rw_now :: int

record sandboxResponse =
  sr_ActorID :: string
  sr_DisplayName :: string
  sr_Live :: bool
  sr_Worker :: string
  sr_Watchers :: int
  sr_LastSeq :: u64
  sr_Block :: "SandboxBlock option"

record toolCallResponse =
  tc_ID :: string
  tc_ActorID :: string
  tc_ActorName :: string
  tc_Tool :: string
  tc_InputJSON :: string
  tc_OutputJSON :: string
  tc_OutputSize :: int
  tc_IsError :: bool
  tc_DurationMs :: int
  tc_CalledAt :: int
  tc_ExitCode :: "int option"
  tc_WorkerID :: string

datatype rest_body =
    BNone
  | BError string
  | BText string
  | BRedirect string
  | BMe string string string
  | BAgents "(Actor \<times> bool) list"
  | BActor Actor
  | BCreds "AgentCredential list"
  | BToken string AgentCredential
  | BSandboxes "sandboxResponse list"
  | BSandbox sandboxResponse
  | BBlocked SandboxBlock int
  | BToolCalls "toolCallResponse list"
  | BToolCall toolCallResponse

type_synonym rest_answer = "(nat \<times> rest_body) option \<times> server"

definition on_db :: "server \<Rightarrow> 'a \<times> DB \<Rightarrow> 'a \<times> server" where
  "on_db sv x = (fst x, sv\<lparr>sv_db := snd x\<rparr>)"

definition writeError :: "nat \<Rightarrow> gerr \<Rightarrow> server \<Rightarrow> rest_answer" where
  "writeError status e sv = (Some (status, BError (err_text e)), sv)"

section \<open>\<open>agents.go\<close> and \<open>me.go\<close>\<close>

text \<open>What the middleware leaves in the context of a request, and what handlers read from it.\<close>

type_synonym human_ctx = "(Actor \<times> string) option"

definition withHuman :: "human_ctx \<Rightarrow> Actor \<Rightarrow> string \<Rightarrow> human_ctx" where
  "withHuman ctx actor role = Some (actor, role)"

definition human_ActorFromContext :: "human_ctx \<Rightarrow> Actor option" where
  "human_ActorFromContext ctx = (case ctx of None \<Rightarrow> None | Some (actor, role) \<Rightarrow> Some actor)"

definition RoleFromContext :: "human_ctx \<Rightarrow> string option" where
  "RoleFromContext ctx = (case ctx of None \<Rightarrow> None | Some (actor, role) \<Rightarrow> Some role)"

lemma from_withHuman [simp]:
  "human_ActorFromContext (withHuman ctx a r) = Some a" "RoleFromContext (withHuman ctx a r) = Some r"
  by (simp_all add: human_ActorFromContext_def RoleFromContext_def withHuman_def)

definition no_actor :: gerr where "no_actor = Plain ''no authenticated actor''"

definition meHandler :: "human_ctx \<Rightarrow> server \<Rightarrow> rest_answer" where
  "meHandler ctx sv =
     (case human_ActorFromContext ctx of
        None \<Rightarrow> writeError 401 no_actor sv
      | Some actor \<Rightarrow>
          (let role = (case RoleFromContext ctx of None \<Rightarrow> [] | Some r \<Rightarrow> r)
           in (Some (200, BMe (ac_ID actor) (ac_DisplayName actor) role), sv)))"

definition listAgentsHandler :: "rest_world \<Rightarrow> server \<Rightarrow> rest_answer" where
  "listAgentsHandler w sv =
     (let (agents, sv1) = on_db sv (ListAgents (rw_db w 0) 0 (sv_db sv)) in
      case agents of
        Inl e \<Rightarrow> writeError 500 e sv1
      | Inr as \<Rightarrow>
          (let (active, sv2) = on_db sv1 (ActorsWithActiveToken (rw_db w 1) 0 (sv_db sv1))
           in case active of
                Inl e \<Rightarrow> writeError 500 e sv2
              | Inr ids \<Rightarrow> (Some (200, BAgents (map (\<lambda>a. (a, ac_ID a \<in> set ids)) as)), sv2)))"

definition createAgentHandler :: "rest_world \<Rightarrow> string option \<Rightarrow> server \<Rightarrow> rest_answer" where
  "createAgentHandler w body sv =
     (case body of
        None \<Rightarrow> writeError 400 (Plain ''body must be a JSON object with display_name'') sv
      | Some name \<Rightarrow>
          (let (r, sv1) = on_db sv (CreateAgent (rw_db w 0) name (sv_db sv)) in
           case r of
             Inr a \<Rightarrow> (Some (201, BActor a), sv1)
           | Inl e \<Rightarrow> if errors_is e ErrEmptyDisplayName \<or> errors_is e ErrDisplayNameConflict
                      then writeError 400 e sv1 else writeError 500 e sv1))"

definition deleteAgentHandler :: "rest_world \<Rightarrow> string \<Rightarrow> server \<Rightarrow> rest_answer" where
  "deleteAgentHandler w k sv =
     (let (e, sv1) = on_db sv (RevokeAllAgentCredentials (rw_db w 0) k (sv_db sv))
      in case e of Some e \<Rightarrow> writeError 500 e sv1 | None \<Rightarrow> (Some (204, BNone), sv1))"

definition listAgentTokensHandler :: "rest_world \<Rightarrow> string \<Rightarrow> server \<Rightarrow> rest_answer" where
  "listAgentTokensHandler w k sv =
     (let (r, sv1) = on_db sv (ListAgentCredentials (rw_db w 0) k (sv_db sv))
      in case r of Inl e \<Rightarrow> writeError 500 e sv1 | Inr cs \<Rightarrow> (Some (200, BCreds cs), sv1))"

definition issueTokenHandler :: "rest_world \<Rightarrow> string \<Rightarrow> server \<Rightarrow> rest_answer" where
  "issueTokenHandler w k sv =
     (let (r, sv1) = on_db sv (IssueAgentToken (rw_sha w) (rw_db w 0) k (sv_db sv))
      in case r of
           Inr (token, cred) \<Rightarrow> (Some (201, BToken token cred), sv1)
         | Inl e \<Rightarrow> writeError (if errors_is e ErrActorNotFound then 404 else 500) e sv1)"

definition revokeTokenHandler :: "rest_world \<Rightarrow> string \<Rightarrow> server \<Rightarrow> rest_answer" where
  "revokeTokenHandler w k sv =
     (let (r, sv1) = on_db sv (RevokeAgentToken (rw_db w 0) k (sv_db sv))
      in case r of
           None \<Rightarrow> (Some (204, BNone), sv1)
         | Some e \<Rightarrow> writeError (if errors_is e ErrCredentialNotFound then 404 else 500) e sv1)"

section \<open>\<open>sandboxes.go\<close>\<close>

definition sandbox_row :: "Actor \<Rightarrow> SandboxBlock option \<Rightarrow> Hub \<Rightarrow> sandboxResponse \<times> Hub" where
  "sandbox_row a block h =
     (let (seq, b) = LastSeq (bus h) (ac_ID a); h1 = h\<lparr>bus := b\<rparr>; wk = WorkerFor h1 (ac_ID a)
      in (\<lparr>sr_ActorID = ac_ID a, sr_DisplayName = ac_DisplayName a, sr_Live = (wk \<noteq> None),
           sr_Worker = (case wk of None \<Rightarrow> [] | Some i \<Rightarrow> i), sr_Watchers = int (WatcherCount b (ac_ID a)),
           sr_LastSeq = seq, sr_Block = block\<rparr>, h1))"

fun sandbox_rows :: "(string, SandboxBlock) gomap \<Rightarrow> Actor list \<Rightarrow> Hub \<Rightarrow> sandboxResponse list \<times> Hub" where
  "sandbox_rows blocks [] h = ([], h)"
| "sandbox_rows blocks (a # as) h =
     (let (r, h1) = sandbox_row a (mget blocks (ac_ID a)) h; (rs, h2) = sandbox_rows blocks as h1 in (r # rs, h2))"

text \<open>Blocked first, then live, then by name.\<close>

definition list_order :: "sandboxResponse \<Rightarrow> bool \<times> bool \<times> string" where
  "list_order r = (sr_Block r = None, \<not> sr_Live r, sr_DisplayName r)"

definition listSandboxesHandler :: "rest_world \<Rightarrow> server \<Rightarrow> rest_answer" where
  "listSandboxesHandler w sv =
     (let (agents, sv1) = on_db sv (ListAgents (rw_db w 0) 0 (sv_db sv)) in
      case agents of
        Inl e \<Rightarrow> writeError 500 e sv1
      | Inr as \<Rightarrow>
          (let (blocks, sv2) = on_db sv1 (ActiveSandboxBlocks (rw_db w 1) 0 (sv_db sv1))
           in case blocks of
                Inl e \<Rightarrow> writeError 500 e sv2
              | Inr bs \<Rightarrow> (let (rows, h) = sandbox_rows bs as (sv_hub sv2)
                          in (Some (200, BSandboxes (sort_key list_order rows)), sv2\<lparr>sv_hub := h\<rparr>))))"

definition getSandboxHandler :: "rest_world \<Rightarrow> string \<Rightarrow> server \<Rightarrow> rest_answer" where
  "getSandboxHandler w k sv =
     (let (agent, sv1) = on_db sv (GetActorByID (rw_db w 0) 0 k (sv_db sv)) in
      case agent of
        Inl e \<Rightarrow> writeError (if errors_is e ErrActorNotFound then 404 else 500) e sv1
      | Inr a \<Rightarrow>
          (let (block, sv2) = on_db sv1 (ActiveSandboxBlock (rw_db w 1) 0 k (sv_db sv1))
           in case block of
                Inl e \<Rightarrow> writeError 500 e sv2
              | Inr b \<Rightarrow> (let (row, h) = sandbox_row a b (sv_hub sv2) in (Some (200, BSandbox row), sv2\<lparr>sv_hub := h\<rparr>))))"

definition blockedEvent :: "int \<Rightarrow> string \<Rightarrow> string \<Rightarrow> string \<Rightarrow> Event" where
  "blockedEvent now k byActor reason = zeroEvent\<lparr>SandboxID := k, Kind := EventBlocked, At := now, ByActor := byActor, Reason := reason\<rparr>"

definition releasedEvent :: "int \<Rightarrow> string \<Rightarrow> string \<Rightarrow> Event" where
  "releasedEvent now k byActor = zeroEvent\<lparr>SandboxID := k, Kind := EventReleased, At := now, ByActor := byActor\<rparr>"

text \<open>Publishing on the server's bus; \<open>None\<close> is a panic.\<close>

definition announce :: "Event \<Rightarrow> (nat \<times> rest_body) \<Rightarrow> server \<Rightarrow> rest_answer" where
  "announce e answer sv =
     (case publish_on (sv_hub sv) e of None \<Rightarrow> (None, sv) | Some h \<Rightarrow> (Some answer, sv\<lparr>sv_hub := h\<rparr>))"

definition after_block :: "rest_world \<Rightarrow> Actor \<Rightarrow> string \<Rightarrow> string \<Rightarrow> SandboxBlock \<Rightarrow> server \<Rightarrow> rest_answer" where
  "after_block w admin k reason block sv =
     (let (kill, h) = hub_Kill (rw_others w) (rw_werr w) (rw_ctx w) k (ac_DisplayName admin) reason (sv_hub sv); sv1 = sv\<lparr>sv_hub := h\<rparr>
      in case kill of
           None \<Rightarrow> (None, sv1)
         | Some (killed, killErr) \<Rightarrow>
             (let (block', sv2) =
                (if 0 < killed
                 then (block\<lparr>bk_Killed := killed\<rparr>, snd (on_db sv1 (RecordKilledProcesses (rw_db w 2) (bk_ID block) killed (sv_db sv1))))
                 else (block, sv1))
              in announce (blockedEvent (rw_now w) k (ac_DisplayName admin) reason) (201, BBlocked block' killed) sv2))"

definition blockSandboxHandler :: "rest_world \<Rightarrow> human_ctx \<Rightarrow> string \<Rightarrow> string option \<Rightarrow> server \<Rightarrow> rest_answer" where
  "blockSandboxHandler w ctx k body sv =
     (case human_ActorFromContext ctx of
        None \<Rightarrow> writeError 401 no_actor sv
      | Some admin \<Rightarrow>
          (case body of
             None \<Rightarrow> writeError 400 (Plain ''body must be a JSON object with reason'') sv
           | Some reason0 \<Rightarrow>
               (let reason = TrimSpace reason0; (agent, sv1) = on_db sv (GetActorByID (rw_db w 0) 0 k (sv_db sv)) in
                case agent of
                  Inl e \<Rightarrow> writeError (if errors_is e ErrActorNotFound then 404 else 500) e sv1
                | Inr _ \<Rightarrow>
                    (let (block, sv2) = on_db sv1 (BlockSandbox (rw_db w 1) k admin reason (sv_db sv1)) in
                     case block of
                       Inl e \<Rightarrow> writeError (if errors_is e ErrEmptyReason then 400 else if errors_is e ErrAlreadyBlocked then 409 else 500) e sv2
                     | Inr b \<Rightarrow> after_block w admin k reason b sv2))))"

definition releaseSandboxHandler :: "rest_world \<Rightarrow> human_ctx \<Rightarrow> string \<Rightarrow> server \<Rightarrow> rest_answer" where
  "releaseSandboxHandler w ctx k sv =
     (case human_ActorFromContext ctx of
        None \<Rightarrow> writeError 401 no_actor sv
      | Some admin \<Rightarrow>
          (let (r, sv1) = on_db sv (ReleaseSandbox (rw_db w 0) k admin (sv_db sv))
           in case r of
                Some e \<Rightarrow> writeError (if errors_is e ErrNotBlocked then 404 else 500) e sv1
              | None \<Rightarrow> announce (releasedEvent (rw_now w) k (ac_DisplayName admin)) (204, BNone) sv1))"

section \<open>\<open>tool_calls.go\<close>\<close>

definition auditEventToToolCall :: "AuditEvent \<Rightarrow> toolCallResponse" where
  "auditEventToToolCall e =
     \<lparr>tc_ID = au_ID e, tc_ActorID = au_ActorID e, tc_ActorName = au_ActorName e, tc_Tool = au_Action e, tc_InputJSON = au_Target e,
      tc_OutputJSON = au_Error e, tc_OutputSize = au_Bytes e,
      tc_IsError = (au_Outcome e = AuditOutcomeError \<or> au_Outcome e = AuditOutcomeBlocked \<or> au_Outcome e = AuditOutcomeTimeout \<or>
        au_Outcome e = AuditOutcomeStopped),
      tc_DurationMs = au_DurationMs e, tc_CalledAt = au_At e, tc_ExitCode = au_ExitCode e, tc_WorkerID = au_WorkerID e\<rparr>"

definition listFinishedAudit :: "db_world \<Rightarrow> string \<Rightarrow> string \<Rightarrow> int \<Rightarrow> DB \<Rightarrow> AuditEvent list res \<times> DB" where
  "listFinishedAudit w actor tool lim d =
     (let most = (if lim \<le> 0 \<or> 1000 < lim then 100 else lim);
          f = \<lparr>fl_ActorID = actor, fl_Action = tool, fl_Since = None, fl_Limit = most\<rparr>
      in select_rows w 0 (\<lambda>d. take (nat most) (newest_first au_At (filter (\<lambda>e. au_Phase e = AuditFinished \<and> audit_matches f e) (db_audit d)))) d)"

text \<open>\<open>limit\<close> is the query's, when it is a positive number; \<open>before\<close> is read and dropped.\<close>

definition listToolCallsHandler :: "rest_world \<Rightarrow> string \<Rightarrow> string \<Rightarrow> int option \<Rightarrow> string \<Rightarrow> server \<Rightarrow> rest_answer" where
  "listToolCallsHandler w actor tool limit0 before sv =
     (let lim = (case limit0 of Some n \<Rightarrow> if 0 < n then n else 100 | None \<Rightarrow> 100);
          (r, sv1) = on_db sv (listFinishedAudit (rw_db w 0) actor tool lim (sv_db sv))
      in case r of Inl e \<Rightarrow> writeError 500 e sv1 | Inr es \<Rightarrow> (Some (200, BToolCalls (map auditEventToToolCall es)), sv1))"

definition getToolCallHandler :: "rest_world \<Rightarrow> string \<Rightarrow> server \<Rightarrow> rest_answer" where
  "getToolCallHandler w k sv =
     (let (r, sv1) = on_db sv (select_first (rw_db w 0) 0 (\<lambda>d. first_row au_ID (\<lambda>e. au_ID e = k \<and> au_Phase e = AuditFinished) (db_audit d)) (sv_db sv))
      in case r of Inl e \<Rightarrow> writeError 404 ErrCredentialNotFound sv1 | Inr e \<Rightarrow> (Some (200, BToolCall (auditEventToToolCall e)), sv1))"

section \<open>\<open>router.go\<close> and the middleware\<close>

datatype route =
    Me
  | ListSandboxes
  | GetSandboxOf string
  | BlockSandboxOf string "string option"
  | ReleaseSandboxOf string
  | ListActors
  | CreateActor "string option"
  | DeleteActor string
  | ListCredentials string
  | IssueCredential string
  | RevokeCredential string
  | ListToolCalls string string "int option" string
  | GetToolCall string

fun needs_admin :: "route \<Rightarrow> bool" where
  "needs_admin Me = False"
| "needs_admin ListSandboxes = False"
| "needs_admin (GetSandboxOf k) = False"
| "needs_admin (ListToolCalls a t l b) = False"
| "needs_admin (GetToolCall k) = False"
| "needs_admin _ = True"

definition RequireAdmin :: "human_ctx \<Rightarrow> (server \<Rightarrow> rest_answer) \<Rightarrow> server \<Rightarrow> rest_answer" where
  "RequireAdmin ctx next sv =
     (let role = RoleFromContext ctx in if role = None \<or> role \<noteq> Some RoleAdmin then (Some (403, BText ''forbidden''), sv) else next sv)"

fun handler_of :: "rest_world \<Rightarrow> human_ctx \<Rightarrow> route \<Rightarrow> server \<Rightarrow> rest_answer" where
  "handler_of w ctx Me sv = meHandler ctx sv"
| "handler_of w ctx ListSandboxes sv = listSandboxesHandler w sv"
| "handler_of w ctx (GetSandboxOf k) sv = getSandboxHandler w k sv"
| "handler_of w ctx (BlockSandboxOf k body) sv = blockSandboxHandler w ctx k body sv"
| "handler_of w ctx (ReleaseSandboxOf k) sv = releaseSandboxHandler w ctx k sv"
| "handler_of w ctx ListActors sv = listAgentsHandler w sv"
| "handler_of w ctx (CreateActor body) sv = createAgentHandler w body sv"
| "handler_of w ctx (DeleteActor k) sv = deleteAgentHandler w k sv"
| "handler_of w ctx (ListCredentials k) sv = listAgentTokensHandler w k sv"
| "handler_of w ctx (IssueCredential k) sv = issueTokenHandler w k sv"
| "handler_of w ctx (RevokeCredential k) sv = revokeTokenHandler w k sv"
| "handler_of w ctx (ListToolCalls a t l b) sv = listToolCallsHandler w a t l b sv"
| "handler_of w ctx (GetToolCall k) sv = getToolCallHandler w k sv"

definition NewRouter :: "rest_world \<Rightarrow> human_ctx \<Rightarrow> route \<Rightarrow> server \<Rightarrow> rest_answer" where
  "NewRouter w ctx r sv =
     (if needs_admin r then RequireAdmin ctx (handler_of w ctx r) sv else handler_of w ctx r sv)"

text \<open>\<open>identity\<close> is what the provider answered, \<open>html\<close> whether the request accepts HTML.\<close>

definition RequireHumanAuth :: "rest_world \<Rightarrow> Identity res \<Rightarrow> bool \<Rightarrow> (human_ctx \<Rightarrow> server \<Rightarrow> rest_answer) \<Rightarrow> server \<Rightarrow> rest_answer" where
  "RequireHumanAuth w identity html next sv =
     (case identity of
        Inl e \<Rightarrow> (Some (if html then (302, BRedirect ''/auth/login'') else (401, BText ''unauthorized'')), sv)
      | Inr i \<Rightarrow>
          (let (a, sv1) = on_db sv (GetOrCreateHumanActor (rw_auth w) (id_Subject i) (id_DisplayName i) (id_Role i) (sv_db sv))
           in case a of Inl e \<Rightarrow> (Some (500, BText ''internal error''), sv1) | Inr actor \<Rightarrow> next (withHuman None actor (id_Role i)) sv1))"

definition serve_api :: "rest_world \<Rightarrow> Identity res \<Rightarrow> bool \<Rightarrow> route \<Rightarrow> server \<Rightarrow> rest_answer" where
  "serve_api w identity html r sv = RequireHumanAuth w identity html (\<lambda>ctx. NewRouter w ctx r) sv"

end
