(* ===== verification/Human_Auth.thy ===== *)
theory Human_Auth imports Rest_Api begin

text \<open>
  Package \<open>internal/humanauth\<close>: sessions of the people who watch and stop sandboxes. AES-GCM, base64,
  SHA-256 and the identity provider's token endpoint are the record \<open>id_world\<close>, with what the code
  relies on of them as hypotheses of the theorems. The sessions table is a list of rows; a statement
  on it fails with \<open>iw_fault\<close>.
\<close>

record Session =
  se_ID :: string
  se_Subject :: string
  se_DisplayName :: string
  se_Role :: string
  se_RefreshToken :: string
  se_ExpiresAt :: int

text \<open>What the provider verified: the claims of an ID token.\<close>

record claims =
  cl_Subject :: string
  cl_PreferredUsername :: string
  cl_Name :: string
  cl_Groups :: "string list"

record token =
  tk_refresh :: string
  tk_id_token :: "string option"

record id_world =
  iw_now :: int
  iw_sha :: "string \<Rightarrow> string"
  iw_cipher :: "string \<Rightarrow> gerr option"
  iw_nonce :: "string res"
  iw_seal :: "string \<Rightarrow> string \<Rightarrow> string \<Rightarrow> string"
  iw_open :: "string \<Rightarrow> string \<Rightarrow> string \<Rightarrow> string res"
  iw_b64 :: "string \<Rightarrow> string"
  iw_unb64 :: "string \<Rightarrow> string res"
  iw_exchange :: "string \<Rightarrow> token res"
  iw_verify :: "string \<Rightarrow> string res"
  iw_claims :: "string \<Rightarrow> claims res"
  iw_fault :: "nat \<Rightarrow> gerr option"
  iw_session_id :: string
  iw_state :: string

section \<open>\<open>crypto.go\<close>\<close>

definition nonceSize :: nat where "nonceSize = 12"

definition newGCM :: "id_world \<Rightarrow> string \<Rightarrow> unit res" where
  "newGCM w key =
     (if length key \<noteq> 32 then Inl (Plain (''encryption key must be exactly 32 bytes, got '' @ show_nat (length key)))
      else case iw_cipher w key of Some e \<Rightarrow> Inl (Wrap ''create cipher: '' e []) | None \<Rightarrow> Inr ())"

definition encryptRefreshToken :: "id_world \<Rightarrow> string \<Rightarrow> string \<Rightarrow> string res" where
  "encryptRefreshToken w key plain =
     (case newGCM w key of
        Inl e \<Rightarrow> Inl e
      | Inr _ \<Rightarrow> (case iw_nonce w of
                    Inl e \<Rightarrow> Inl (Wrap ''generate nonce: '' e [])
                  | Inr nonce \<Rightarrow> Inr (iw_b64 w (nonce @ iw_seal w key nonce plain))))"

definition decryptRefreshToken :: "id_world \<Rightarrow> string \<Rightarrow> string \<Rightarrow> string res" where
  "decryptRefreshToken w key enc =
     (case newGCM w key of
        Inl e \<Rightarrow> Inl e
      | Inr _ \<Rightarrow>
          (case iw_unb64 w enc of
             Inl e \<Rightarrow> Inl (Wrap ''decode base64: '' e [])
           | Inr raw \<Rightarrow>
               if length raw < nonceSize then Inl (Plain ''ciphertext too short'')
               else (case iw_open w key (take nonceSize raw) (drop nonceSize raw) of
                       Inl e \<Rightarrow> Inl (Wrap ''decrypt (wrong key or tampered data): '' e [])
                     | Inr p \<Rightarrow> Inr p)))"

section \<open>Claims and roles\<close>

fun in_groups :: "string \<Rightarrow> string list \<Rightarrow> bool" where
  "in_groups admin [] = False"
| "in_groups admin (g # gs) = (g = CHR ''/'' # admin \<or> g = admin \<or> in_groups admin gs)"

definition roleForGroups :: "string list \<Rightarrow> string \<Rightarrow> string" where
  "roleForGroups groups admin = (if in_groups admin groups then RoleAdmin else RoleViewer)"

definition verifyAndExtract :: "id_world \<Rightarrow> string \<Rightarrow> token \<Rightarrow> Identity res" where
  "verifyAndExtract w admin t =
     (case tk_id_token t of
        None \<Rightarrow> Inl (Plain ''token response missing id_token'')
      | Some raw \<Rightarrow>
          (case iw_verify w raw of
             Inl e \<Rightarrow> Inl (Wrap ''verify id_token: '' e [])
           | Inr idt \<Rightarrow>
               (case iw_claims w idt of
                  Inl e \<Rightarrow> Inl (Wrap ''parse claims: '' e [])
                | Inr c \<Rightarrow> Inr \<lparr>id_Subject = cl_Subject c,
                    id_DisplayName = (if cl_Name c = [] then cl_PreferredUsername c else cl_Name c),
                    id_Role = roleForGroups (cl_Groups c) admin\<rparr>)))"

definition Refresh :: "id_world \<Rightarrow> string \<Rightarrow> string \<Rightarrow> (Identity \<times> string) res" where
  "Refresh w admin old =
     (case iw_exchange w old of
        Inl e \<Rightarrow> Inl (Wrap ''refresh token exchange: '' e [])
      | Inr t \<Rightarrow> (case verifyAndExtract w admin t of
                    Inl e \<Rightarrow> Inl e
                  | Inr i \<Rightarrow> Inr (i, if tk_refresh t = [] then old else tk_refresh t)))"

section \<open>\<open>oidc_provider.go\<close>\<close>

definition sessionRefreshInterval :: int where "sessionRefreshInterval = 15 * 60 * second"

definition del_session :: "id_world \<Rightarrow> nat \<Rightarrow> string \<Rightarrow> Session list \<Rightarrow> Session list" where
  "del_session w i k ss = (if iw_fault w i = None then filter (\<lambda>s. se_ID s \<noteq> k) ss else ss)"

text \<open>\<open>Save\<close> writes the row under its primary key, or inserts it when there is none.\<close>

definition save_session :: "Session \<Rightarrow> Session list \<Rightarrow> Session list" where
  "save_session s ss =
     (if se_ID s \<in> set (map se_ID ss) then map (\<lambda>r. if se_ID r = se_ID s then s else r) ss else ss @ [s])"

definition auth_session :: "id_world \<Rightarrow> string \<Rightarrow> string \<Rightarrow> string option \<Rightarrow> Session list \<Rightarrow> Identity res \<times> Session list" where
  "auth_session w key admin cookie ss =
     (case cookie of
        None \<Rightarrow> (Inl (Plain ''no session cookie''), ss)
      | Some raw \<Rightarrow>
          (case (if iw_fault w 0 = None then first_row se_ID (\<lambda>s. se_ID s = iw_sha w raw) ss else Inl (the (iw_fault w 0))) of
             Inl e \<Rightarrow> (Inl (Plain ''no such session''), ss)
           | Inr s \<Rightarrow>
               if iw_now w < se_ExpiresAt s
               then (Inr \<lparr>id_Subject = se_Subject s, id_DisplayName = se_DisplayName s, id_Role = se_Role s\<rparr>, ss)
               else
                 (case decryptRefreshToken w key (se_RefreshToken s) of
                    Inl e \<Rightarrow> (Inl (Wrap ''decrypt stored refresh token: '' e []), del_session w 1 (se_ID s) ss)
                  | Inr old \<Rightarrow>
                      (case Refresh w admin old of
                         Inl e \<Rightarrow> (Inl (Plain (''session refresh failed: '' @ err_text e)), del_session w 1 (se_ID s) ss)
                       | Inr (i, fresh) \<Rightarrow>
                           (case encryptRefreshToken w key fresh of
                              Inl e \<Rightarrow> (Inl (Wrap ''encrypt refreshed token: '' e []), ss)
                            | Inr enc \<Rightarrow>
                                (case iw_fault w 1 of
                                   Some e \<Rightarrow> (Inl e, ss)
                                 | None \<Rightarrow> (Inr i, save_session (s\<lparr>se_Subject := id_Subject i, se_DisplayName := id_DisplayName i,
                                     se_Role := id_Role i, se_RefreshToken := enc, se_ExpiresAt := iw_now w + sessionRefreshInterval\<rparr>) ss)))))))"

section \<open>\<open>oidc_handlers.go\<close>\<close>

datatype cookie = SetCookie string string int | DropCookie string

definition oauthStateCookieName :: string where "oauthStateCookieName = ''executor_oauth_state''"
definition SessionCookieName :: string where "SessionCookieName = ''executor_session''"

definition loginHandler :: "id_world \<Rightarrow> (string \<Rightarrow> string) \<Rightarrow> (nat \<times> rest_body) \<times> cookie list" where
  "loginHandler w authURL = ((302, BRedirect (authURL (iw_state w))), [SetCookie oauthStateCookieName (iw_state w) 300])"

definition callbackHandler :: "id_world \<Rightarrow> string \<Rightarrow> string \<Rightarrow> string option \<Rightarrow> string \<Rightarrow> string \<Rightarrow> Session list \<Rightarrow>
    ((nat \<times> rest_body) \<times> cookie list) \<times> Session list" where
  "callbackHandler w key admin stateCookie state code ss =
     (if stateCookie \<noteq> Some state then (((400, BText ''invalid OAuth state''), []), ss)
      else case iw_exchange w code of
        Inl e \<Rightarrow> (((502, BText ''token exchange failed''), []), ss)
      | Inr t \<Rightarrow>
          (case verifyAndExtract w admin t of
             Inl e \<Rightarrow> (((502, BText ''identity verification failed''), []), ss)
           | Inr i \<Rightarrow>
               (case encryptRefreshToken w key (tk_refresh t) of
                  Inl e \<Rightarrow> (((500, BText ''internal error''), []), ss)
                | Inr enc \<Rightarrow>
                    (let s = \<lparr>se_ID = iw_sha w (iw_session_id w), se_Subject = id_Subject i, se_DisplayName = id_DisplayName i,
                              se_Role = id_Role i, se_RefreshToken = enc, se_ExpiresAt = iw_now w + sessionRefreshInterval\<rparr>
                     in if iw_fault w 0 \<noteq> None \<or> se_ID s \<in> set (map se_ID ss) then (((500, BText ''internal error''), []), ss)
                        else (((302, BRedirect ''/''), [SetCookie SessionCookieName (iw_session_id w) 0]), ss @ [s])))))"

definition logoutHandler :: "id_world \<Rightarrow> string option \<Rightarrow> Session list \<Rightarrow> ((nat \<times> rest_body) \<times> cookie list) \<times> Session list" where
  "logoutHandler w cookie ss =
     (((302, BRedirect ''/''), [DropCookie SessionCookieName]),
      (case cookie of None \<Rightarrow> ss | Some raw \<Rightarrow> del_session w 0 (iw_sha w raw) ss))"

end
