(* ===== verification/Human_Props.thy ===== *)
theory Human_Props imports Human_Auth begin

text \<open>
  What a session is worth: the role an identity is given is the provider's own answer, at most
  fifteen minutes old; a refused refresh or a logout ends the session for good.
\<close>

lemma roleForGroups_admin: "roleForGroups gs admin = RoleAdmin \<longleftrightarrow> admin \<in> set gs \<or> (CHR ''/'' # admin) \<in> set gs"
proof -
  have "in_groups admin gs \<longleftrightarrow> admin \<in> set gs \<or> (CHR ''/'' # admin) \<in> set gs" by (induction gs) auto
  then show ?thesis by (simp add: roleForGroups_def RoleAdmin_def RoleViewer_def)
qed

lemma decrypt_encrypt:
  assumes "encryptRefreshToken w key p = Inr e" "\<And>x. iw_unb64 w (iw_b64 w x) = Inr x"
    and "\<And>n. iw_nonce w = Inr n \<Longrightarrow> length n = nonceSize" "\<And>n p. iw_open w key n (iw_seal w key n p) = Inr p"
  shows "decryptRefreshToken w key e = Inr p"
  using assms by (auto simp: encryptRefreshToken_def decryptRefreshToken_def split: sum.splits)

section \<open>Sessions over time\<close>

definition identity_in :: "Session \<Rightarrow> Identity" where
  "identity_in s = \<lparr>id_Subject = se_Subject s, id_DisplayName = se_DisplayName s, id_Role = se_Role s\<rparr>"

definition claimed :: "string \<Rightarrow> claims \<Rightarrow> Identity" where
  "claimed admin c = \<lparr>id_Subject = cl_Subject c, id_DisplayName = (if cl_Name c = [] then cl_PreferredUsername c else cl_Name c),
     id_Role = roleForGroups (cl_Groups c) admin\<rparr>"

text \<open>The claims the provider signed in the token \<open>t\<close>.\<close>

definition verified_claims :: "id_world \<Rightarrow> token \<Rightarrow> claims \<Rightarrow> bool" where
  "verified_claims w t c \<longleftrightarrow> (\<exists>raw idt. tk_id_token t = Some raw \<and> iw_verify w raw = Inr idt \<and> iw_claims w idt = Inr c)"

lemma verifyAndExtract_claims: "verifyAndExtract w admin t = Inr i \<longleftrightarrow> (\<exists>c. verified_claims w t c \<and> i = claimed admin c)"
  by (auto simp: verifyAndExtract_def verified_claims_def claimed_def split: option.splits sum.splits)

lemma Refresh_claims:
  "Refresh w admin old = Inr (i, fresh) \<Longrightarrow> \<exists>t c. iw_exchange w old = Inr t \<and> verified_claims w t c \<and> i = claimed admin c"
  by (auto simp: Refresh_def verifyAndExtract_claims split: sum.splits)

text \<open>The clock, the table, and the claims the provider signed, when, and for which session.\<close>

inductive logins :: "string \<Rightarrow> string \<Rightarrow> int \<Rightarrow> Session list \<Rightarrow> (int \<times> string \<times> claims) list \<Rightarrow> bool" for admin key where
  empty: "logins admin key t [] []"
| later: "logins admin key t ss l \<Longrightarrow> t \<le> t' \<Longrightarrow> logins admin key t' ss l"
| login: "logins admin key t ss l \<Longrightarrow> iw_now w = t \<Longrightarrow> iw_exchange w code = Inr tok \<Longrightarrow> verified_claims w tok c \<Longrightarrow>
    callbackHandler w key admin (Some state) state code ss = (r, ss') \<Longrightarrow>
    logins admin key t ss' (l @ [(t, iw_sha w (iw_session_id w), c)])"
| refresh: "logins admin key t ss l \<Longrightarrow> iw_now w = t \<Longrightarrow> iw_exchange w old = Inr tok \<Longrightarrow> verified_claims w tok c \<Longrightarrow>
    auth_session w key admin (Some raw) ss = (Inr (claimed admin c), ss') \<Longrightarrow> logins admin key t ss' (l @ [(t, iw_sha w raw, c)])"
| refused: "logins admin key t ss l \<Longrightarrow> iw_now w = t \<Longrightarrow> auth_session w key admin cookie ss = (Inl e, ss') \<Longrightarrow> logins admin key t ss' l"
| logout: "logins admin key t ss l \<Longrightarrow> logoutHandler w cookie ss = (r, ss') \<Longrightarrow> logins admin key t ss' l"

definition backed :: "string \<Rightarrow> int \<Rightarrow> (int \<times> string \<times> claims) list \<Rightarrow> Session \<Rightarrow> bool" where
  "backed admin t l s \<longleftrightarrow>
     (\<exists>v \<le> t. se_ExpiresAt s = v + sessionRefreshInterval \<and> (\<exists>c. (v, se_ID s, c) \<in> set l \<and> identity_in s = claimed admin c))"

lemma backed_more: "backed admin t l s \<Longrightarrow> t \<le> t' \<Longrightarrow> set l \<subseteq> set l' \<Longrightarrow> backed admin t' l' s"
  unfolding backed_def by (meson order_trans subsetD)

lemma backed_append:
  "backed admin t l s \<or> (se_ID s = k \<and> identity_in s = claimed admin c \<and> se_ExpiresAt s = t + sessionRefreshInterval) \<Longrightarrow>
   backed admin t (l @ [(t, k, c)]) s"
  using backed_more [of admin t l s t "l @ [(t, k, c)]"] by (auto simp: backed_def)

lemma del_session_sub: "set (del_session w i k ss) \<subseteq> set ss"
  by (auto simp: del_session_def)

lemma auth_session_table:
  assumes "auth_session w key admin (Some raw) ss = (r, ss')"
  shows "(\<exists>s\<in>set ss. se_ID s = iw_sha w raw \<and> r = Inr (identity_in s) \<and> iw_now w < se_ExpiresAt s \<and> ss' = ss) \<or>
    (\<exists>i old fresh. r = Inr i \<and> Refresh w admin old = Inr (i, fresh) \<and> (\<forall>s'\<in>set ss'. s' \<in> set ss \<or>
       (se_ID s' = iw_sha w raw \<and> identity_in s' = i \<and> se_ExpiresAt s' = iw_now w + sessionRefreshInterval))) \<or>
    (\<exists>e. r = Inl e \<and> set ss' \<subseteq> set ss)"
proof (cases "iw_fault w 0 = None \<and> (\<exists>s. first_row se_ID (\<lambda>s. se_ID s = iw_sha w raw) ss = Inr s)")
  case False
  then have "\<exists>e. r = Inl e \<and> set ss' \<subseteq> set ss"
    using assms by (cases "iw_fault w 0"; cases "first_row se_ID (\<lambda>s. se_ID s = iw_sha w raw) ss") (auto simp: auth_session_def)
  then show ?thesis by blast
next
  case True
  then obtain s where s: "first_row se_ID (\<lambda>s. se_ID s = iw_sha w raw) ss = Inr s" "iw_fault w 0 = None" by blast
  from first_row_Inr [OF s(1)] have m: "s \<in> set ss" "se_ID s = iw_sha w raw" by simp_all
  show ?thesis
  proof (cases "iw_now w < se_ExpiresAt s")
    case True
    with assms s have "r = Inr (identity_in s)" "ss' = ss" by (simp_all add: auth_session_def identity_in_def)
    with m True show ?thesis by blast
  next
    case False
    note d = del_session_sub [of w 1 "se_ID s" ss]
    show ?thesis
    proof (cases "decryptRefreshToken w key (se_RefreshToken s)")
      case (Inl e)
      with assms s False d show ?thesis by (auto simp: auth_session_def)
    next
      case old: (Inr old)
      show ?thesis
      proof (cases "Refresh w admin old")
        case (Inl e)
        with assms s False old d show ?thesis by (auto simp: auth_session_def)
      next
        case (Inr x)
        obtain i fresh where x: "x = (i, fresh)" by fastforce
        let ?new = "\<lambda>enc. s\<lparr>se_Subject := id_Subject i, se_DisplayName := id_DisplayName i, se_Role := id_Role i,
            se_RefreshToken := enc, se_ExpiresAt := iw_now w + sessionRefreshInterval\<rparr>"
        have "(\<exists>e. r = Inl e \<and> ss' = ss) \<or> (\<exists>enc. r = Inr i \<and> ss' = save_session (?new enc) ss)"
          using assms s False old Inr x by (auto simp: auth_session_def split: sum.splits option.splits)
        moreover have "s' \<in> set ss \<or> s' = ?new enc" if "s' \<in> set (save_session (?new enc) ss)" for s' enc
          using that by (auto simp: save_session_def split: if_splits)
        moreover have "se_ID (?new enc) = iw_sha w raw" "identity_in (?new enc) = i" for enc
          by (simp_all add: m(2) identity_in_def)
        ultimately show ?thesis using Inr x by fastforce
      qed
    qed
  qed
qed

text \<open>A callback whose code the provider answered makes at most the session its claims name.\<close>

lemma callback_table:
  assumes "iw_exchange w code = Inr tok" "verified_claims w tok c" "callbackHandler w key admin (Some state) state code ss = (r, ss')"
    and "s \<in> set ss'"
  shows "s \<in> set ss \<or> (se_ID s = iw_sha w (iw_session_id w) \<and> identity_in s = claimed admin c \<and> se_ExpiresAt s = iw_now w + sessionRefreshInterval)"
proof -
  have "verifyAndExtract w admin tok = Inr (claimed admin c)" using assms(2) verifyAndExtract_claims by blast
  with assms(1,3,4) show ?thesis by (auto simp: callbackHandler_def identity_in_def Let_def split: sum.splits if_splits)
qed

lemma sessions_backed: "logins admin key t ss l \<Longrightarrow> s \<in> set ss \<Longrightarrow> backed admin t l s"
proof (induction arbitrary: s rule: logins.induct)
  case (later t ss l t')
  from later.IH [OF later.prems] later.hyps(2) show ?case by (rule backed_more) simp
next
  case (login t ss l w code tok c state r ss')
  from callback_table [OF login.hyps(3-5) login.prems] login.IH login.hyps(2) show ?case by (intro backed_append) auto
next
  case (refresh t ss l w old tok c raw ss')
  from auth_session_table [OF refresh.hyps(5)] refresh.prems
  have "s \<in> set ss \<or> (se_ID s = iw_sha w raw \<and> identity_in s = claimed admin c \<and> se_ExpiresAt s = iw_now w + sessionRefreshInterval)" by auto
  then show ?case using refresh.IH refresh.hyps(2) by (intro backed_append) auto
next
  case (refused t ss l w cookie e ss')
  then have "s \<in> set ss" using auth_session_table [of w key admin _ ss "Inl e" ss']
    by (cases cookie) (auto simp: auth_session_def [of w key admin None])
  then show ?case by (rule refused.IH)
next
  case (logout t ss l w cookie r ss')
  then have "s \<in> set ss" using subsetD [OF del_session_sub [of w 0 _ ss]] by (auto simp: logoutHandler_def split: option.splits)
  then show ?case by (rule logout.IH)
qed simp

text \<open>The claims an identity rests on at the time of a request: signed for that very session less
  than fifteen minutes ago, or being signed now.\<close>

definition rests_on :: "string \<Rightarrow> id_world \<Rightarrow> (int \<times> string \<times> claims) list \<Rightarrow> string \<Rightarrow> claims \<Rightarrow> bool" where
  "rests_on admin w l raw c \<longleftrightarrow>
     (\<exists>v. iw_now w - 15 * 60 * second < v \<and> v \<le> iw_now w \<and> (v, iw_sha w raw, c) \<in> set l) \<or>
     (\<exists>old t. iw_exchange w old = Inr t \<and> verified_claims w t c)"

text \<open>A role is never more than fifteen minutes old, whatever logins, refreshes, refusals and logouts
  came before.\<close>

theorem identity_is_fresh:
  assumes "logins admin key (iw_now w) ss l" "auth_session w key admin cookie ss = (Inr i, ss')"
  shows "\<exists>raw c. cookie = Some raw \<and> i = claimed admin c \<and> rests_on admin w l raw c"
proof -
  obtain raw where raw: "cookie = Some raw" using assms(2) by (cases cookie) (auto simp: auth_session_def)
  from auth_session_table [OF assms(2) [unfolded raw]] show ?thesis
  proof (elim disjE bexE exE conjE)
    fix s assume s: "s \<in> set ss" "se_ID s = iw_sha w raw" "Inr i = Inr (identity_in s)" "iw_now w < se_ExpiresAt s"
    from sessions_backed [OF assms(1) s(1)] obtain v c where v: "v \<le> iw_now w" "se_ExpiresAt s = v + sessionRefreshInterval"
      "(v, se_ID s, c) \<in> set l" "identity_in s = claimed admin c" unfolding backed_def by blast
    have "iw_now w - 15 * 60 * second < v" using v(2) s(4) by (simp add: sessionRefreshInterval_def)
    with v s(2) have "rests_on admin w l raw c" unfolding rests_on_def by auto
    with raw s(3) v(4) show ?thesis by auto
  next
    fix j old fresh assume "Inr i = Inr j" "Refresh w admin old = Inr (j, fresh)"
    with Refresh_claims [of w admin old i fresh] raw show ?thesis by (auto simp: rests_on_def)
  qed auto
qed

definition sample_id_world :: id_world where
  "sample_id_world = \<lparr>iw_now = 0, iw_sha = (\<lambda>s. s), iw_cipher = (\<lambda>_. None), iw_nonce = Inr (replicate 12 (CHR ''n'')),
     iw_seal = (\<lambda>k n p. p), iw_open = (\<lambda>k n c. Inr c), iw_b64 = (\<lambda>s. s), iw_unb64 = Inr,
     iw_exchange = (\<lambda>c. Inr \<lparr>tk_refresh = ''r'', tk_id_token = Some ''id''\<rparr>), iw_verify = Inr,
     iw_claims = (\<lambda>_. Inr \<lparr>cl_Subject = ''s'', cl_PreferredUsername = ''ada'', cl_Name = [], cl_Groups = [''/admins'']\<rparr>),
     iw_fault = (\<lambda>_. None), iw_session_id = ''sid'', iw_state = ''st''\<rparr>"

text \<open>A table with one session, of an administrator who has just logged in.\<close>

lemma sample_login:
  "\<exists>ss. logins ''admins'' (replicate 32 (CHR ''k'')) 0 ss [(0, ''sid'', \<lparr>cl_Subject = ''s'', cl_PreferredUsername = ''ada'', cl_Name = [],
       cl_Groups = [''/admins'']\<rparr>)] \<and>
     auth_session sample_id_world (replicate 32 (CHR ''k'')) ''admins'' (Some ''sid'') ss =
       (Inr \<lparr>id_Subject = ''s'', id_DisplayName = ''ada'', id_Role = RoleAdmin\<rparr>, ss)"
proof -
  let ?w = sample_id_world and ?k = "replicate 32 (CHR ''k'')" and ?t = "\<lparr>tk_refresh = ''r'', tk_id_token = Some ''id''\<rparr>"
  let ?i = "\<lparr>id_Subject = ''s'', id_DisplayName = ''ada'', id_Role = RoleAdmin\<rparr>"
  let ?c = "\<lparr>cl_Subject = ''s'', cl_PreferredUsername = ''ada'', cl_Name = [], cl_Groups = [''/admins'']\<rparr>"
  let ?cb = "callbackHandler ?w ?k ''admins'' (Some ''st'') ''st'' ''code'' []"
  obtain r ss where cb: "?cb = (r, ss)" by fastforce
  have e: "iw_exchange ?w ''code'' = Inr ?t" "iw_now ?w = 0" by (simp_all add: sample_id_world_def)
  have v: "verified_claims ?w ?t ?c" by (simp add: verified_claims_def sample_id_world_def)
  from logins.login [OF logins.empty e(2,1) v cb] have l: "logins ''admins'' ?k 0 ss ([] @ [(0, iw_sha ?w (iw_session_id ?w), ?c)])" .
  have "auth_session ?w ?k ''admins'' (Some ''sid'') (snd ?cb) = (Inr ?i, snd ?cb)" by code_simp
  then have "auth_session ?w ?k ''admins'' (Some ''sid'') ss = (Inr ?i, ss)" by (simp add: cb)
  with l show ?thesis by (intro exI [of _ ss]) (simp add: sample_id_world_def)
qed

end
