(* ===== verification/Rest_Props.thy ===== *)
theory Rest_Props imports Rest_Api begin

text \<open>
  What the operator's interface promises: an emergency stop that holds from the moment it is
  answered, undone only by a release, and nothing but an administrator's request that changes
  agents, tokens, blocks or what runs.
\<close>

section \<open>The emergency stop\<close>

lemma on_db_simps [simp]: "fst (on_db sv x) = fst x" "snd (on_db sv x) = sv\<lparr>sv_db := snd x\<rparr>"
  by (simp_all add: on_db_def)

lemma killed_keeps:
  assumes "leaves_blocks w" "blocked k d"
  shows "blocked k (snd (RecordKilledProcesses w i n d))"
proof -
  have b: "blocked k (snd (update_blocks P (\<lambda>b. b\<lparr>bk_Killed := n\<rparr>) d'))" if "blocked k d'" for P d'
  proof -
    from that obtain b where b: "b \<in> set (db_blocks d')" "active_for k b" by (auto simp: blocked_def filter_empty_conv)
    let ?f = "\<lambda>b. if P b then b\<lparr>bk_Killed := n\<rparr> else b"
    have "?f b \<in> set (db_blocks (snd (update_blocks P (\<lambda>b. b\<lparr>bk_Killed := n\<rparr>) d')))" using b(1) by auto
    moreover have "active_for k (?f b)" using b(2) by (simp add: active_for_def)
    ultimately show ?thesis by (auto simp only: blocked_def filter_empty_conv)
  qed
  have "blocked k (dw_others w 0 d)" using assms(2) leaves_blocksD(2) [OF assms(1)] by (simp add: blocked_def)
  then show ?thesis using b by (auto simp: RecordKilledProcesses_def stmt_def Let_def split_beta split: option.split)
qed

lemma after_block_keeps:
  assumes "leaves_blocks (rw_db w 2)" "blocked k' (sv_db sv)"
  shows "blocked k' (sv_db (snd (after_block w admin k reason b sv)))"
proof -
  have a: "sv_db (snd (announce e x s)) = sv_db s" for e x s by (simp add: announce_def split: option.split)
  show ?thesis using assms(2) killed_keeps [OF assms]
    by (simp add: after_block_def split_beta Let_def a split: option.split)
qed

lemma BlockSandbox_blocks:
  assumes "BlockSandbox w k admin reason d = (Inr b, d')"
  shows "blocked k d'"
proof -
  obtain m d1 where m: "stmt w 0 (insert_block w (new_block w k admin reason)) d = (m, d1)" by fastforce
  with assms have "m = Inr ()" "d' = d1"
    by (auto simp: BlockSandbox_def Let_def split_beta split: if_splits sum.splits option.splits)
  with m show ?thesis
    by (auto simp: stmt_def Let_def insert_block_def blocked_def active_for_def new_block_def split: option.splits if_splits)
qed

text \<open>What the handlers make of the database is made of statements.\<close>

lemma BlockSandbox_then: "peers w \<Longrightarrow> BlockSandbox w k admin reason d = (r, d') \<Longrightarrow> db_reach d d'"
proof -
  assume p: "peers w" and b: "BlockSandbox w k admin reason d = (r, d')"
  have i: "db_reach x (snd (insert_block w (new_block w k admin reason) x))" for x
    by (rule db_reach_one [OF db_stmt.block]) (simp_all add: new_block_def)
  obtain m d1 where m: "stmt w 0 (insert_block w (new_block w k admin reason)) d = (m, d1)" by fastforce
  from stmt_then [OF p m i] have d1: "db_reach d d1" .
  have "db_reach d1 (snd (ActiveSandboxBlock w 1 k d1))"
    by (auto simp: ActiveSandboxBlock_def split_beta Let_def intro: select_reach(1) [OF p])
  then show "db_reach d d'"
    using b m d1 db_reach_trans by (auto simp: BlockSandbox_def Let_def split_beta split: if_splits sum.splits intro: db_reach.here)
qed

lemma killed_reach: "peers w \<Longrightarrow> db_reach d (snd (RecordKilledProcesses w i n d))"
proof -
  assume p: "peers w"
  have "db_reach x (snd (update_blocks (\<lambda>b. bk_ID b = i) (\<lambda>b. b\<lparr>bk_Killed := n\<rparr>) x))" for x
    by (rule db_reach_one [OF db_stmt.killed])
  from stmt_reach [OF p this] show ?thesis by (simp add: RecordKilledProcesses_def split_beta Let_def)
qed

lemma after_block_reach:
  assumes "peers (rw_db w 2)" shows "db_reach (sv_db sv) (sv_db (snd (after_block w admin k reason b sv)))"
proof -
  have a: "sv_db (snd (announce e x s)) = sv_db s" for e x s by (simp add: announce_def split: option.split)
  show ?thesis using killed_reach [OF assms]
    by (auto simp: after_block_def split_beta Let_def a db_reach.here split: option.split)
qed

lemma leaves_peers: "leaves_blocks w \<Longrightarrow> peers w"
  by (simp add: leaves_blocks_def peers_def)

text \<open>C31: the emergency stop holds from the moment it is answered. When a stop is answered with 201, or
  hangs because the worker does not answer the kill, the block is already in force, whatever became
  of the kill: every tool call of the agent from then on, by any replica, is refused and reaches no
  worker.\<close>

theorem stopped_agent_is_stopped:
  assumes "db_ok (sv_db sv)" "\<And>i. leaves_blocks (rw_db w i)"
    and "blockSandboxHandler w ctx (ac_ID a) (Some reason) sv = (ans, sv')" "ans = None \<or> ans = Some (201, body)"
    and "leaves_blocks (tw_start v)" "leaves_blocks (tw_gate v)" "real_faults (tw_gate v)"
    and "call_tool x v (Some a) inp h (Some (sv_db sv')) = (ret, h', db')"
  shows "h' = h \<and> (\<exists>out e. ret = Some (None, out, Some e) \<and>
    (path_given inp \<and> dw_fault (tw_gate v) 0 = None \<longrightarrow> errors_is e ErrSandboxBlocked))"
proof -
  obtain admin where ad: "human_ActorFromContext ctx = Some admin"
    using assms(3,4) by (cases "human_ActorFromContext ctx") (auto simp: blockSandboxHandler_def writeError_def)
  obtain g sv1 where g: "on_db sv (GetActorByID (rw_db w 0) 0 (ac_ID a) (sv_db sv)) = (g, sv1)" by fastforce
  have p: "peers (rw_db w i)" for i by (rule leaves_peers [OF assms(2)])
  have r1: "db_reach (sv_db sv) (sv_db sv1)"
    using GetActorByID_then [OF p, of 0 0 "ac_ID a" "sv_db sv"] g by (cases "GetActorByID (rw_db w 0) 0 (ac_ID a) (sv_db sv)") (auto simp: on_db_def)
  obtain b sv2 where b: "on_db sv1 (BlockSandbox (rw_db w 1) (ac_ID a) admin (TrimSpace reason) (sv_db sv1)) = (b, sv2)" by fastforce
  obtain ag where ag: "g = Inr ag" using assms(3,4) g ad by (cases g) (auto simp: blockSandboxHandler_def writeError_def split: if_splits)
  obtain bl where bl: "b = Inr bl" using assms(3,4) g ag b ad
    by (cases b) (auto simp: blockSandboxHandler_def writeError_def split: if_splits)
  have B: "BlockSandbox (rw_db w 1) (ac_ID a) admin (TrimSpace reason) (sv_db sv1) = (Inr bl, sv_db sv2)"
    using b bl by (cases "BlockSandbox (rw_db w 1) (ac_ID a) admin (TrimSpace reason) (sv_db sv1)") (auto simp: on_db_def)
  have sv': "sv' = snd (after_block w admin (ac_ID a) (TrimSpace reason) bl sv2)"
    using assms(3) g ag b bl ad by (simp add: blockSandboxHandler_def)
  have "db_reach (sv_db sv) (sv_db sv')"
    unfolding sv' using r1 BlockSandbox_then [OF p B] after_block_reach [OF p] db_reach_trans by blast
  then have ok: "db_ok (sv_db sv')" using assms(1) by (rule db_ok_reach)
  have bk: "blocked (ac_ID a) (sv_db sv')" unfolding sv' by (rule after_block_keeps [OF assms(2) BlockSandbox_blocks [OF B]])
  show ?thesis by (rule blocked_tool [OF ok bk assms(5-8)])
qed

definition quiet_rest_world :: rest_world where
  "quiet_rest_world = \<lparr>rw_auth = quiet_world, rw_db = (\<lambda>i. quiet_world), rw_sha = (\<lambda>s. s), rw_others = (\<lambda>i h. h),
     rw_werr = (\<lambda>i. None), rw_ctx = None, rw_now = 9\<rparr>"

definition sample_server :: server where
  "sample_server = \<lparr>sv_db = sample_db, sv_hub = newHub (NewBroadcaster 4096)\<rparr>"

lemma stopped_agent_is_stopped_witness:
  "\<exists>body sv' out e db'. blockSandboxHandler quiet_rest_world (Some (sample_admin, RoleAdmin)) ''a'' (Some '' loop '') sample_server = (Some (201, body), sv') \<and>
     call_tool idle_hub quiet_tool_world (Some sample_agent) SandboxStatusInput (sv_hub sv') (Some (sv_db sv')) =
       (Some (None, out, Some e), sv_hub sv', db') \<and> errors_is e ErrSandboxBlocked"
proof -
  let ?x = "blockSandboxHandler quiet_rest_world (Some (sample_admin, RoleAdmin)) ''a'' (Some '' loop '') sample_server"
  have i: "ac_ID sample_agent = ''a''" by (simp add: sample_agent_def)
  have "(case fst ?x of Some (s, b) \<Rightarrow> s = 201 | None \<Rightarrow> False)" by code_simp
  then obtain body sv' where x: "?x = (Some (201, body), sv')" by (cases ?x) (auto split: option.splits)
  let ?c = "call_tool idle_hub quiet_tool_world (Some sample_agent) SandboxStatusInput (sv_hub sv') (Some (sv_db sv'))"
  obtain ret h' db' where c: "?c = (ret, h', db')" by (metis prod.collapse)
  have d: "db_ok (sv_db sample_server)" using sample_db_ok by (simp add: sample_server_def)
  have w: "leaves_blocks (rw_db quiet_rest_world i)" for i using quiet_tool_worlds by (simp add: quiet_rest_world_def)
  have t: "leaves_blocks (tw_start quiet_tool_world)" "leaves_blocks (tw_gate quiet_tool_world)" "real_faults (tw_gate quiet_tool_world)"
    "dw_fault (tw_gate quiet_tool_world) 0 = None" using quiet_tool_worlds by (simp_all add: quiet_tool_world_def quiet_world_def)
  from stopped_agent_is_stopped [OF d w x [folded i] disjI2 [OF refl] t(1-3) c] t(4) obtain out e where
    "h' = sv_hub sv'" "ret = Some (None, out, Some e)" "errors_is e ErrSandboxBlocked" by auto
  with x c show ?thesis by (intro exI [of _ body] exI [of _ sv'] exI [of _ out] exI [of _ e] exI [of _ db']) simp
qed

section \<open>The release\<close>

definition solo :: "db_world \<Rightarrow> bool" where
  "solo w \<longleftrightarrow> (\<forall>i d. dw_others w i d = d)"

lemma solo_reads [simp]:
  "solo w \<Longrightarrow> snd (select_first w i q d) = d" "solo w \<Longrightarrow> snd (select_rows w i q' d) = d"
  by (auto simp: select_first_def select_rows_def stmt_def solo_def Let_def split: option.split)

lemma released_map:
  assumes "\<forall>b\<in>set bs. bk_ActiveKey b = (if bk_ReleasedAt b = None then Some (bk_ActorID b) else None)"
  shows "filter (active_for j) (map (\<lambda>b. if bk_ActorID b = k \<and> bk_ActiveKey b \<noteq> None
       then b\<lparr>bk_ActiveKey := None, bk_ReleasedAt := Some t, bk_ReleasedByName := n\<rparr> else b) bs) = (if j = k then [] else filter (active_for j) bs)"
  using assms by (induction bs) (auto simp: active_for_def split: if_splits)

text \<open>C32: a release undoes the stop of that agent and of no other: it is answered with 204 exactly for an
  agent that was blocked, and its next call passes the gate.\<close>

theorem release_undoes_the_stop:
  assumes "db_ok (sv_db sv)" "solo (rw_db w 0)" "quiet (rw_db w 0)"
    and "releaseSandboxHandler w ctx k sv = (Some (204, body), sv')"
    and "solo v" "quiet v" "ac_ID a = k"
  shows "blocked k (sv_db sv) \<and> \<not> blocked k (sv_db sv') \<and> (\<forall>j. j \<noteq> k \<longrightarrow> blocked j (sv_db sv') = blocked j (sv_db sv)) \<and>
    fst (agentForCall t v (Some a) (Some (sv_db sv'))) = Inr k"
proof -
  obtain admin where ad: "human_ActorFromContext ctx = Some admin"
    using assms(4) by (cases "human_ActorFromContext ctx") (auto simp: releaseSandboxHandler_def writeError_def)
  let ?P = "\<lambda>b. bk_ActorID b = k \<and> bk_ActiveKey b \<noteq> None"
  let ?f = "\<lambda>b. b\<lparr>bk_ActiveKey := None, bk_ReleasedAt := Some (dw_now (rw_db w 0)), bk_ReleasedByName := ac_DisplayName admin\<rparr>"
  have ok: "\<forall>b\<in>set (db_blocks (sv_db sv)). bk_ActiveKey b = (if bk_ReleasedAt b = None then Some (bk_ActorID b) else None)"
    using assms(1) by (simp add: db_ok_def)
  have a: "sv_db (snd (announce e x s)) = sv_db s" for e x s by (simp add: announce_def split: option.split)
  have st: "stmt (rw_db w 0) 0 (update_blocks ?P ?f) (sv_db sv) = update_blocks ?P ?f (sv_db sv)"
    using assms(2,3) by (simp add: stmt_def solo_def quiet_def Let_def)
  have n: "filter ?P (db_blocks (sv_db sv)) \<noteq> []"
  proof
    assume "filter ?P (db_blocks (sv_db sv)) = []"
    then have "fst (ReleaseSandbox (rw_db w 0) k admin (sv_db sv)) = Some ErrNotBlocked"
      by (simp add: ReleaseSandbox_def st update_blocks_def update_rows_def Let_def del: not_None_eq)
    with assms(4) ad show False by (simp add: releaseSandboxHandler_def split_beta Let_def writeError_def ErrNotBlocked_def)
  qed
  then have r: "ReleaseSandbox (rw_db w 0) k admin (sv_db sv) = (None, snd (update_blocks ?P ?f (sv_db sv)))"
    by (simp add: ReleaseSandbox_def st update_blocks_def update_rows_def Let_def del: not_None_eq)
  have d': "sv_db sv' = snd (update_blocks ?P ?f (sv_db sv))"
    using assms(4) a [of "releasedEvent (rw_now w) k (ac_DisplayName admin)" "(204, BNone)" "sv\<lparr>sv_db := snd (update_blocks ?P ?f (sv_db sv))\<rparr>"]
    by (simp add: releaseSandboxHandler_def ad r on_db_def)
  have bl: "blocked j (sv_db sv') \<longleftrightarrow> j \<noteq> k \<and> blocked j (sv_db sv)" for j
    using released_map [OF ok, of j k] by (simp add: blocked_def d')
  have "blocked k (sv_db sv)" using n ok by (auto simp: blocked_def filter_empty_conv active_for_def split: if_splits)
  moreover have ok': "db_ok (sv_db sv')"
    using db_ok_stmt [OF db_stmt.release assms(1)] by (simp add: d' release_where_def)
  have "first_row bk_ID (\<lambda>b. bk_ActiveKey b = Some k) (db_blocks (sv_db sv')) = Inl ErrRecordNotFound"
    using bl [of k] active_row [OF ok', of _ k] by (auto simp: first_row_Inl blocked_def filter_empty_conv)
  then have "fst (agentForCall t v (Some a) (Some (sv_db sv'))) = Inr k"
    using assms(5,6,7) by (simp add: agentForCall_def ActiveSandboxBlock_def select_first_def stmt_def solo_def quiet_def Let_def ErrRecordNotFound_def)
  ultimately show ?thesis using bl by blast
qed

lemma release_undoes_the_stop_witness:
  "\<exists>d body sv'. blocked ''a'' d \<and>
     releaseSandboxHandler quiet_rest_world (Some (sample_admin, RoleAdmin)) ''a'' (sample_server\<lparr>sv_db := d\<rparr>) = (Some (204, body), sv') \<and>
     fst (agentForCall (tw_text quiet_tool_world) quiet_world (Some sample_agent) (Some (sv_db sv'))) = Inr ''a''"
proof -
  let ?d = "sample_db\<lparr>db_blocks := [new_block quiet_world ''a'' sample_admin ''loop'']\<rparr>"
  let ?sv = "sample_server\<lparr>sv_db := ?d\<rparr>"
  let ?x = "releaseSandboxHandler quiet_rest_world (Some (sample_admin, RoleAdmin)) ''a'' ?sv"
  have "(case fst ?x of Some (s, b) \<Rightarrow> s = 204 | None \<Rightarrow> False)" by code_simp
  then obtain body sv' where x: "?x = (Some (204, body), sv')" by (cases ?x) (auto split: option.splits)
  have ok: "db_ok (sv_db ?sv)" using sample_db_ok by (simp add: db_ok_def active_keys_def new_block_def)
  have w: "solo (rw_db quiet_rest_world 0)" "quiet (rw_db quiet_rest_world 0)" "solo quiet_world"
    by (simp_all add: quiet_rest_world_def solo_def) (simp_all add: quiet_world_def)
  have "ac_ID sample_agent = ''a''" by (simp add: sample_agent_def)
  from release_undoes_the_stop [OF ok w(1,2) x w(3) quiet_world_ok(2) this] x show ?thesis
    by (intro exI [of _ ?d] exI [of _ body] exI [of _ sv']) simp
qed

end
