(* ===== verification/Rest_Access.thy ===== *)
theory Rest_Access imports Rest_Props begin

text \<open>
  Who may do what over the operator's interface: without the administrator's role nothing changes
  but the caller's own row of users.
\<close>

text \<open>What a request that is not an administrator's leaves as it is.\<close>

definition same_agents :: "DB \<Rightarrow> DB \<Rightarrow> bool" where
  "same_agents d d' \<longleftrightarrow> db_creds d' = db_creds d \<and> db_blocks d' = db_blocks d \<and> db_audit d' = db_audit d \<and>
     filter (\<lambda>a. ac_Kind a = ActorKindAgent) (db_actors d') = filter (\<lambda>a. ac_Kind a = ActorKindAgent) (db_actors d)"

lemma same_agents_refl [simp]: "same_agents d d"
  by (simp add: same_agents_def)

lemma human_tx_same: "same_agents d (snd (human_tx w i s n r d))"
  by (auto simp: human_tx_def insert_identity_def insert_actor_def same_agents_def Let_def ActorKindHuman_def ActorKindAgent_def)

lemma role_same: "same_agents d (snd (update_identities P f d))"
  by (simp add: same_agents_def)

lemma stmt_same: "solo w \<Longrightarrow> same_agents d (snd (f d)) \<Longrightarrow> same_agents d (snd (stmt w i f d))"
  by (simp add: stmt_def solo_def Let_def split: option.split)

lemma named_same [simp]: "solo w \<Longrightarrow> snd (named_actor w i k d) = d"
  by (simp add: named_actor_def)

lemma GetOrCreate_same:
  assumes "solo w" shows "same_agents d (snd (GetOrCreateHumanActor w s n role d))"
proof -
  obtain f where f: "select_first w 0 (identity_of s) d = (f, d)"
    using solo_reads(1) [OF assms, of 0 "identity_of s" d] by (metis prod.collapse)
  show ?thesis
  proof (cases f)
    case (Inr u)
    obtain x d2 where x: "stmt w 1 (update_identities (\<lambda>v. ui_ActorID v = ui_ActorID u) (\<lambda>v. v\<lparr>ui_Role := role\<rparr>)) d = (x, d2)" by fastforce
    have "same_agents d (snd (stmt w 1 (update_identities (\<lambda>v. ui_ActorID v = ui_ActorID u) (\<lambda>v. v\<lparr>ui_Role := role\<rparr>)) d))"
      by (rule stmt_same [OF assms], rule role_same)
    then have "same_agents d d2" by (simp only: x snd_conv)
    then show ?thesis using f Inr x assms by (auto simp: GetOrCreateHumanActor_def split: sum.split)
  next
    case (Inl e)
    obtain won d2 where t: "stmt w 1 (human_tx w (dw_uuid w 0) s n role) d = (won, d2)" by fastforce
    have "same_agents d (snd (stmt w 1 (human_tx w (dw_uuid w 0) s n role) d))" by (rule stmt_same [OF assms], rule human_tx_same)
    then have "same_agents d d2" by (simp only: t snd_conv)
    moreover have "snd (let (winner, d3) = select_first w 2 (identity_of s) d2
                  in case winner of Inl e3 \<Rightarrow> (Inl e3, d3) | Inr u \<Rightarrow> named_actor w 3 (ui_ActorID u) d3) = d2"
      using solo_reads(1) [OF assms, of 2 "identity_of s" d2] assms by (auto simp: split_beta Let_def split: sum.split)
    ultimately show ?thesis using f Inl t assms
      by (cases won) (auto simp: GetOrCreateHumanActor_def Let_def split: bool.split)
  qed
qed

lemma reads_keep:
  assumes "solo w"
  shows "snd (ListAgents w i d) = d" "snd (ActiveSandboxBlocks w i d) = d" "snd (GetActorByID w i k d) = d"
    "snd (ActiveSandboxBlock w i k d) = d" "snd (listFinishedAudit w a t n d) = d"
  using assms by (simp_all add: ListAgents_def ActiveSandboxBlocks_def GetActorByID_def ActiveSandboxBlock_def listFinishedAudit_def
      split_beta Let_def)

definition only_bus :: "server \<Rightarrow> server \<Rightarrow> bool" where
  "only_bus sv sv' \<longleftrightarrow> sv_db sv' = sv_db sv \<and> (sv_hub sv')\<lparr>bus := bus (sv_hub sv)\<rparr> = sv_hub sv"

lemma sandbox_row_hub: "(snd (sandbox_row a b h))\<lparr>bus := bus h\<rparr> = h"
  by (simp add: sandbox_row_def split_beta Let_def)

lemma sandbox_rows_hub: "(snd (sandbox_rows bs as h))\<lparr>bus := bus h\<rparr> = h"
proof (induction as arbitrary: h)
  case (Cons a as)
  let ?h1 = "snd (sandbox_row a (mget bs (ac_ID a)) h)"
  have "(snd (sandbox_rows bs as ?h1))\<lparr>bus := bus ?h1\<rparr> = ?h1" by (rule Cons.IH)
  then have "snd (sandbox_rows bs as ?h1)\<lparr>bus := bus h\<rparr> = ?h1\<lparr>bus := bus h\<rparr>"
    by (metis (no_types, lifting) Hub.surjective Hub.update_convs(1))
  then show ?case using sandbox_row_hub [where a = a and b = "mget bs (ac_ID a)" and h = h] by (simp add: split_beta Let_def)
qed simp

lemma reading_route:
  assumes "\<not> needs_admin r" "\<And>i. solo (rw_db w i)" "handler_of w ctx r sv = (ans, sv')"
  shows "only_bus sv sv'"
proof (cases r)
  case Me
  with assms(3) show ?thesis by (auto simp: meHandler_def only_bus_def writeError_def split: option.splits)
next
  case ListSandboxes
  with assms(3) sandbox_rows_hub show ?thesis
    by (auto simp: listSandboxesHandler_def only_bus_def on_db_def writeError_def split_beta Let_def reads_keep assms(2) split: sum.splits)
next
  case (GetSandboxOf k)
  with assms(3) sandbox_row_hub show ?thesis
    by (auto simp: getSandboxHandler_def only_bus_def on_db_def writeError_def split_beta Let_def reads_keep assms(2) split: sum.splits)
next
  case (ListToolCalls a t l b)
  with assms(3) show ?thesis
    by (auto simp: listToolCallsHandler_def only_bus_def on_db_def writeError_def split_beta Let_def reads_keep assms(2) split: sum.splits)
next
  case (GetToolCall k)
  with assms(3) show ?thesis
    by (auto simp: getToolCallHandler_def only_bus_def on_db_def writeError_def split_beta Let_def assms(2) split: sum.splits)
qed (use assms(1) in simp_all)

lemma others_change_nothing:
  assumes "\<And>i. identity = Inr i \<Longrightarrow> id_Role i \<noteq> RoleAdmin" "solo (rw_auth w)" "\<And>i. solo (rw_db w i)"
    and "serve_api w identity html r sv = (ans, sv')"
  shows "same_agents (sv_db sv) (sv_db sv') \<and> (sv_hub sv')\<lparr>bus := bus (sv_hub sv)\<rparr> = sv_hub sv \<and>
    (needs_admin r \<longrightarrow> map_option fst ans \<in> {Some 302, Some 401, Some 403, Some 500})"
proof (cases identity)
  case (Inl e)
  with assms(4) show ?thesis by (cases html) (auto simp: serve_api_def RequireHumanAuth_def)
next
  case (Inr i)
  obtain g d1 where g: "GetOrCreateHumanActor (rw_auth w) (id_Subject i) (id_DisplayName i) (id_Role i) (sv_db sv) = (g, d1)" by fastforce
  have s: "same_agents (sv_db sv) d1" using GetOrCreate_same [OF assms(2)] g by (metis snd_conv)
  show ?thesis
  proof (cases g)
    case (Inl e)
    with assms(4) Inr g s show ?thesis by (auto simp: serve_api_def RequireHumanAuth_def on_db_def)
  next
    case a: (Inr actor)
    have n: "NewRouter w (withHuman None actor (id_Role i)) r (sv\<lparr>sv_db := d1\<rparr>) = (ans, sv')"
      using assms(4) Inr g a by (simp add: serve_api_def RequireHumanAuth_def on_db_def)
    show ?thesis
    proof (cases "needs_admin r")
      case True
      with n s assms(1) [OF Inr] show ?thesis by (auto simp: NewRouter_def RequireAdmin_def)
    next
      case False
      with n have "only_bus (sv\<lparr>sv_db := d1\<rparr>) sv'" by (auto simp: NewRouter_def intro: reading_route [OF False assms(3)])
      with s False show ?thesis by (simp add: only_bus_def)
    qed
  qed
qed

text \<open>C33: only an administrator changes anything. A request that is not authenticated, or whose user
  has any role but \<open>admin\<close>, leaves every agent, token, block and journal row, every agent's worker
  and everything sent to workers as they were; the routes that would change them answer with a
  refusal.\<close>

theorem only_admins_change_agents:
  assumes "\<And>i. identity = Inr i \<Longrightarrow> id_Role i \<noteq> RoleAdmin" "solo (rw_auth w)" "\<And>i. solo (rw_db w i)"
    and "serve_api w identity html r sv = (ans, sv')"
  shows "same_agents (sv_db sv) (sv_db sv') \<and> (sv_hub sv')\<lparr>bus := bus (sv_hub sv)\<rparr> = sv_hub sv \<and>
    (needs_admin r \<longrightarrow> map_option fst ans \<in> {Some 302, Some 401, Some 403, Some 500})"
  by (rule others_change_nothing [OF assms])

lemma only_admins_change_agents_witness:
  "\<exists>ans sv'. serve_api quiet_rest_world (Inr \<lparr>id_Subject = ''s'', id_DisplayName = ''Eve'', id_Role = RoleViewer\<rparr>) False
      (BlockSandboxOf ''a'' (Some ''x'')) sample_server = (ans, sv') \<and> db_blocks (sv_db sv') = [] \<and>
     map_option fst ans \<in> {Some 302, Some 401, Some 403, Some 500}"
proof -
  let ?i = "\<lparr>id_Subject = ''s'', id_DisplayName = ''Eve'', id_Role = RoleViewer\<rparr>"
  obtain ans sv' where x: "serve_api quiet_rest_world (Inr ?i) False (BlockSandboxOf ''a'' (Some ''x'')) sample_server = (ans, sv')" by fastforce
  have w: "solo (rw_auth quiet_rest_world)" "\<And>i. solo (rw_db quiet_rest_world i)" by (simp_all add: solo_def quiet_rest_world_def quiet_world_def)
  have r: "id_Role j \<noteq> RoleAdmin" if "Inr ?i = (Inr j :: Identity res)" for j using that by (auto simp: RoleViewer_def RoleAdmin_def)
  from only_admins_change_agents [OF r w x] x show ?thesis by (simp add: same_agents_def sample_server_def sample_db_def)
qed

end
