(* ===== verification/Human_Access.thy ===== *)
theory Human_Access imports Human_Props Rest_Access begin

text \<open>
  \<open>humanauth.Provider\<close> as an interface: what the middleware relies on of whatever authenticates the
  people, the two providers the code has, and what the two together mean for the operator's API.
\<close>

section \<open>The interface\<close>

text \<open>A request through the middleware: the provider answers, and the API goes by what it answered.\<close>

definition serve_as :: "('r \<Rightarrow> 'p \<Rightarrow> Identity res \<times> 'p) \<Rightarrow> rest_world \<Rightarrow> 'r \<Rightarrow> bool \<Rightarrow> route \<Rightarrow> 'p \<times> server \<Rightarrow>
    (nat \<times> rest_body) option \<times> 'p \<times> server" where
  "serve_as authenticate w rq html r s =
     (case s of (p, sv) \<Rightarrow>
        (let (identity, p') = authenticate rq p; (ans, sv') = serve_api w identity html r sv in (ans, p', sv')))"

text \<open>What a request that no administrator made leaves.\<close>

definition unchanged :: "server \<Rightarrow> server \<Rightarrow> bool" where
  "unchanged sv sv' \<longleftrightarrow> same_agents (sv_db sv) (sv_db sv') \<and> (sv_hub sv')\<lparr>bus := bus (sv_hub sv)\<rparr> = sv_hub sv"

locale identity_provider =
  fixes authenticate :: "'r \<Rightarrow> 'p \<Rightarrow> Identity res \<times> 'p" and vouched :: "'p \<Rightarrow> 'r \<Rightarrow> Identity \<Rightarrow> bool"
  assumes vouches: "authenticate r p = (Inr i, p') \<Longrightarrow> vouched p r i"
begin

lemma changes_are_vouched:
  assumes "serve_as authenticate w rq html r (p, sv) = (ans, p', sv')" "solo (rw_auth w)" "\<And>i. solo (rw_db w i)" "\<not> unchanged sv sv'"
  shows "\<exists>i. vouched p rq i \<and> id_Role i = RoleAdmin"
proof -
  obtain identity p1 where a: "authenticate rq p = (identity, p1)" by fastforce
  then have s: "serve_api w identity html r sv = (ans, sv')" using assms(1) by (auto simp: serve_as_def split: prod.splits)
  have "\<exists>i. identity = Inr i \<and> id_Role i = RoleAdmin"
    using others_change_nothing [OF _ assms(2,3) s] assms(4) by (auto simp: unchanged_def)
  with a vouches show ?thesis by blast
qed

end

section \<open>The two providers\<close>

definition stub_authenticate :: "'r \<Rightarrow> 'p \<Rightarrow> Identity res \<times> 'p" where
  "stub_authenticate r p = (Inr stub_identity, p)"

interpretation stub: identity_provider stub_authenticate "\<lambda>p r i. i = stub_identity"
  by unfold_locales (simp add: stub_authenticate_def)

text \<open>A request to the other comes with what the world is at that moment and the session cookie.\<close>

definition oidc_authenticate :: "string \<Rightarrow> string \<Rightarrow> id_world \<times> string option \<Rightarrow> Session list \<Rightarrow> Identity res \<times> Session list" where
  "oidc_authenticate key admin rq ss = auth_session (fst rq) key admin (snd rq) ss"

definition signed_for :: "string \<Rightarrow> string \<Rightarrow> Session list \<Rightarrow> id_world \<times> string option \<Rightarrow> Identity \<Rightarrow> bool" where
  "signed_for key admin ss rq i \<longleftrightarrow>
     (\<forall>l. logins admin key (iw_now (fst rq)) ss l \<longrightarrow> (\<exists>raw c. snd rq = Some raw \<and> i = claimed admin c \<and> rests_on admin (fst rq) l raw c))"

interpretation oidc: identity_provider "oidc_authenticate key admin" "signed_for key admin" for key admin
proof
  fix r p i p' assume "oidc_authenticate key admin r p = (Inr i, p')"
  then have a: "auth_session (fst r) key admin (snd r) p = (Inr i, p')" by (simp add: oidc_authenticate_def)
  show "signed_for key admin p r i" unfolding signed_for_def using identity_is_fresh [OF _ a] by blast
qed

section \<open>Who acts\<close>



end
