(* ===== verification/Rest_Stream.thy ===== *)
theory Rest_Stream imports Rest_Props Stream_Live "HOL-Library.Sublist" begin

text \<open>
  \<open>stream.go\<close> of package \<open>internal/restapi\<close>: a browser watches a terminal over a WebSocket. The loop
  is a function of its turns: what the rest of the server did with the broadcaster before the turn,
  and whether the turn finds the connection gone. Whether a frame can be written is an argument.
\<close>

section \<open>The handler\<close>

definition closeCodeSlowConsumer :: nat where "closeCodeSlowConsumer = 4000"
definition StatusNormalClosure :: nat where "StatusNormalClosure = 1000"
definition StatusInternalError :: nat where "StatusInternalError = 1011"

lemmas close_codes = closeCodeSlowConsumer_def StatusNormalClosure_def StatusInternalError_def

definition parseAfter :: "string \<Rightarrow> u64 res" where
  "parseAfter raw =
     (if raw = [] then Inr 0
      else case ParseUint raw 64 of
        None \<Rightarrow> Inl (Plain ''after must be a non-negative integer sequence number'')
      | Some n \<Rightarrow> Inr (of_nat n))"

text \<open>\<open>i\<close> counts the frames of the connection. The result is what was written, how the connection was
  closed, if it was, and what is left of the state.\<close>

definition writeEvent :: "(nat \<Rightarrow> bool) \<Rightarrow> nat \<Rightarrow> (nat \<times> string) option" where
  "writeEvent writes i = (if writes i then None else Some (StatusInternalError, ''write failed''))"

fun write_replay :: "(nat \<Rightarrow> bool) \<Rightarrow> nat \<Rightarrow> Event list \<Rightarrow> Event list \<times> (nat \<times> string) option" where
  "write_replay writes i [] = ([], None)"
| "write_replay writes i (e # es) =
     (case writeEvent writes i of
        Some c \<Rightarrow> ([], Some c)
      | None \<Rightarrow> (let (shown, c) = write_replay writes (Suc i) es in (e # shown, c)))"

type_synonym turn = "bc_op list \<times> bool"

fun watch_loop :: "(nat \<Rightarrow> bool) \<Rightarrow> nat \<Rightarrow> turn list \<Rightarrow> nat \<Rightarrow> Broadcaster \<Rightarrow> Event list \<times> (nat \<times> string) option \<times> Broadcaster" where
  "watch_loop writes h [] i b = ([], None, b)"
| "watch_loop writes h ((ops, gone) # ts) i b =
     (case bc_run b ops of
        None \<Rightarrow> ([], None, b)
      | Some (_, b1) \<Rightarrow>
          if gone then ([], Some (StatusNormalClosure, ''client went away''), b1)
          else
            (case Recv b1 h of
               (Blocks, b2) \<Rightarrow> watch_loop writes h ts i b2
             | (Ended, b2) \<Rightarrow>
                 ([], Some (if Lagged b2 h then (closeCodeSlowConsumer, ''slow consumer: reconnect with ?after=<last seq>'')
                            else (StatusNormalClosure, ''stream ended'')), b2)
             | (Got e, b2) \<Rightarrow>
                 (case writeEvent writes i of
                    Some c \<Rightarrow> ([], Some c, b2)
                  | None \<Rightarrow> (let (shown, c, b3) = watch_loop writes h ts (Suc i) b2 in (e # shown, c, b3)))))"

datatype stream_answer =
    Declined nat string
  | NotUpgraded
  | Streamed "Event list" "(nat \<times> string) option"

text \<open>A connection that is still open is not unsubscribed yet.\<close>

definition streamSandboxHandler :: "rest_world \<Rightarrow> bool \<Rightarrow> (nat \<Rightarrow> bool) \<Rightarrow> turn list \<Rightarrow> string \<Rightarrow> string \<Rightarrow> DB \<Rightarrow> Broadcaster \<Rightarrow>
    stream_answer \<times> DB \<times> Broadcaster" where
  "streamSandboxHandler w accepted writes turns k after_text d b =
     (let (actor, d1) = GetActorByID (rw_db w 0) 0 k d in
      case actor of
        Inl e \<Rightarrow> (Declined (if errors_is e ErrActorNotFound then 404 else 500) (err_text e), d1, b)
      | Inr _ \<Rightarrow>
          (case parseAfter after_text of
             Inl e \<Rightarrow> (Declined 400 (err_text e), d1, b)
           | Inr seq \<Rightarrow>
               if \<not> accepted then (NotUpgraded, d1, b)
               else
                 (let ((replay, h), b1) = Subscribe b k seq (rw_now w) in
                  case write_replay writes 0 replay of
                    (shown, Some c) \<Rightarrow> (Streamed shown (Some c), d1, Unsubscribe b1 k h)
                  | (shown, None) \<Rightarrow>
                      (let (live, c, b2) = watch_loop writes h turns (length replay) b1
                       in (Streamed (shown @ live) c, d1, if c = None then b2 else Unsubscribe b2 k h)))))"

section \<open>A session as a run of the broadcaster\<close>

definition session_ops :: "nat \<Rightarrow> turn list \<Rightarrow> bc_op list" where
  "session_ops h ts = concat (map (\<lambda>(ops, gone). ops @ [ORecv h]) ts)"

text \<open>Only the handler receives on its subscription.\<close>

definition not_ours :: "nat \<Rightarrow> turn list \<Rightarrow> bool" where
  "not_ours h ts \<longleftrightarrow> (\<forall>t\<in>set ts. ORecv h \<notin> set (fst t))"

lemma bc_run_append:
  "bc_run b (xs @ ys) = (case bc_run b xs of None \<Rightarrow> None | Some (os, b1) \<Rightarrow> map_option (\<lambda>(os', b2). (os @ os', b2)) (bc_run b1 ys))"
  by (induction xs arbitrary: b) (auto simp: map_option_case split: option.splits prod.splits)

lemma got_by_append [simp]: "got_by h (xs @ ys) = got_by h xs @ got_by h ys"
  by (induction h xs rule: got_by.induct) auto

lemma got_by_others: "bc_run b xs = Some (os, b') \<Longrightarrow> ORecv h \<notin> set xs \<Longrightarrow> got_by h os = []"
proof (induction xs arbitrary: b os)
  case (Cons x xs)
  then obtain o1 b1 os1 where s: "bc_step b x = Some (o1, b1)" "bc_run b1 xs = Some (os1, b')" "os = o1 # os1"
    by (auto split: option.splits)
  have "got_by h [o1] = []"
    using s(1) Cons.prems(2)
  proof (cases x)
    case (ORecv h')
    with s(1) Cons.prems(2) show ?thesis by (cases "fst (Recv b h')") (auto simp: split_beta)
  qed (auto simp: split_beta)
  with Cons.IH [OF s(2)] Cons.prems(2) s(3) show ?case by (simp add: got_by_Cons [of h o1 os1])
qed simp

lemma session_Cons: "session_ops h ((ops, gone) # ts) = ops @ ORecv h # session_ops h ts"
  by (simp add: session_ops_def)

lemma watch_trace:
  assumes "watch_loop writes h ts i b = (shown, c, b')" "bc_inv b" "not_ours h ts"
  shows "\<exists>os e. bc_run b (session_ops h ts) = Some (os, e) \<and> prefix shown (got_by h os) \<and> (c = None \<longrightarrow> shown = got_by h os \<and> e = b')"
  using assms
proof (induction ts arbitrary: i b shown c b')
  case Nil
  then show ?case by (simp add: session_ops_def)
next
  case (Cons t ts)
  obtain ops gone where t: "t = (ops, gone)" by fastforce
  obtain os1 b1 where r: "bc_run b ops = Some (os1, b1)" "bc_inv b1" using bc_run_inv [OF Cons.prems(2)] by blast
  have g: "got_by h os1 = []" using got_by_others [OF r(1)] Cons.prems(3) t by (simp add: not_ours_def)
  obtain x b2 where x: "Recv b1 h = (x, b2)" by fastforce
  have i2: "bc_inv b2" using bc_inv_Recv [OF r(2), of h] x by simp
  obtain os2 e where r2: "bc_run b2 (session_ops h ts) = Some (os2, e)" using bc_run_inv [OF i2] by blast
  have all: "bc_run b (session_ops h (t # ts)) = Some (os1 @ RRecv h x # os2, e)"
    using r x r2 by (simp add: t session_Cons bc_run_append)
  show ?case
  proof (cases "gone \<or> x = Ended")
    case True
    then have "shown = [] \<and> c \<noteq> None" using Cons.prems(1) r x t by (auto split: if_splits)
    with all show ?thesis by auto
  next
    case False
    note ih = Cons.IH [OF _ i2]
    have ts: "not_ours h ts" using Cons.prems(3) by (simp add: not_ours_def)
    show ?thesis
    proof (cases x)
      case Blocks
      then have "watch_loop writes h ts i b2 = (shown, c, b')" using Cons.prems(1) r x t False by simp
      from ih [OF this ts] all g r2 Blocks show ?thesis by auto
    next
      case (Got ev)
      show ?thesis
      proof (cases "writeEvent writes i")
        case None
        obtain shown2 where s: "watch_loop writes h ts (Suc i) b2 = (shown2, c, b')" "shown = ev # shown2"
          using Cons.prems(1) r x t False Got None by (auto simp: split_beta prod_eq_iff)
        from ih [OF s(1) ts] all g r2 Got s(2) show ?thesis by auto
      next
        case (Some c0)
        then have "shown = []" "c = Some c0" using Cons.prems(1) r x t False Got by simp_all
        with all show ?thesis by auto
      qed
    qed (use False in simp)
  qed
qed

lemma write_replay_prefix: "write_replay writes i es = (shown, c) \<Longrightarrow> prefix shown es \<and> (c = None \<longrightarrow> shown = es)"
  by (induction writes i es arbitrary: shown c rule: write_replay.induct) (auto split: option.splits prod.splits)

section \<open>The property\<close>



end
