(* ===== verification/Cmd_Worker.thy ===== *)
theory Cmd_Worker imports Link_Ends Sandbox_Op begin

text \<open>
  \<open>cmd/worker\<close>: the worker's command line and what it starts. The command-line library is a record
  of the values it read for the flags; the host name and the reading of a file are arguments.
\<close>

section \<open>Flags\<close>

record worker_flags =
  wf_server_url :: string
  wf_worker_token :: string
  wf_worker_token_file :: string
  wf_worker_id :: string
  wf_sandbox_dir :: string
  wf_default_timeout :: int
  wf_max_output_bytes :: int
  wf_max_file_bytes :: u64
  wf_env_passthrough :: "string list"
  wf_venv_dir :: string
  wf_python :: string
  wf_uid_range :: string
  wf_env :: "string list"

definition DefaultVenvDir :: string where "DefaultVenvDir = ''.venv''"

text \<open>The values of flags that are given nowhere.\<close>

definition worker_defaults :: worker_flags where
  "worker_defaults =
     \<lparr>wf_server_url = [], wf_worker_token = [], wf_worker_token_file = [], wf_worker_id = [], wf_sandbox_dir = ''/sandboxes'',
      wf_default_timeout = 30 * second, wf_max_output_bytes = 512 * 1024, wf_max_file_bytes = DefaultMaxFileBytes,
      wf_env_passthrough = DefaultEnvPassthrough, wf_venv_dir = DefaultVenvDir, wf_python = [], wf_uid_range = [], wf_env = []\<rparr>"

section \<open>\<open>parseUIDRange\<close>\<close>

text \<open>Why \<open>strconv.ParseUint(s, 10, 32)\<close> fails: at the first byte that is no digit, or the first
  that makes the number too large.\<close>

fun uint_error :: "nat \<Rightarrow> nat \<Rightarrow> string \<Rightarrow> string" where
  "uint_error most acc [] = ''invalid syntax''"
| "uint_error most acc (c # cs) =
     (case digit_val c of
        None \<Rightarrow> ''invalid syntax''
      | Some d \<Rightarrow> if most < 10 * acc + d then ''value out of range'' else uint_error most (10 * acc + d) cs)"

definition NumError :: "string \<Rightarrow> gerr" where
  "NumError s = Wrap (''strconv.ParseUint: parsing '' @ quoted s @ '': '') (Sentinel (uint_error (2 ^ 32 - 1) 0 s)) []"

text \<open>The sum of the count is in 64 bits and converted to 32.\<close>

definition parseUIDRange :: "string \<Rightarrow> UIDRange \<times> gerr option" where
  "parseUIDRange spec =
     (let no_range = \<lparr>First = 0, Count = 0\<rparr> in
      if spec = [] then (no_range, None)
      else
        case cut_at (CHR ''-'') spec of
          None \<Rightarrow> (no_range, Some (Plain (''uid range '' @ quoted spec @ '' must be written first-last, e.g. 20000-20999'')))
        | Some (fst_text, last_text) \<Rightarrow>
            (case ParseUint (TrimSpace fst_text) 32 of
               None \<Rightarrow> (no_range, Some (Wrap (''uid range '' @ quoted spec @ '': '') (NumError (TrimSpace fst_text)) []))
             | Some from_id \<Rightarrow>
                 (case ParseUint (TrimSpace last_text) 32 of
                    None \<Rightarrow> (no_range, Some (Wrap (''uid range '' @ quoted spec @ '': '') (NumError (TrimSpace last_text)) []))
                  | Some to_id \<Rightarrow>
                      if to_id < from_id then (no_range, Some (Plain (''uid range '' @ quoted spec @ '' ends before it starts'')))
                      else (let r = \<lparr>First = of_nat from_id, Count = of_nat (to_id - from_id + 1)\<rparr> in (r, range_Validate r)))))"

section \<open>\<open>workerToken\<close> and the action\<close>

definition workerToken :: "(string \<Rightarrow> string res) \<Rightarrow> worker_flags \<Rightarrow> string res" where
  "workerToken read f =
     (let path = wf_worker_token_file f in
      if path = [] then Inr (wf_worker_token f)
      else
        case read path of
          Inl e \<Rightarrow> Inl (Wrap (''read the worker token from '' @ path @ '': '') e [])
        | Inr data \<Rightarrow>
            (let token = TrimSpace data in
             if token = [] then Inl (Plain (''the worker token file '' @ path @ '' is empty'')) else Inr token))"

definition opHelperCommand :: string where "opHelperCommand = ''sandbox-op''"

text \<open>What the hidden subcommand does with its standard input.\<close>

definition opHelperSubcommand :: "(string \<Rightarrow> gerr option) \<Rightarrow> string \<Rightarrow> fs \<Rightarrow> Request res \<Rightarrow> Response res \<times> fs" where
  "opHelperSubcommand find_exec now fs stdin = Serve find_exec now fs stdin"

definition link_config :: "string \<Rightarrow> string \<Rightarrow> string \<Rightarrow> worker_flags \<Rightarrow> LinkConfig" where
  "link_config version worker_id token f =
     \<lparr>lc_ServerURL = wf_server_url f, lc_Token = token, lc_WorkerID = worker_id, lc_Version = version, lc_MaxFileBytes = wf_max_file_bytes f\<rparr>"

definition sandbox_config :: "UIDRange \<Rightarrow> worker_flags \<Rightarrow> Config" where
  "sandbox_config r f =
     \<lparr>RootDir = wf_sandbox_dir f, DefaultTimeout = wf_default_timeout f, MaxOutput = wf_max_output_bytes f,
      OpHelperArgs = [opHelperCommand], VenvDir = wf_venv_dir f, PythonProgram = wf_python f, cfg_UIDRange = r,
      EnvPassthrough = Some (wf_env_passthrough f), ExtraEnv = wf_env f\<rparr>"

text \<open>The root action up to \<open>link.Run\<close>; what it only logs is left out.\<close>

definition worker_action :: "string \<Rightarrow> string res \<Rightarrow> (string \<Rightarrow> string res) \<Rightarrow> string \<Rightarrow> worker_flags \<Rightarrow> Link res" where
  "worker_action version hostname read cwd f =
     (case (if wf_worker_id f = [] then (case hostname of Inl e \<Rightarrow> Inl (Wrap ''determine a worker id: '' e []) | Inr h \<Rightarrow> Inr h)
            else Inr (wf_worker_id f)) of
        Inl e \<Rightarrow> Inl e
      | Inr worker_id \<Rightarrow>
          (case parseUIDRange (wf_uid_range f) of
             (_, Some e) \<Rightarrow> Inl e
           | (uid_range, None) \<Rightarrow>
               (case workerToken read f of
                  Inl e \<Rightarrow> Inl e
                | Inr token \<Rightarrow>
                    (case ValidateEnvPassthrough (wf_env_passthrough f) of
                       Some e \<Rightarrow> Inl e
                     | None \<Rightarrow> newLink cwd (link_config version worker_id token f) (sandbox_config uid_range f)))))"

section \<open>The range is what was written\<close>

lemma cut_at_Some: "cut_at c s = Some (a, b) \<Longrightarrow> s = a @ c # b \<and> c \<notin> set a"
  by (induction s arbitrary: a) (auto split: if_splits option.splits)

lemma ParseUint_less: "ParseUint s bits = Some n \<Longrightarrow> n < 2 ^ bits"
  by (auto simp: ParseUint_def split: if_splits option.splits)

lemma Contains_written:
  assumes "a \<le> b" "b < 2 ^ 32" "range_Validate \<lparr>First = of_nat a, Count = of_nat (b - a + 1)\<rparr> = None"
  shows "Contains \<lparr>First = of_nat a, Count = of_nat (b - a + 1)\<rparr> i \<longleftrightarrow> 0 < a \<and> a \<le> unat i \<and> unat i \<le> b"
proof (cases "a = 0")
  case False
  let ?r = "\<lparr>First = of_nat a :: u32, Count = of_nat (b - a + 1) :: u32\<rparr>"
  have f: "unat (First ?r) = a" using assms(1,2) by (simp add: unat_of_nat)
  have "b - a + 1 < 2 ^ 32" using False assms(2) by simp
  then have c: "unat (Count ?r) = b - a + 1" by (simp only: UIDRange.simps unat_of_nat len_num1 len_bit0 mod_less) simp
  have "0 < First ?r" "0 < Count ?r" using f c False by (simp_all add: word_less_nat_alt)
  then have e: "Enabled ?r" by (simp add: Enabled_def)
  then have "unat (First ?r) + unat (Count ?r) \<le> 65536"
    using assms(3) by (auto simp: range_Validate_def Let_def split: if_splits)
  then have "unat (First ?r + Count ?r) = unat (First ?r) + unat (Count ?r)"
    by (intro iffD1 [OF unat_add_lem]) simp
  then show ?thesis using e f c False assms(1)
    unfolding Contains_def word_le_nat_alt word_less_nat_alt by (simp only:) auto
qed (simp add: Contains_def Enabled_def)

text \<open>The range of user ids is the one the operator wrote, both ends included: of two decimal numbers
  around the first minus sign, blanks ignored. A range that starts at 0 is the exception: it is
  accepted and holds no id at all.\<close>

theorem uid_range_is_what_was_written:
  assumes "parseUIDRange spec = (r, None)" "spec \<noteq> []"
  shows "\<exists>a_text b_text a b. spec = a_text @ CHR ''-'' # b_text \<and> ParseUint (TrimSpace a_text) 32 = Some a \<and>
    ParseUint (TrimSpace b_text) 32 = Some b \<and> a \<le> b \<and> (\<forall>i. Contains r i = (0 < a \<and> a \<le> unat i \<and> unat i \<le> b))"
proof -
  obtain at bt where c: "cut_at (CHR ''-'') spec = Some (at, bt)"
    using assms by (cases "cut_at (CHR ''-'') spec") (auto simp: parseUIDRange_def Let_def)
  obtain a where a: "ParseUint (TrimSpace at) 32 = Some a"
    using assms c by (cases "ParseUint (TrimSpace at) 32") (auto simp: parseUIDRange_def Let_def)
  obtain b where b: "ParseUint (TrimSpace bt) 32 = Some b"
    using assms c a by (cases "ParseUint (TrimSpace bt) 32") (auto simp: parseUIDRange_def Let_def)
  have r: "a \<le> b" "r = \<lparr>First = of_nat a, Count = of_nat (b - a + 1)\<rparr>" "range_Validate r = None"
    using assms c a b by (auto simp: parseUIDRange_def Let_def split: if_splits)
  show ?thesis using cut_at_Some [OF c] a b r(1) Contains_written [OF r(1) ParseUint_less [OF b] r(3) [unfolded r(2)]]
    unfolding r(2) by blast
qed

lemma sample_range: "parseUIDRange ''2000 - 2999'' = (\<lparr>First = 2000, Count = 1000\<rparr>, None)"
proof -
  have "ParseUint ''2000'' 32 = Some 2000" "ParseUint ''2999'' 32 = Some 2999" by (simp_all add: ParseUint_def digit_val_def Let_def)
  moreover have "TrimSpace ''2000 '' = ''2000''" "TrimSpace '' 2999'' = ''2999''" by code_simp+
  ultimately show ?thesis by (simp add: parseUIDRange_def Let_def range_Validate_def Enabled_def)
qed

lemma uid_range_is_what_was_written_witness:
  "\<exists>r a b. parseUIDRange ''2000 - 2999'' = (r, None) \<and> a \<le> b \<and> (\<forall>i. Contains r i = (0 < a \<and> a \<le> unat i \<and> unat i \<le> b))"
  using uid_range_is_what_was_written [OF sample_range] sample_range by auto

section \<open>The worker as it is started\<close>

lemma newLink_parts:
  assumes "newLink cwd cfg scfg = Inr lk"
  shows "lk_manager lk = \<lparr>mg_base = (WithDefaults scfg)\<lparr>RootDir := Abs cwd (RootDir (WithDefaults scfg))\<rparr>, mg_sink = True, mg_instances = []\<rparr>"
    "lc_Token (lk_cfg lk) = lc_Token cfg" "lc_Token cfg \<noteq> []"
  using assms by (auto simp: newLink_def NewManager_def Let_def split: if_splits option.splits sum.splits)

lemma WithDefaults_keeps [simp]:
  "RootDir (WithDefaults c) = RootDir c" "cfg_UIDRange (WithDefaults c) = cfg_UIDRange c"
  "EnvPassthrough (WithDefaults c) = EnvPassthrough c" "OpHelperArgs (WithDefaults c) = OpHelperArgs c"
  by (simp_all add: WithDefaults_def Let_def)

lemma worker_action_parts:
  assumes "worker_action version hostname read cwd f = Inr lk"
  obtains wid r token where "parseUIDRange (wf_uid_range f) = (r, None)" "workerToken read f = Inr token"
    "ValidateEnvPassthrough (wf_env_passthrough f) = None" "newLink cwd (link_config version wid token f) (sandbox_config r f) = Inr lk"
  using assms by (auto simp: worker_action_def split: sum.splits prod.splits option.splits if_splits)

lemma GetSandbox_base: "GetSandbox v cwd self m d a = (r, m', d') \<Longrightarrow> mg_base m' = mg_base m"
  by (auto simp: GetSandbox_def Let_def split: if_splits option.splits sum.splits prod.splits)

lemma mgr_reach_base: "mgr_reach s s' \<Longrightarrow> mg_base (fst s') = mg_base (fst s)"
proof (induction rule: mgr_reach.induct)
  case (step s s' s'')
  obtain m d where s': "s' = (m, d)" by fastforce
  from step.hyps(2) [unfolded s'] have "mg_base (fst s'') = mg_base m"
    by (cases rule: mgr_step.cases) (auto dest: GetSandbox_base)
  with step.IH s' show ?case by simp
qed simp


text \<open>A started worker keeps its credentials to itself: the token it presents is not empty, and is the
  trimmed content of the file when one is given; and none of the variables that hold the service's
  credentials is among those handed to commands.\<close>

theorem started_worker_keeps_credentials:
  assumes "worker_action version hostname read cwd f = Inr lk"
  shows "lc_Token (lk_cfg lk) \<noteq> [] \<and>
    (wf_worker_token_file f \<noteq> [] \<longrightarrow> (\<exists>data. read (wf_worker_token_file f) = Inr data \<and> lc_Token (lk_cfg lk) = TrimSpace data)) \<and>
    (\<forall>n\<in>set (passthrough (mg_base (lk_manager lk))). TrimSpace n \<notin> set deniedEnvNames)"
proof -
  obtain wid r token where p: "workerToken read f = Inr token" "ValidateEnvPassthrough (wf_env_passthrough f) = None"
    "newLink cwd (link_config version wid token f) (sandbox_config r f) = Inr lk"
    using worker_action_parts [OF assms] by metis
  note n = newLink_parts [OF p(3)]
  have "TrimSpace x \<notin> set deniedEnvNames" if "x \<in> set (wf_env_passthrough f)" for x
  proof (cases "TrimSpace x = []")
    case False
    then show ?thesis by (rule ValidateD(1) [OF p(2) that])
  qed (simp add: deniedEnvNames_def)
  moreover have "passthrough (mg_base (lk_manager lk)) = wf_env_passthrough f" by (simp add: n passthrough_def sandbox_config_def)
  moreover have "wf_worker_token_file f \<noteq> [] \<longrightarrow> (\<exists>data. read (wf_worker_token_file f) = Inr data \<and> token = TrimSpace data)"
    using p(1) by (auto simp: workerToken_def Let_def split: if_splits sum.splits)
  ultimately show ?thesis using n(2,3) by (simp add: link_config_def)
qed

definition sample_flags :: worker_flags where
  "sample_flags = worker_defaults\<lparr>wf_server_url := ''http://s'', wf_worker_token_file := ''/run/token'', wf_worker_id := ''w'',
     wf_sandbox_dir := ''/s'', wf_uid_range := ''2000 - 2999''\<rparr>"

definition sample_read :: "string \<Rightarrow> string res" where
  "sample_read p = (if p = ''/run/token'' then Inr (''key'' @ [CHR 0x0A]) else Inl (Plain ''no such file''))"

definition sample_link :: "Link res" where
  "sample_link = newLink ''/'' (link_config ''dev'' ''w'' ''key'' sample_flags) (sandbox_config \<lparr>First = 2000, Count = 1000\<rparr> sample_flags)"

lemma sample_action: "worker_action ''dev'' (Inr ''h'') sample_read ''/'' sample_flags = sample_link"
proof -
  have "workerToken sample_read sample_flags = Inr ''key''" "ValidateEnvPassthrough (wf_env_passthrough sample_flags) = None"
    "wf_uid_range sample_flags = ''2000 - 2999''" "wf_worker_id sample_flags = ''w''" by code_simp+
  then show ?thesis by (simp add: worker_action_def sample_range sample_link_def)
qed

lemma sample_link_ok: obtains lk where "sample_link = Inr lk"
proof -
  let ?c = "WithDefaults (sandbox_config \<lparr>First = 2000, Count = 1000\<rparr> sample_flags)"
  let ?l = "\<lparr>MaxOutputBytes = word_of_int (MaxOutput ?c), MaxFileBytes = wf_max_file_bytes sample_flags\<rparr>"
  have "RootDir ?c \<noteq> []" "cfg_UIDRange ?c = \<lparr>First = 2000, Count = 1000\<rparr>" by code_simp+
  moreover have "range_Validate \<lparr>First = 2000, Count = 1000\<rparr> = None" by (simp add: range_Validate_def Enabled_def)
  ultimately obtain m where m: "NewManager ''/'' ?c True = Inr m" by (simp add: NewManager_def)
  have "wf_max_file_bytes sample_flags \<noteq> 0" "wf_server_url sample_flags = ''http://s''" "dial_url ''http://s'' = Inr ''ws://s''" by code_simp+
  moreover have "Validate ?l = None" "16384 \<le> sint (MaxPayloadBytes ?l)" by code_simp+
  ultimately show ?thesis using m that by (simp add: sample_link_def newLink_def link_config_def Let_def ChunkSize_def not_less)
qed

lemma started_worker_keeps_credentials_witness:
  "\<exists>lk. worker_action ''dev'' (Inr ''h'') sample_read ''/'' sample_flags = Inr lk \<and> lc_Token (lk_cfg lk) \<noteq> [] \<and>
     (\<exists>data. sample_read ''/run/token'' = Inr data \<and> lc_Token (lk_cfg lk) = TrimSpace data)"
proof -
  obtain lk where "sample_link = Inr lk" by (rule sample_link_ok)
  then have a: "worker_action ''dev'' (Inr ''h'') sample_read ''/'' sample_flags = Inr lk" by (simp add: sample_action)
  have "wf_worker_token_file sample_flags = ''/run/token''" by code_simp
  with a started_worker_keeps_credentials [OF a] show ?thesis by simp
qed


end
