(* ===== verification/Mcp_Server.thy ===== *)
theory Mcp_Server imports Rest_Props begin

text \<open>
  The \<open>/mcp\<close> endpoint: \<open>RequireBearer\<close> of package \<open>internal/auth\<close> in front of the tools, as
  \<open>mcpserver.Handler\<close> composes them. The MCP transport between the two is a library and hands a call
  on with the context of its request.
\<close>

section \<open>\<open>auth.go\<close>\<close>

datatype 'r bearer_answer = Refused nat string | Passed 'r

text \<open>\<open>header\<close> is the value of \<open>Authorization\<close>, empty when there is none.\<close>

definition RequireBearer :: "(string \<Rightarrow> string) \<Rightarrow> db_world \<Rightarrow> string \<Rightarrow> (Actor \<Rightarrow> 's \<Rightarrow> DB \<Rightarrow> 'r \<times> 's \<times> DB) \<Rightarrow>
    's \<Rightarrow> DB \<Rightarrow> 'r bearer_answer \<times> 's \<times> DB" where
  "RequireBearer sha w header next s d =
     (let (token, ok) = CutPrefix header ''Bearer '' in
      if \<not> ok \<or> token = [] then (Refused 401 ''missing bearer token'', s, d)
      else
        (let (r, d1) = Authenticate sha w token d in
         case r of
           Inl e \<Rightarrow> (Refused 401 ''invalid or revoked token'', s, d1)
         | Inr a \<Rightarrow> (let (x, s', d') = next a s d1 in (Passed x, s', d'))))"

section \<open>\<open>server.go\<close>\<close>

text \<open>A tool call through the endpoint, over the executor \<open>x\<close>.\<close>

definition serve_mcp :: "(string \<Rightarrow> string) \<Rightarrow> db_world \<Rightarrow> string \<Rightarrow> 'h Executor \<Rightarrow> tool_world \<Rightarrow> tool_input \<Rightarrow> 'h \<Rightarrow> DB \<Rightarrow>
    (CallToolResult option \<times> tool_output \<times> gerr option) option bearer_answer \<times> 'h \<times> DB" where
  "serve_mcp sha w header x tw inp h d =
     RequireBearer sha w header
       (\<lambda>a h d. let (ret, h', db') = call_tool x tw (Some a) inp h (Some d)
                in (ret, h', case db' of Some d' \<Rightarrow> d' | None \<Rightarrow> d)) h d"

text \<open>How the server announces itself, and the handler of the endpoint: the write deadline the HTTP
  server set on the connection is cleared before anything else sees the request.\<close>

definition NewServer :: "string \<Rightarrow> string \<times> string" where
  "NewServer version = (''mcp-sandbox'', if version = [] then ''dev'' else version)"

definition clearWriteDeadline :: "(int option \<Rightarrow> 'a) \<Rightarrow> int option \<Rightarrow> 'a" where
  "clearWriteDeadline next deadline = next None"

definition mcp_Handler :: "(string \<Rightarrow> string) \<Rightarrow> db_world \<Rightarrow> string \<Rightarrow> 'h Executor \<Rightarrow> tool_world \<Rightarrow> tool_input \<Rightarrow> int option \<Rightarrow> 'h \<Rightarrow> DB \<Rightarrow>
    int option \<times> (CallToolResult option \<times> tool_output \<times> gerr option) option bearer_answer \<times> 'h \<times> DB" where
  "mcp_Handler sha w header x tw inp deadline h d =
     clearWriteDeadline (\<lambda>dl. (dl, serve_mcp sha w header x tw inp h d)) deadline"

section \<open>Shutting an agent out\<close>

lemma Authenticate_revoked:
  assumes "db_ok d" "peers w" "token_revoked (sha raw) d" "Authenticate sha w raw d = (r, d')"
  shows "\<exists>e. r = Inl e"
proof -
  let ?d = "dw_others w 0 d"
  have r: "db_reach d ?d" by (rule peersD [OF assms(2)])
  have ok: "db_ok ?d" by (rule db_ok_reach [OF r assms(1)])
  obtain c where c: "c \<in> set (db_creds ?d)" "cr_TokenHash c = sha raw" "cr_RevokedAt c \<noteq> None"
    using revoked.kept_reach [OF r assms(3)] by (auto simp: token_revoked_def)
  have "cr_RevokedAt cr \<noteq> None" if "first_row cr_ID (\<lambda>c. cr_TokenHash c = sha raw) (db_creds ?d) = Inr cr" for cr
    using first_row_Inr [OF that] by_hash [OF ok _ c(1)] c by metis
  then show ?thesis using assms(4)
    by (auto simp: Authenticate_def select_first_def stmt_def Let_def simp del: not_None_eq split: sum.splits option.splits if_splits)
qed

lemma revoke_reach: "db_reach d (snd (update_creds (\<lambda>c. P c \<and> cr_RevokedAt c = None) (\<lambda>c. c\<lparr>cr_RevokedAt := Some t\<rparr>) d))"
  using db_reach_one [OF db_stmt.revoke, of d P t] by (simp add: revoke_where_def)

lemma revoked_all:
  assumes "peers w" "token_of h k d" "RevokeAllAgentCredentials w k d = (None, d')"
  shows "db_reach d d' \<and> token_revoked h d'"
proof -
  let ?u = "update_creds (\<lambda>c. cr_ActorID c = k \<and> cr_RevokedAt c = None) (\<lambda>c. c\<lparr>cr_RevokedAt := Some (dw_now w)\<rparr>)"
  obtain m where m: "stmt w 0 ?u d = (m, d')" using assms(3)
    by (cases "stmt w 0 ?u d") (auto simp: RevokeAllAgentCredentials_def)
  have t: "token_of h k (dw_others w 0 d)" by (rule token.kept_reach [OF peersD [OF assms(1)] assms(2)])
  have "dw_fault w 0 = None" using assms(3) m by (auto simp: RevokeAllAgentCredentials_def stmt_def Let_def split: option.splits)
  then have "?u (dw_others w 0 d) = (m, d')" using m by (simp add: stmt_def)
  then have d': "d' = snd (?u (dw_others w 0 d))" by (metis snd_conv)
  obtain c where c: "c \<in> set (db_creds (dw_others w 0 d))" "cr_TokenHash c = h" "cr_ActorID c = k" using t by (auto simp: token_of_def)
  let ?f = "\<lambda>c. if cr_ActorID c = k \<and> cr_RevokedAt c = None then c\<lparr>cr_RevokedAt := Some (dw_now w)\<rparr> else c"
  have "?f c \<in> set (db_creds d')" using c(1) by (simp add: d')
  moreover have "cr_TokenHash (?f c) = h" "cr_RevokedAt (?f c) \<noteq> None" using c by (simp_all del: not_None_eq)
  ultimately have "token_revoked h d'" unfolding token_revoked_def by blast
  moreover have "db_reach d d'" by (rule stmt_then [OF assms(1) m revoke_reach])
  ultimately show ?thesis by blast
qed

text \<open>C27: decommissioning holds. Once the deletion of an agent is answered with 204, every tool call with
  any token that agent was ever issued is refused with 401 and reaches no worker, at any later time,
  on any replica, and even when the database fails.\<close>

theorem deleted_agent_is_shut_out:
  assumes "db_ok d0" "peers w" "Issue sha w k l d0 = (Inr (raw, c), d1)" "db_reach d1 (sv_db sv)"
    and "peers (rw_db u 0)" "deleteAgentHandler u k sv = (Some (204, body), sv')" "db_reach (sv_db sv') d2"
    and "peers v" "serve_mcp sha v (''Bearer '' @ raw) x tw inp h d2 = (ans, h', d3)"
  shows "(\<exists>why. ans = Refused 401 why) \<and> h' = h"
proof -
  have i: "db_reach d0 d1" "token_of (sha raw) k d1" using Issue_makes [OF assms(2,3)] by simp_all
  have t: "token_of (sha raw) k (sv_db sv)" by (rule token.kept_reach [OF assms(4) i(2)])
  have "RevokeAllAgentCredentials (rw_db u 0) k (sv_db sv) = (None, sv_db sv')"
    using assms(6) by (cases "RevokeAllAgentCredentials (rw_db u 0) k (sv_db sv)")
      (auto simp: deleteAgentHandler_def on_db_def writeError_def split: option.splits)
  from revoked_all [OF assms(5) t this] have r: "db_reach (sv_db sv) (sv_db sv')" "token_revoked (sha raw) (sv_db sv')" by simp_all
  have ok: "db_ok d2"
    by (rule db_ok_reach [OF assms(7) db_ok_reach [OF r(1) db_ok_reach [OF assms(4) db_ok_reach [OF i(1) assms(1)]]]])
  have rv: "token_revoked (sha raw) d2" by (rule revoked.kept_reach [OF assms(7) r(2)])
  obtain a d4 where a: "Authenticate sha v raw d2 = (a, d4)" by fastforce
  obtain e where "a = Inl e" using Authenticate_revoked [OF ok assms(8) rv a] by blast
  then show ?thesis using assms(9) a
    by (auto simp: serve_mcp_def RequireBearer_def CutPrefix_def HasPrefix_def split: if_splits)
qed

lemma deleted_agent_is_shut_out_witness:
  "\<exists>raw c d1 body sv' h' d3 why.
     Issue (\<lambda>x. x) quiet_world ''a'' ''ci'' sample_db = (Inr (raw, c), d1) \<and>
     deleteAgentHandler quiet_rest_world ''a'' (sample_server\<lparr>sv_db := d1\<rparr>) = (Some (204, body), sv') \<and>
     serve_mcp (\<lambda>x. x) quiet_world (''Bearer '' @ raw) idle_hub quiet_tool_world SandboxStatusInput (sv_hub sv') (sv_db sv') =
       (Refused 401 why, sv_hub sv', d3)"
proof -
  let ?i = "Issue (\<lambda>x. x) quiet_world ''a'' ''ci'' sample_db"
  have "is_ok (fst ?i)" by code_simp
  then obtain raw c d1 where i: "?i = (Inr (raw, c), d1)" by (cases ?i; cases "fst ?i") auto
  let ?x = "deleteAgentHandler quiet_rest_world ''a'' (sample_server\<lparr>sv_db := d1\<rparr>)"
  have "(case fst ?x of Some (s, b) \<Rightarrow> s = 204 | None \<Rightarrow> False)"
    by (simp add: deleteAgentHandler_def RevokeAllAgentCredentials_def stmt_def quiet_rest_world_def quiet_world_def Let_def split_beta on_db_def update_creds_def)
  then obtain body sv' where x: "?x = (Some (204, body), sv')" by (cases ?x) (auto split: option.splits)
  let ?c = "serve_mcp (\<lambda>x. x) quiet_world (''Bearer '' @ raw) idle_hub quiet_tool_world SandboxStatusInput (sv_hub sv') (sv_db sv')"
  obtain ans h' d3 where c: "?c = (ans, h', d3)" by (metis prod.collapse)
  have s: "db_reach d1 (sv_db (sample_server\<lparr>sv_db := d1\<rparr>))" "peers (rw_db quiet_rest_world 0)"
    by (simp_all add: db_reach.here quiet_rest_world_def)
  from deleted_agent_is_shut_out [OF sample_db_ok quiet_world_ok(1) i s x db_reach.here quiet_world_ok(1) c] i x c
  show ?thesis by blast
qed

section \<open>When the database fails\<close>

lemma Authenticate_fault: "dw_fault w 0 \<noteq> None \<Longrightarrow> \<exists>e d1. Authenticate sha w raw d = (Inl e, d1)"
  by (auto simp: Authenticate_def select_first_def stmt_def Let_def)

lemma bearer_cut: "CutPrefix (''Bearer '' @ raw) ''Bearer '' = (raw, True)"
  by (simp add: CutPrefix_def HasPrefix_def)

lemma no_bearer: "(\<And>raw. header \<noteq> ''Bearer '' @ raw) \<Longrightarrow> \<exists>t. CutPrefix header ''Bearer '' = (t, False)"
  by (simp add: CutPrefix_def HasPrefix_def del: append.simps) (metis append_take_drop_id)

text \<open>What follows once the header was cut.\<close>

definition serve_raw :: "(string \<Rightarrow> string) \<Rightarrow> db_world \<Rightarrow> string \<Rightarrow> 'h Executor \<Rightarrow> tool_world \<Rightarrow> tool_input \<Rightarrow> 'h \<Rightarrow> DB \<Rightarrow>
    (CallToolResult option \<times> tool_output \<times> gerr option) option bearer_answer \<times> 'h \<times> DB" where
  "serve_raw sha w raw x tw inp h d =
     (if raw = [] then (Refused 401 ''missing bearer token'', h, d)
      else case Authenticate sha w raw d of
             (Inl e, d1) \<Rightarrow> (Refused 401 ''invalid or revoked token'', h, d1)
           | (Inr a, d1) \<Rightarrow> (case call_tool x tw (Some a) inp h (Some d1) of
                              (ret, h1, db) \<Rightarrow> (Passed ret, h1, case db of Some d2 \<Rightarrow> d2 | None \<Rightarrow> d1)))"

lemma serve_bearer: "serve_mcp sha w (''Bearer '' @ raw) x tw inp h d = serve_raw sha w raw x tw inp h d"
  unfolding serve_mcp_def RequireBearer_def bearer_cut serve_raw_def by (simp split: prod.split sum.split)

lemma serve_passed:
  assumes "serve_mcp sha w header x tw inp h d = (ans, h', d')"
  shows "(\<exists>why. ans = Refused 401 why) \<and> h' = h \<or>
    (\<exists>raw a d1 ret db'. header = ''Bearer '' @ raw \<and> raw \<noteq> [] \<and> Authenticate sha w raw d = (Inr a, d1) \<and>
       call_tool x tw (Some a) inp h (Some d1) = (ret, h', db') \<and> ans = Passed ret)"
proof (cases "\<exists>raw. header = ''Bearer '' @ raw")
  case True
  then obtain raw where raw: "header = ''Bearer '' @ raw" ..
  obtain r d1 where a: "Authenticate sha w raw d = (r, d1)" by fastforce
  note s = serve_bearer [of sha w raw x tw inp h d, folded raw]
  show ?thesis
  proof (cases "raw = [] \<or> (\<exists>e. r = Inl e)")
    case True
    then have "serve_raw sha w raw x tw inp h d \<in> {(Refused 401 ''missing bearer token'', h, d), (Refused 401 ''invalid or revoked token'', h, d1)}"
      using a by (cases "raw = []") (auto simp: serve_raw_def)
    with assms s show ?thesis by simp blast
  next
    case False
    then obtain ac where ac: "r = Inr ac" "raw \<noteq> []" by (cases r) auto
    obtain ret h2 db2 where c: "call_tool x tw (Some ac) inp h (Some d1) = (ret, h2, db2)" by (metis prod.collapse)
    with assms a s ac have "ans = Passed ret" "h' = h2" by (simp_all add: serve_raw_def)
    with raw ac a c show ?thesis by blast
  qed
next
  case False
  then obtain t where "CutPrefix header ''Bearer '' = (t, False)" using no_bearer [of header] by blast
  with assms have "ans = Refused 401 ''missing bearer token''" "h' = h" by (simp_all add: serve_mcp_def RequireBearer_def)
  then show ?thesis by blast
qed

lemma serve_refused:
  assumes "serve_mcp sha w header x tw inp h d = (Refused c why, h', d')"
  shows "serve_mcp sha w header x tv inp h d = (Refused c why, h', d')"
proof (cases "\<exists>raw. header = ''Bearer '' @ raw")
  case True
  then obtain raw where raw: "header = ''Bearer '' @ raw" ..
  show ?thesis using assms unfolding raw serve_bearer by (auto simp: serve_raw_def split: if_splits prod.splits sum.splits)
next
  case False
  then obtain t where "CutPrefix header ''Bearer '' = (t, False)" using no_bearer [of header] by blast
  with assms show ?thesis by (simp add: serve_mcp_def RequireBearer_def)
qed

lemma serve_fails_open:
  assumes "leaves_blocks (tw_start tw)" "leaves_blocks ws" "\<forall>i d. dw_others (tw_gate tw) i d = d"
    and "serve_mcp sha w header x tw inp h d = (ans, h', d')"
  shows "\<exists>d''. serve_mcp sha w header x (tw\<lparr>tw_start := ws, tw_end := we\<rparr>) inp h d = (ans, h', d'')"
proof -
  let ?v = "tw\<lparr>tw_start := ws, tw_end := we\<rparr>"
  from serve_passed [OF assms(4)] show ?thesis
  proof (elim disjE conjE exE)
    fix why assume "ans = Refused 401 why" "h' = h"
    with assms(4) serve_refused [of sha w header x tw inp h d 401 why h' d' ?v] show ?thesis by simp
  next
    fix raw a d1 ret db'
    assume c: "header = ''Bearer '' @ raw" "raw \<noteq> []" "Authenticate sha w raw d = (Inr a, d1)"
      "call_tool x tw (Some a) inp h (Some d1) = (ret, h', db')" "ans = Passed ret"
    from journal_fails_open [OF assms(1,2) assms(3) [rule_format] c(4), of we] obtain db'' where
      "call_tool x ?v (Some a) inp h (Some d1) = (ret, h', Some db'')" by blast
    with c(2,3) have "serve_raw sha w raw x ?v inp h d = (Passed ret, h', db'')" by (simp add: serve_raw_def)
    then show ?thesis unfolding c(1,5) serve_bearer by blast
  qed
qed

text \<open>C29: failures close the gate and not the journal. A tool call does something on a worker only
  if its token was looked up, found unrevoked and its owner loaded, and the block table was read,
  without an error: a database that fails the first is answered with 401, one that fails the second
  with an error that names the check, and the executor is as it was either way. A journal that
  cannot be written changes neither what the call does nor what the agent is told.\<close>

theorem failed_checks_let_nothing_through:
  assumes "real_faults (tw_gate tw)" "serve_mcp sha w header x tw inp h d = (ans, h', d')"
  shows "(h' \<noteq> h \<longrightarrow> dw_fault (tw_gate tw) 0 = None \<and>
      (\<exists>raw a d1. header = ''Bearer '' @ raw \<and> raw \<noteq> [] \<and> Authenticate sha w raw d = (Inr a, d1))) \<and>
    (dw_fault w 0 \<noteq> None \<longrightarrow> h' = h \<and> (\<exists>why. ans = Refused 401 why)) \<and>
    (\<forall>raw a d1 e. header = ''Bearer '' @ raw \<longrightarrow> raw \<noteq> [] \<longrightarrow> Authenticate sha w raw d = (Inr a, d1) \<longrightarrow>
      dw_fault (tw_gate tw) 0 = Some e \<longrightarrow> path_given inp \<longrightarrow>
      h' = h \<and> (\<exists>out. ans = Passed (Some (None, out, Some (unverified e))))) \<and>
    (\<forall>ws we. leaves_blocks (tw_start tw) \<longrightarrow> leaves_blocks ws \<longrightarrow> (\<forall>i d. dw_others (tw_gate tw) i d = d) \<longrightarrow>
      (\<exists>d''. serve_mcp sha w header x (tw\<lparr>tw_start := ws, tw_end := we\<rparr>) inp h d = (ans, h', d'')))"
proof (intro conjI impI allI)
  note s = serve_passed [OF assms(2)]
  have gate: "h' = h \<and> (path_given inp \<longrightarrow> (\<exists>out. ans = Passed (Some (None, out, Some (unverified e)))))"
    if "ans = Passed ret" "call_tool x tw (Some a) inp h (Some d1) = (ret, h', db')" "dw_fault (tw_gate tw) 0 = Some e" for a d1 ret db' e
    using faulty_gate_tool [OF assms(1) that(3), of x a inp h d1] that(1,2) by auto
  { assume "h' \<noteq> h"
    with s obtain a d1 ret db' where c: "ans = Passed ret" "call_tool x tw (Some a) inp h (Some d1) = (ret, h', db')" by blast
    show "dw_fault (tw_gate tw) 0 = None"
    proof (rule ccontr)
      assume "dw_fault (tw_gate tw) 0 \<noteq> None"
      then obtain e where "dw_fault (tw_gate tw) 0 = Some e" by blast
      with gate [OF c] \<open>h' \<noteq> h\<close> show False by blast
    qed
    from \<open>h' \<noteq> h\<close> s show "\<exists>raw a d1. header = ''Bearer '' @ raw \<and> raw \<noteq> [] \<and> Authenticate sha w raw d = (Inr a, d1)" by blast }
  { assume "dw_fault w 0 \<noteq> None"
    then have "\<exists>e d1. Authenticate sha w raw d = (Inl e, d1)" for raw by (rule Authenticate_fault)
    then have "\<not> (\<exists>raw a d1. Authenticate sha w raw d = (Inr a, d1))" by (metis old.sum.distinct(1) prod.inject)
    with s show "h' = h" "\<exists>why. ans = Refused 401 why" by blast+ }
  { fix raw a d1 e
    assume p: "header = ''Bearer '' @ raw" "raw \<noteq> []" "Authenticate sha w raw d = (Inr a, d1)" and e: "dw_fault (tw_gate tw) 0 = Some e" "path_given inp"
    have "serve_raw sha w raw x tw inp h d = (ans, h', d')" using assms(2) unfolding p(1) serve_bearer .
    with p(2,3) obtain ret db' where "ans = Passed ret" "call_tool x tw (Some a) inp h (Some d1) = (ret, h', db')"
      by (auto simp: serve_raw_def split: prod.splits)
    from gate [OF this e(1)] e(2) show "h' = h" "\<exists>out. ans = Passed (Some (None, out, Some (unverified e)))" by blast+ }
  fix ws we
  assume "leaves_blocks (tw_start tw)" "leaves_blocks ws" "\<forall>i d. dw_others (tw_gate tw) i d = d"
  then show "\<exists>d''. serve_mcp sha w header x (tw\<lparr>tw_start := ws, tw_end := we\<rparr>) inp h d = (ans, h', d'')"
    by (rule serve_fails_open [OF _ _ _ assms(2)])
qed

lemma failed_checks_let_nothing_through_witness:
  "let locked = quiet_world\<lparr>dw_fault := (\<lambda>i. Some (Plain ''database is locked''))\<rparr>; hb = newHub (NewBroadcaster 0)
   in (\<exists>why d'. serve_mcp (\<lambda>x. x) locked ''Bearer t'' idle_hub quiet_tool_world SandboxStatusInput hb sample_db = (Refused 401 why, hb, d')) \<and>
     (\<exists>raw out d'. raw \<noteq> [] \<and> serve_mcp (\<lambda>x. x) quiet_world (''Bearer '' @ raw) idle_hub (quiet_tool_world\<lparr>tw_gate := locked\<rparr>) SandboxStatusInput hb
        (snd (Issue (\<lambda>x. x) quiet_world ''a'' ''ci'' sample_db)) =
        (Passed (Some (None, out, Some (unverified (Plain ''database is locked'')))), hb, d'))"
proof -
  let ?w = "quiet_world\<lparr>dw_fault := (\<lambda>i. Some (Plain ''database is locked''))\<rparr>" and ?h = "newHub (NewBroadcaster 0)"
  let ?t = "quiet_tool_world\<lparr>tw_gate := ?w\<rparr>" and ?i = "Issue (\<lambda>x. x) quiet_world ''a'' ''ci'' sample_db"
  have rf: "real_faults (tw_gate quiet_tool_world)" "real_faults (tw_gate ?t)"
    by (simp_all add: real_faults_def quiet_tool_world_def quiet_world_def ErrRecordNotFound_def)
  let ?x = "serve_mcp (\<lambda>x. x) ?w ''Bearer t'' idle_hub quiet_tool_world SandboxStatusInput ?h sample_db"
  obtain ans h' d' where x: "?x = (ans, h', d')" by (metis prod.collapse)
  from failed_checks_let_nothing_through [OF rf(1) x] x have a: "\<exists>why d'. ?x = (Refused 401 why, ?h, d')" by auto
  have "is_ok (fst ?i)" by code_simp
  then obtain raw c where i: "fst ?i = Inr (raw, c)" by (cases "fst ?i") auto
  have "(case fst ?i of Inr (raw, c) \<Rightarrow> raw \<noteq> [] \<and> is_ok (fst (Authenticate (\<lambda>x. x) quiet_world raw (snd ?i))) | Inl e \<Rightarrow> False)" by code_simp
  with i have r: "raw \<noteq> []" "is_ok (fst (Authenticate (\<lambda>x. x) quiet_world raw (snd ?i)))" by simp_all
  then obtain ac d1 where au: "Authenticate (\<lambda>x. x) quiet_world raw (snd ?i) = (Inr ac, d1)"
    by (cases "Authenticate (\<lambda>x. x) quiet_world raw (snd ?i)"; cases "fst (Authenticate (\<lambda>x. x) quiet_world raw (snd ?i))") auto
  let ?y = "serve_mcp (\<lambda>x. x) quiet_world (''Bearer '' @ raw) idle_hub ?t SandboxStatusInput ?h (snd ?i)"
  obtain ans2 h2 d2 where y: "?y = (ans2, h2, d2)" by (metis prod.collapse)
  have g: "dw_fault (tw_gate ?t) 0 = Some (Plain ''database is locked'')" "path_given SandboxStatusInput" by simp_all
  from failed_checks_let_nothing_through [OF rf(2) y] r(1) au g have
    "h2 = ?h \<and> (\<exists>out. ans2 = Passed (Some (None, out, Some (unverified (Plain ''database is locked'')))))" by blast
  with y r(1) a show ?thesis unfolding Let_def by blast
qed

end
