(* ===== verification/Storage_Calls.thy ===== *)
theory Storage_Calls imports Mcp_Server begin

text \<open>
  Every call of a repository is a sequence of statements: the reachability relation the guarantees
  quantify over is what the code does, whichever calls are made and however they fail or interleave.
\<close>

section \<open>Calls as sequences of statements\<close>

definition made_of :: "DB \<Rightarrow> 'a \<times> DB \<Rightarrow> bool" where
  "made_of d x \<longleftrightarrow> db_reach d (snd x)"

lemma made_done [intro]: "made_of d (r, d)"
  by (simp add: made_of_def db_reach.here)

lemma made_bind [intro]:
  assumes "made_of d x" "\<And>r d'. x = (r, d') \<Longrightarrow> made_of d' (f r d')" shows "made_of d (let (r, d') = x in f r d')"
  using assms db_reach_trans by (cases x) (auto simp: made_of_def)

lemma made_cases:
  "(\<And>e. r = Inl e \<Longrightarrow> made_of d (f e)) \<Longrightarrow> (\<And>a. r = Inr a \<Longrightarrow> made_of d (g a)) \<Longrightarrow> made_of d (case r of Inl e \<Rightarrow> f e | Inr a \<Rightarrow> g a)"
  "(c \<Longrightarrow> made_of d x) \<Longrightarrow> (\<not> c \<Longrightarrow> made_of d y) \<Longrightarrow> made_of d (if c then x else y)"
  "(b \<Longrightarrow> made_of d x) \<Longrightarrow> (\<not> b \<Longrightarrow> made_of d y) \<Longrightarrow> made_of d (case b of True \<Rightarrow> x | False \<Rightarrow> y)"
  by (auto split: sum.split bool.split)

lemma made_stmt: "peers w \<Longrightarrow> (\<And>d. db_reach d (snd (f d))) \<Longrightarrow> made_of d (stmt w i f d)"
  by (simp add: made_of_def stmt_reach)

lemma made_select: "peers w \<Longrightarrow> made_of d (select_first w i q d)" "peers w \<Longrightarrow> made_of d (select_rows w i q' d)"
  by (simp_all add: made_of_def select_reach)

lemma made_named: "peers w \<Longrightarrow> made_of d (named_actor w i k d)"
  by (simp add: named_actor_def made_select)

lemma made_GetActorByID: "peers w \<Longrightarrow> made_of d (GetActorByID w i k d)"
  unfolding GetActorByID_def by (rule made_bind [OF made_select(1)]) auto

lemma actor_reach: "db_reach d (snd (insert_actor w a d))"
  by (rule db_reach_one [OF db_stmt.actor])

lemma audit_reach: "db_reach d (snd (insert_audit w e d))"
  by (rule db_reach_one [OF db_stmt.audit])

lemma made_inserts:
  "peers w \<Longrightarrow> made_of d (stmt w i (insert_actor w' a) d)"
  "peers w \<Longrightarrow> cr_RevokedAt c = None \<Longrightarrow> made_of d (stmt w i (insert_cred w' c) d)"
  "peers w \<Longrightarrow> made_of d (stmt w i (insert_audit w' e) d)"
  "peers w \<Longrightarrow> made_of d (stmt w i (human_tx w' j s n role) d)"
  "peers w \<Longrightarrow> made_of d (stmt w i (update_identities P (\<lambda>u. u\<lparr>ui_Role := role\<rparr>)) d)"
  "peers w \<Longrightarrow> made_of d (stmt w i (update_creds Q (\<lambda>c. c\<lparr>cr_LastUsedAt := Some t\<rparr>)) d)"
  "peers w \<Longrightarrow> made_of d (stmt w i (update_creds (\<lambda>c. Q c \<and> cr_RevokedAt c = None) (\<lambda>c. c\<lparr>cr_RevokedAt := Some t\<rparr>)) d)"
  by (rule made_stmt, assumption, rule actor_reach insert_cred_reach audit_reach human_tx_reach role_reach touch_reach revoke_reach; assumption?)+

lemma made_CreateAgent: "peers w \<Longrightarrow> made_of d (CreateAgent w n d)"
  unfolding CreateAgent_def Let_def [of "TrimSpace n"] Let_def [where s = "\<lparr>ac_ID = a, ac_DisplayName = b, ac_Kind = c, ac_CreatedAt = t\<rparr>" for a b c t]
  by (intro made_cases made_bind made_select made_inserts made_done)

lemma made_Issue: "peers w \<Longrightarrow> made_of d (Issue sha w k l d)"
  unfolding Issue_def Let_def [where s = "\<lparr>cr_ID = a, cr_ActorID = b, cr_Label = c, cr_TokenHash = e, cr_CreatedAt = f, cr_RevokedAt = g, cr_LastUsedAt = h\<rparr>" for a b c e f g h]
  by (intro made_cases made_bind made_GetActorByID made_inserts made_done) simp_all

lemma made_Authenticate: "peers w \<Longrightarrow> made_of d (Authenticate sha w raw d)"
  unfolding Authenticate_def by (intro made_cases made_bind made_select made_GetActorByID made_inserts made_done)

lemma made_revokes: "peers w \<Longrightarrow> made_of d (RevokeAgentToken w c d)" "peers w \<Longrightarrow> made_of d (RevokeAllAgentCredentials w k d)"
  unfolding RevokeAgentToken_def RevokeAllAgentCredentials_def by (intro made_bind made_inserts made_done; assumption)+

lemma made_BlockSandbox: "peers w \<Longrightarrow> made_of d (BlockSandbox w k admin reason d)"
  using BlockSandbox_then [of w k admin reason d] by (cases "BlockSandbox w k admin reason d") (simp add: made_of_def)

lemma made_ReleaseSandbox: "peers w \<Longrightarrow> made_of d (ReleaseSandbox w k admin d)"
proof -
  assume p: "peers w"
  have "db_reach d' (snd (update_blocks (\<lambda>b. bk_ActorID b = k \<and> bk_ActiveKey b \<noteq> None)
      (\<lambda>b. b\<lparr>bk_ActiveKey := None, bk_ReleasedAt := Some t, bk_ReleasedByName := n\<rparr>) d'))" for d' t n
    using db_reach_one [OF db_stmt.release, of d' "\<lambda>b. bk_ActorID b = k" t n] by (simp add: release_where_def)
  then show ?thesis unfolding ReleaseSandbox_def by (intro made_bind made_stmt [OF p] made_done)
qed

lemma made_RecordKilled: "peers w \<Longrightarrow> made_of d (RecordKilledProcesses w b n d)"
  by (simp add: made_of_def killed_reach)

lemma made_appendAudit: "peers w \<Longrightarrow> made_of d (appendAudit w k rec phase d)"
  unfolding appendAudit_def by (intro made_bind made_inserts made_done)

lemma made_journal: "peers w \<Longrightarrow> made_of d (AppendAuditStarted w rec d)" "peers w \<Longrightarrow> made_of d (AppendAuditFinished w rec d)"
  unfolding AppendAuditStarted_def AppendAuditFinished_def Let_def [where s = "if c then x else y" for c x y]
  by (intro made_bind made_appendAudit made_done; assumption)+

lemma made_PruneAudit: "peers w \<Longrightarrow> made_of d (PruneAudit w t d)"
proof -
  assume p: "peers w"
  have "db_reach d' (d'\<lparr>db_audit := filter (\<lambda>e. \<not> au_At e < dw_now w - t) (db_audit d')\<rparr>)" for d'
    by (rule db_reach_one, rule db_stmt.prune)
  then show ?thesis unfolding PruneAudit_def by (intro made_cases made_stmt [OF p] made_done) simp_all
qed

lemma made_GetOrCreate: "peers w \<Longrightarrow> made_of d (GetOrCreateHumanActor w s n role d)"
  unfolding GetOrCreateHumanActor_def Let_def [of "dw_uuid w 0"]
  by (intro made_cases made_bind made_select made_named made_inserts made_done)

section \<open>Runs of the repositories\<close>

text \<open>One call that may write, of any of the repositories.\<close>

inductive repo_call :: "DB \<Rightarrow> DB \<Rightarrow> bool" where
  create: "peers w \<Longrightarrow> CreateAgent w n d = (a, d') \<Longrightarrow> repo_call d d'"
| issue: "peers w \<Longrightarrow> Issue sha w k l d = (t, d') \<Longrightarrow> repo_call d d'"
| revoke: "peers w \<Longrightarrow> RevokeAgentToken w k d = (e, d') \<Longrightarrow> repo_call d d'"
| revoke_all: "peers w \<Longrightarrow> RevokeAllAgentCredentials w k d = (e, d') \<Longrightarrow> repo_call d d'"
| authenticate: "peers w \<Longrightarrow> Authenticate sha w raw d = (a, d') \<Longrightarrow> repo_call d d'"
| block: "peers w \<Longrightarrow> BlockSandbox w k admin reason d = (b, d') \<Longrightarrow> repo_call d d'"
| release: "peers w \<Longrightarrow> ReleaseSandbox w k admin d = (e, d') \<Longrightarrow> repo_call d d'"
| killed: "peers w \<Longrightarrow> RecordKilledProcesses w k m d = (e, d') \<Longrightarrow> repo_call d d'"
| started: "peers w \<Longrightarrow> AppendAuditStarted w rec d = (c, d') \<Longrightarrow> repo_call d d'"
| finished: "peers w \<Longrightarrow> AppendAuditFinished w rec d = (e, d') \<Longrightarrow> repo_call d d'"
| prune: "peers w \<Longrightarrow> PruneAudit w t d = (x, d') \<Longrightarrow> repo_call d d'"
| login: "peers w \<Longrightarrow> GetOrCreateHumanActor w s n role d = (a, d') \<Longrightarrow> repo_call d d'"

lemma made_pair: "made_of d x \<Longrightarrow> x = (r, d') \<Longrightarrow> db_reach d d'"
  by (simp add: made_of_def)

lemmas calls_made = made_CreateAgent made_Issue made_revokes made_Authenticate made_BlockSandbox made_ReleaseSandbox
  made_RecordKilled made_journal made_PruneAudit made_GetOrCreate

lemma repo_call_reach: "repo_call d d' \<Longrightarrow> db_reach d d'"
  by (induction rule: repo_call.induct; erule made_pair [rotated]; intro calls_made)

inductive repo_run :: "DB \<Rightarrow> DB \<Rightarrow> bool" where
  start: "repo_run d d"
| then_call: "repo_run d d' \<Longrightarrow> repo_call d' d'' \<Longrightarrow> repo_run d d''"

lemma repo_run_reach: "repo_run d d' \<Longrightarrow> db_reach d d'"
  by (induction rule: repo_run.induct) (auto intro: db_reach.here db_reach_trans repo_call_reach)

text \<open>C23: the tables stay well formed. Whatever calls the servers make, in whatever order, with statements of
  other connections between theirs, and wherever they fail: ids, names, digests and logins stay
  unique, and a block holds its agent's key exactly as long as it is not released.\<close>

theorem tables_stay_well_formed:
  assumes "repo_run d d'" "db_ok d" shows "db_ok d'"
  by (rule db_ok_reach [OF repo_run_reach [OF assms(1)] assms(2)])

lemma tables_stay_well_formed_witness:
  "\<exists>raw c d1 b d2. Issue (\<lambda>x. x) quiet_world ''a'' ''ci'' sample_db = (Inr (raw, c), d1) \<and>
     BlockSandbox quiet_world ''a'' sample_admin ''loop'' d1 = (b, d2) \<and> db_ok d2 \<and> length (db_creds d2) = 1"
proof -
  let ?i = "Issue (\<lambda>x. x) quiet_world ''a'' ''ci'' sample_db"
  have "is_ok (fst ?i) \<and> length (db_creds (snd (BlockSandbox quiet_world ''a'' sample_admin ''loop'' (snd ?i)))) = 1" by code_simp
  then obtain raw c d1 where i: "?i = (Inr (raw, c), d1)" and n: "length (db_creds (snd (BlockSandbox quiet_world ''a'' sample_admin ''loop'' d1))) = 1"
    by (cases ?i; cases "fst ?i") auto
  obtain b d2 where b: "BlockSandbox quiet_world ''a'' sample_admin ''loop'' d1 = (b, d2)" by fastforce
  have "repo_run sample_db d2"
    by (rule repo_run.then_call [OF repo_run.then_call [OF repo_run.start repo_call.issue [OF quiet_world_ok(1) i]] repo_call.block [OF quiet_world_ok(1) b]])
  from tables_stay_well_formed [OF this sample_db_ok] i b n show ?thesis by auto
qed

end
