(* ===== verification/Cmd_Executor.thy ===== *)
theory Cmd_Executor imports Human_Auth Storage_Calls Stream_Broadcaster Sandbox_Env begin

text \<open>
  \<open>cmd/executor\<close> and \<open>internal/health\<close>: what the server mounts, how it starts while its database is
  not there yet, and the pruning of the journal. Decoding base64, discovering the identity provider,
  loading the assets and opening the database are arguments.
\<close>

section \<open>\<open>health.go\<close>\<close>

text \<open>\<open>Ping\<close> may be missing; otherwise it is what it answers.\<close>

record ReadyChecker =
  rc_Ping :: "gerr option option"
  rc_MigrationsReady :: bool
  rc_OIDCReady :: bool

definition failing_checks :: "ReadyChecker \<Rightarrow> string list" where
  "failing_checks rc =
     (if rc_MigrationsReady rc then [] else [''migrations'']) @
     (if rc_OIDCReady rc then [] else [''oidc_discovery'']) @
     (case rc_Ping rc of None \<Rightarrow> [''database''] | Some None \<Rightarrow> [] | Some (Some e) \<Rightarrow> [''database''])"

definition Readyz :: "ReadyChecker \<Rightarrow> nat \<times> string \<times> string list" where
  "Readyz rc = (if failing_checks rc \<noteq> [] then (503, ''not_ready'', failing_checks rc) else (200, ''ready'', []))"

definition Livez :: nat where "Livez = 200"

section \<open>Flags and routes\<close>

record exec_flags =
  ef_listen_addr :: string
  ef_db_dsn :: string
  ef_worker_token :: string
  ef_audit_retention :: int
  ef_auth_stub :: bool
  ef_oidc_issuer :: string
  ef_oidc_client_id :: string
  ef_oidc_client_secret :: string
  ef_public_url :: string
  ef_admin_group :: string
  ef_session_key :: string
  ef_stream_buffer :: int
  ef_devel :: bool

definition exec_defaults :: exec_flags where
  "exec_defaults =
     \<lparr>ef_listen_addr = '':8080'', ef_db_dsn = ''data/executor.db'', ef_worker_token = [], ef_audit_retention = 7 * 24 * 3600 * second,
      ef_auth_stub = False, ef_oidc_issuer = [], ef_oidc_client_id = [], ef_oidc_client_secret = [], ef_public_url = [],
      ef_admin_group = ''admins'', ef_session_key = [], ef_stream_buffer = DefaultStreamBufferBytes, ef_devel = False\<rparr>"

record OIDCConfig =
  oc_Issuer :: string
  oc_ClientID :: string
  oc_ClientSecret :: string
  oc_PublicURL :: string
  oc_AdminGroup :: string
  oc_EncryptionKey :: string

datatype auth_provider = StubProvider | OIDCProvider OIDCConfig

datatype app_route =
    RouteMcp
  | RouteWorker string
  | RouteApi auth_provider
  | RouteLogin
  | RouteCallback
  | RouteLogout
  | RouteFrontend

record boot_world =
  bw_base64 :: "string \<Rightarrow> string res"
  bw_discover :: "string \<Rightarrow> gerr option"
  bw_frontend :: "bool \<Rightarrow> gerr option"
  bw_pool :: "gerr option"

definition NewOIDCHandlers :: "boot_world \<Rightarrow> OIDCConfig \<Rightarrow> auth_provider res" where
  "NewOIDCHandlers w cfg =
     (case bw_discover w (oc_Issuer cfg) of
        Some e \<Rightarrow> Inl (Wrap (''discover OIDC issuer '' @ quoted (oc_Issuer cfg) @ '': '') e [])
      | None \<Rightarrow> Inr (OIDCProvider cfg))"

text \<open>The provider, and whether the routes of the login are mounted.\<close>

definition auth_of_flags :: "boot_world \<Rightarrow> exec_flags \<Rightarrow> auth_provider res" where
  "auth_of_flags w f =
     (if ef_auth_stub f then Inr StubProvider
      else if ef_oidc_issuer f = [] \<or> ef_oidc_client_id f = [] \<or> ef_oidc_client_secret f = [] \<or> ef_public_url f = [] \<or> ef_session_key f = []
      then Inl (Plain ''OIDC auth requires --oidc-issuer, --oidc-client-id, --oidc-client-secret, --public-url, and --session-encryption-key (or pass --auth-stub for local development)'')
      else
        case bw_base64 w (ef_session_key f) of
          Inl e \<Rightarrow> Inl (Wrap ''--session-encryption-key must be valid base64: '' e [])
        | Inr key \<Rightarrow>
            if length key \<noteq> 32
            then Inl (Plain (''--session-encryption-key must decode to exactly 32 bytes, got '' @ show_nat (length key) @
                   '' (generate one with: openssl rand -base64 32)''))
            else
              (case NewOIDCHandlers w \<lparr>oc_Issuer = ef_oidc_issuer f, oc_ClientID = ef_oidc_client_id f,
                   oc_ClientSecret = ef_oidc_client_secret f, oc_PublicURL = ef_public_url f, oc_AdminGroup = ef_admin_group f,
                   oc_EncryptionKey = key\<rparr> of
                 Inl e \<Rightarrow> Inl (Wrap ''configure OIDC: '' e [])
               | Inr p \<Rightarrow> Inr p))"

text \<open>\<open>ping\<close> is what the database answers a ping when it is asked.\<close>

definition buildAppHandler :: "boot_world \<Rightarrow> exec_flags \<Rightarrow> gerr option \<Rightarrow> (app_route list \<times> ReadyChecker) res" where
  "buildAppHandler w f ping =
     (case auth_of_flags w f of
        Inl e \<Rightarrow> Inl e
      | Inr provider \<Rightarrow>
          (case bw_frontend w (ef_devel f) of
             Some e \<Rightarrow> Inl (Wrap ''load frontend assets: '' e [])
           | None \<Rightarrow>
               (case bw_pool w of
                  Some e \<Rightarrow> Inl (Wrap ''get pooled db handle: '' e [])
                | None \<Rightarrow>
                    Inr ([RouteMcp, RouteWorker (ef_worker_token f), RouteApi provider] @
                         (if \<not> ef_auth_stub f then [RouteLogin, RouteCallback, RouteLogout] else []) @ [RouteFrontend],
                         \<lparr>rc_Ping = Some ping, rc_MigrationsReady = True, rc_OIDCReady = True\<rparr>))))"

section \<open>Starting\<close>

text \<open>The retries of opening the database: for each, whether the context ends during the wait, and
  what opening answers. The result is the waits, and whether the database was opened.\<close>

definition maxBackoff :: int where "maxBackoff = 30 * second"

fun retryOpenUntilReady :: "int \<Rightarrow> (bool \<times> gerr option) list \<Rightarrow> int list \<times> bool option" where
  "retryOpenUntilReady backoff [] = ([], None)"
| "retryOpenUntilReady backoff ((ended, answer) # rest) =
     (if ended then ([backoff], Some False)
      else case answer of
        None \<Rightarrow> ([backoff], Some True)
      | Some e \<Rightarrow> (let (ws, r) = retryOpenUntilReady (min (backoff * 2) maxBackoff) rest in (backoff # ws, r)))"

text \<open>The server: what it serves, the readiness it reports, whether the journal is pruned, and
  what the main loop returned.\<close>

record server_state =
  ss_app :: "app_route list option"
  ss_checker :: ReadyChecker
  ss_opened :: bool
  ss_pending :: "ReadyChecker option"
  ss_pruner :: bool
  ss_result :: "gerr option option"

datatype serve_event =
    OpenFails gerr
  | OpenSucceeds
  | TakeDB "gerr option"
  | StoreChecker
  | Interrupted "gerr option"
  | ListenerEnds gerr

definition ErrServerClosed :: gerr where "ErrServerClosed = Sentinel ''http: Server closed''"

text \<open>What \<open>ListenAndServe\<close> returned, as the main loop passes it on.\<close>

definition listener_result :: "gerr \<Rightarrow> gerr option" where
  "listener_result e = (if errors_is e ErrServerClosed then None else Some e)"

definition serveReady :: "boot_world \<Rightarrow> exec_flags \<Rightarrow> gerr option \<Rightarrow> server_state res" where
  "serveReady w f ping =
     (case buildAppHandler w f ping of
        Inl e \<Rightarrow> Inl e
      | Inr (routes, rc) \<Rightarrow>
          Inr \<lparr>ss_app = Some routes, ss_checker = rc, ss_opened = True, ss_pending = None,
               ss_pruner = (0 < ef_audit_retention f), ss_result = None\<rparr>)"

definition degraded_start :: "gerr \<Rightarrow> server_state" where
  "degraded_start firstErr =
     \<lparr>ss_app = None, ss_checker = \<lparr>rc_Ping = Some (Some firstErr), rc_MigrationsReady = False, rc_OIDCReady = False\<rparr>,
      ss_opened = False, ss_pending = None, ss_pruner = False, ss_result = None\<rparr>"

text \<open>The goroutine that retries and the loop that serves interleave. The loop stores the routes
  and the checker in two steps. A step that is not enabled leaves the state.\<close>

fun serve_step :: "boot_world \<Rightarrow> exec_flags \<Rightarrow> serve_event \<Rightarrow> server_state \<Rightarrow> server_state" where
  "serve_step w f (OpenFails e) s =
     (if ss_opened s then s else s\<lparr>ss_checker := (ss_checker s)\<lparr>rc_Ping := Some (Some e)\<rparr>\<rparr>)"
| "serve_step w f OpenSucceeds s = s\<lparr>ss_opened := True\<rparr>"
| "serve_step w f (TakeDB ping) s =
     (if ss_opened s \<and> ss_app s = None \<and> ss_result s = None
      then case buildAppHandler w f ping of
             Inl e \<Rightarrow> s\<lparr>ss_result := Some (Some e)\<rparr>
           | Inr (routes, rc) \<Rightarrow> s\<lparr>ss_app := Some routes, ss_pending := Some rc\<rparr>
      else s)"
| "serve_step w f StoreChecker s =
     (case ss_pending s of
        Some rc \<Rightarrow> if ss_result s = None then s\<lparr>ss_checker := rc, ss_pending := None\<rparr> else s
      | None \<Rightarrow> s)"
| "serve_step w f (Interrupted shut) s = (if ss_pending s = None \<and> ss_result s = None then s\<lparr>ss_result := Some shut\<rparr> else s)"
| "serve_step w f (ListenerEnds e) s = (if ss_pending s = None \<and> ss_result s = None then s\<lparr>ss_result := Some (listener_result e)\<rparr> else s)"

definition serveDegradedUntilReady :: "boot_world \<Rightarrow> exec_flags \<Rightarrow> gerr \<Rightarrow> serve_event list \<Rightarrow> server_state" where
  "serveDegradedUntilReady w f firstErr evs = fold (serve_step w f) evs (degraded_start firstErr)"

text \<open>A request for anything but the probes.\<close>

definition route_request :: "server_state \<Rightarrow> app_route list res" where
  "route_request s = (case ss_app s of Some rs \<Rightarrow> Inr rs | None \<Rightarrow> Inl (Plain ''starting up: database not yet available''))"

section \<open>Pruning\<close>

text \<open>One world for each tick before the context ends; a failure is logged and the loop goes on.\<close>

fun pruneAuditPeriodically :: "db_world list \<Rightarrow> int \<Rightarrow> DB \<Rightarrow> DB" where
  "pruneAuditPeriodically [] keep d = d"
| "pruneAuditPeriodically (w # ws) keep d =
     (if keep \<le> 0 then d else pruneAuditPeriodically ws keep (snd (PruneAudit w keep d)))"

section \<open>Properties\<close>

text \<open>Nobody is let in without a credential check by accident: the routes are built with the provider
  that needs none only under \<open>--auth-stub\<close>, and otherwise only with a complete configuration, an
  issuer that answered and a key of 32 bytes.\<close>

theorem stub_needs_its_flag:
  assumes "buildAppHandler w f ping = Inr (routes, rc)"
  shows "\<exists>p. RouteApi p \<in> set routes \<and> (\<forall>q. RouteApi q \<in> set routes \<longrightarrow> q = p) \<and>
    (if ef_auth_stub f then p = StubProvider \<and> RouteLogin \<notin> set routes
     else \<exists>cfg. p = OIDCProvider cfg \<and> length (oc_EncryptionKey cfg) = 32 \<and> oc_Issuer cfg = ef_oidc_issuer f \<and>
       ef_oidc_issuer f \<noteq> [] \<and> ef_oidc_client_secret f \<noteq> [] \<and> bw_discover w (ef_oidc_issuer f) = None \<and> RouteLogin \<in> set routes)"
proof -
  obtain p where p: "auth_of_flags w f = Inr p"
    using assms by (cases "auth_of_flags w f") (auto simp: buildAppHandler_def)
  have routes: "routes = [RouteMcp, RouteWorker (ef_worker_token f), RouteApi p] @
      (if \<not> ef_auth_stub f then [RouteLogin, RouteCallback, RouteLogout] else []) @ [RouteFrontend]"
    using assms p by (auto simp: buildAppHandler_def split: option.splits)
  show ?thesis
  proof (cases "ef_auth_stub f")
    case True
    then show ?thesis using p routes by (intro exI [of _ p]) (auto simp: auth_of_flags_def)
  next
    case False
    obtain key where key: "length key = 32" "p = OIDCProvider \<lparr>oc_Issuer = ef_oidc_issuer f, oc_ClientID = ef_oidc_client_id f,
        oc_ClientSecret = ef_oidc_client_secret f, oc_PublicURL = ef_public_url f, oc_AdminGroup = ef_admin_group f, oc_EncryptionKey = key\<rparr>"
      "bw_discover w (ef_oidc_issuer f) = None" "ef_oidc_issuer f \<noteq> []" "ef_oidc_client_secret f \<noteq> []"
      using p False by (auto simp: auth_of_flags_def NewOIDCHandlers_def split: if_splits sum.splits option.splits)
    then show ?thesis using False routes by (intro exI [of _ p]) auto
  qed
qed

lemma ready_needs_migrations: "fst (Readyz rc) = 200 \<Longrightarrow> rc_MigrationsReady rc"
  by (auto simp: Readyz_def failing_checks_def split: if_splits)

definition boot_inv :: "boot_world \<Rightarrow> exec_flags \<Rightarrow> server_state \<Rightarrow> bool" where
  "boot_inv w f s \<longleftrightarrow> (rc_MigrationsReady (ss_checker s) \<longrightarrow> ss_app s \<noteq> None) \<and> (ss_pending s \<noteq> None \<longrightarrow> ss_app s \<noteq> None) \<and>
     (\<forall>routes. ss_app s = Some routes \<longrightarrow> ss_opened s \<and> (\<exists>ping rc. buildAppHandler w f ping = Inr (routes, rc)))"

lemma boot_inv_step: "boot_inv w f s \<Longrightarrow> boot_inv w f (serve_step w f ev s)"
  by (cases ev) (auto simp: boot_inv_def split: option.splits sum.splits)

lemma boot_inv_run: "boot_inv w f s \<Longrightarrow> boot_inv w f (fold (serve_step w f) evs s)"
  by (induction evs arbitrary: s) (auto simp del: serve_step.simps intro: boot_inv_step)

lemma degraded_inv: "boot_inv w f (degraded_start e)"
  by (simp add: boot_inv_def degraded_start_def)

text \<open>No step of a degraded start runs the pruner, whatever the retention is.\<close>

lemma degraded_never_prunes: "\<not> ss_pruner (serveDegradedUntilReady w f e evs)"
proof -
  have one: "ss_pruner (serve_step w f ev s) = ss_pruner s" for ev s
    by (cases ev) (auto split: option.split sum.split)
  have "ss_pruner (fold (serve_step w f) evs s) = ss_pruner s" for s
    by (induction evs arbitrary: s) (simp_all del: serve_step.simps add: one)
  then show ?thesis by (simp add: serveDegradedUntilReady_def degraded_start_def)
qed

lemma retry_waits: "retryOpenUntilReady b xs = (ws, r) \<Longrightarrow> 0 < b \<Longrightarrow> b \<le> maxBackoff \<Longrightarrow>
    (\<forall>i<length ws. ws ! i = min (2 ^ i * b) maxBackoff)"
proof (induction b xs arbitrary: ws r rule: retryOpenUntilReady.induct)
  case (2 b ended answer rest)
  show ?case
  proof (cases "ended \<or> answer = None")
    case True
    then have "ws = [b]" using 2(2) by (auto split: if_splits)
    with 2(4) show ?thesis by simp
  next
    case False
    then obtain e where e: "answer = Some e" "\<not> ended" by auto
    obtain ws' where w: "retryOpenUntilReady (min (b * 2) maxBackoff) rest = (ws', r)" "ws = b # ws'"
      using 2(2) e by (cases "retryOpenUntilReady (min (b * 2) maxBackoff) rest") auto
    have "0 < min (b * 2) maxBackoff" "min (b * 2) maxBackoff \<le> maxBackoff" using 2(3) by (simp_all add: maxBackoff_def second_def)
    from 2(1) [OF e(2,1) w(1) this] have ih: "\<forall>i<length ws'. ws' ! i = min (2 ^ i * min (b * 2) maxBackoff) maxBackoff" .
    show ?thesis
    proof (intro allI impI)
      fix i assume i: "i < length ws"
      show "ws ! i = min (2 ^ i * b) maxBackoff"
      proof (cases i)
        case (Suc j)
        have m: "min (2 ^ j * min (b * 2) maxBackoff) maxBackoff = min (2 ^ j * (b * 2)) maxBackoff"
        proof (cases "b * 2 \<le> maxBackoff")
          case False
          then have "min (b * 2) maxBackoff = maxBackoff" by simp
          moreover have m: "maxBackoff \<le> 2 ^ j * maxBackoff"
            using mult_right_mono [of 1 "2 ^ j" maxBackoff] by (simp add: maxBackoff_def second_def)
          moreover have "2 ^ j * maxBackoff \<le> 2 ^ j * (b * 2)" using False by (intro mult_left_mono) simp_all
          then have "maxBackoff \<le> 2 ^ j * (b * 2)" using m by linarith
          ultimately show ?thesis by (simp only: min_absorb2)
        qed simp
        with ih Suc i w(2) show ?thesis by (simp add: mult.commute mult.left_commute)
      qed (use w(2) 2(4) in simp)
    qed
  qed
qed simp

text \<open>The retries wait one second, then twice as long each time, up to thirty; they go on until the
  database opens or the context ends, and never after.\<close>

theorem retries_back_off:
  assumes "retryOpenUntilReady second xs = (ws, r)"
  shows "(\<forall>i<length ws. ws ! i = min (2 ^ i * second) (30 * second)) \<and>
    (r = None \<longleftrightarrow> (\<forall>x\<in>set xs. \<not> fst x \<and> snd x \<noteq> None)) \<and> length ws \<le> length xs"
proof -
  have "(r = None \<longleftrightarrow> (\<forall>x\<in>set xs. \<not> fst x \<and> snd x \<noteq> None)) \<and> length ws \<le> length xs"
    if "retryOpenUntilReady b xs = (ws, r)" for b
    using that by (induction b xs arbitrary: ws r rule: retryOpenUntilReady.induct) (auto split: if_splits option.splits prod.splits)
  then show ?thesis using retry_waits [OF assms] assms by (simp add: maxBackoff_def second_def)
qed

lemma retries_back_off_witness:
  "\<exists>ws r. retryOpenUntilReady second [(False, Some (Plain ''down'')), (False, Some (Plain ''down'')), (False, None)] = (ws, r) \<and>
     ws ! 2 = min (2 ^ 2 * second) (30 * second) \<and> r \<noteq> None"
proof -
  let ?x = "retryOpenUntilReady second [(False, Some (Plain ''down'')), (False, Some (Plain ''down'')), (False, None)]"
  obtain ws r where x: "?x = (ws, r)" by fastforce
  then have "length ws = 3" by auto
  with retries_back_off [OF x] x show ?thesis by auto
qed

section \<open>What is pruned\<close>

lemma prune_solo:
  assumes "solo w" "0 < t"
  shows "snd (PruneAudit w t d) = (if dw_fault w 0 = None then d\<lparr>db_audit := filter (\<lambda>e. dw_now w - t \<le> au_At e) (db_audit d)\<rparr> else d)"
  using assms by (auto simp: PruneAudit_def stmt_def solo_def Let_def not_less split: option.split)

text \<open>The retention is exact: after a tick that did not fail the journal holds the rows of before that
  are within the retention at that tick, and no other, however many earlier ticks failed.\<close>

theorem journal_is_kept_exactly_so_long:
  assumes "0 < t" "\<forall>w\<in>set (ws @ [v]). solo w" "sorted (map dw_now (ws @ [v]))" "dw_fault v 0 = None"
  shows "db_audit (pruneAuditPeriodically (ws @ [v]) t d) = filter (\<lambda>e. dw_now v - t \<le> au_At e) (db_audit d)"
  using assms
proof (induction ws arbitrary: d)
  case Nil
  then show ?case by (simp add: prune_solo)
next
  case (Cons w ws)
  then have w: "solo w" "dw_now w \<le> dw_now v" by auto
  have "db_audit (pruneAuditPeriodically ((w # ws) @ [v]) t d) =
      filter (\<lambda>e. dw_now v - t \<le> au_At e) (db_audit (snd (PruneAudit w t d)))"
    using Cons by simp
  also have "\<dots> = filter (\<lambda>e. dw_now v - t \<le> au_At e) (db_audit d)"
    using w by (auto simp: prune_solo [OF w(1) Cons.prems(1)] intro: filter_cong)
  finally show ?case .
qed

definition sample_boot :: boot_world where
  "sample_boot = \<lparr>bw_base64 = (\<lambda>s. Inr (replicate 32 (CHR ''k''))), bw_discover = (\<lambda>s. None), bw_frontend = (\<lambda>b. None), bw_pool = None\<rparr>"

definition sample_exec :: exec_flags where
  "sample_exec = exec_defaults\<lparr>ef_oidc_issuer := ''i'', ef_oidc_client_id := ''c'', ef_oidc_client_secret := ''s'', ef_public_url := ''u'',
     ef_session_key := ''k''\<rparr>"

lemma sample_built: obtains routes rc where "buildAppHandler sample_boot sample_exec None = Inr (routes, rc)"
proof -
  have "is_ok (buildAppHandler sample_boot sample_exec None)"
    by (simp add: buildAppHandler_def auth_of_flags_def NewOIDCHandlers_def sample_boot_def sample_exec_def exec_defaults_def)
  then show ?thesis using that by (cases "buildAppHandler sample_boot sample_exec None") auto
qed

lemma stub_needs_its_flag_witness:
  "\<exists>routes rc cfg. buildAppHandler sample_boot sample_exec None = Inr (routes, rc) \<and> RouteApi (OIDCProvider cfg) \<in> set routes \<and>
     RouteApi StubProvider \<notin> set routes"
proof -
  obtain routes rc where b: "buildAppHandler sample_boot sample_exec None = Inr (routes, rc)" by (rule sample_built)
  have f: "\<not> ef_auth_stub sample_exec" by (simp add: sample_exec_def exec_defaults_def)
  obtain p where p: "RouteApi p \<in> set routes" "\<And>q. RouteApi q \<in> set routes \<Longrightarrow> q = p" "\<exists>cfg. p = OIDCProvider cfg"
    using stub_needs_its_flag [OF b, unfolded if_not_P [OF f]] by metis
  from p(3) obtain cfg where c: "p = OIDCProvider cfg" ..
  have "RouteApi StubProvider \<notin> set routes"
  proof
    assume "RouteApi StubProvider \<in> set routes"
    from p(2) [OF this] c show False by simp
  qed
  moreover have "RouteApi (OIDCProvider cfg) \<in> set routes" using p(1) unfolding c .
  ultimately show ?thesis using b by (intro exI conjI)
qed

lemma journal_is_kept_exactly_so_long_witness:
  "db_audit (pruneAuditPeriodically ([quiet_world\<lparr>dw_fault := (\<lambda>i. Some (Plain ''locked''))\<rparr>] @ [quiet_world]) 3
     (sample_db\<lparr>db_audit := [audit_event quiet_world 0 zeroAuditRecord AuditStarted]\<rparr>)) =
   [audit_event quiet_world 0 zeroAuditRecord AuditStarted]"
proof -
  have w: "\<forall>w\<in>set ([quiet_world\<lparr>dw_fault := (\<lambda>i. Some (Plain ''locked''))\<rparr>] @ [quiet_world]). solo w"
    "sorted (map dw_now ([quiet_world\<lparr>dw_fault := (\<lambda>i. Some (Plain ''locked''))\<rparr>] @ [quiet_world]))" "dw_fault quiet_world 0 = None"
    by (simp_all add: solo_def quiet_world_def)
  have "(0::int) < 3" by simp
  from journal_is_kept_exactly_so_long [OF this w] show ?thesis by (simp add: audit_event_def)
qed

end
