(* ===== verification/Startup.thy ===== *)
theory Startup imports Sandbox_Files begin

text \<open>
  What runs before a request does: \<open>storage.Open\<close> (\<open>db.go\<close>, \<open>db_sqlite.go\<close>, \<open>db_postgres.go\<close>) with
  the lock replicas migrate under, and the fallback of package \<open>internal/frontend\<close>. GORM, its
  drivers and Postgres are libraries: what they answer is in the records, and the session-level
  advisory lock is modelled as Postgres documents it, held by one session until that session
  unlocks it or its connection closes.
\<close>

section \<open>\<open>db_postgres.go\<close>\<close>

datatype lock_act = LkCheckout | LkAcquire | LkBegin | LkEnd | LkUnlock bool | LkClose

record lock_world =
  mw_handle :: "gerr option"
  mw_conn :: "gerr option"
  mw_lock :: "gerr option"
  mw_migrate :: "gerr option"
  mw_unlock :: "gerr option"

definition migrate :: "gerr option \<Rightarrow> gerr option" where
  "migrate e = map_option (\<lambda>e. Wrap ''automigrate: '' e []) e"

text \<open>The deferred calls run in reverse: the unlock, whose failure is dropped, then the close.\<close>

definition withMigrationLock :: "lock_world \<Rightarrow> gerr option \<times> lock_act list" where
  "withMigrationLock w =
     (case mw_handle w of
        Some e \<Rightarrow> (Some (Wrap ''get pooled db handle: '' e []), [])
      | None \<Rightarrow>
          (case mw_conn w of
             Some e \<Rightarrow> (Some (Wrap ''checkout migration-lock connection: '' e []), [])
           | None \<Rightarrow>
               (case mw_lock w of
                  Some e \<Rightarrow> (Some (Wrap ''acquire migration advisory lock: '' e []), [LkCheckout, LkClose])
                | None \<Rightarrow> (migrate (mw_migrate w),
                           [LkCheckout, LkAcquire, LkBegin, LkEnd, LkUnlock (mw_unlock w = None), LkClose]))))"

definition openPostgres :: "gerr option \<Rightarrow> gerr option" where
  "openPostgres e = map_option (\<lambda>e. Wrap ''open database: '' e []) e"

section \<open>\<open>db_sqlite.go\<close> and \<open>db.go\<close>\<close>

record open_world =
  ow_cwd :: string
  ow_now :: string
  ow_open :: "gerr option"
  ow_busy :: "gerr option"
  ow_wal :: "gerr option"
  ow_lock :: lock_world

definition openSQLite :: "open_world \<Rightarrow> string \<Rightarrow> fs \<Rightarrow> gerr option \<times> fs" where
  "openSQLite w dsn fs =
     (let dir = Dir dsn;
          (derr, fs1) = (if dsn \<noteq> '':memory:'' \<and> dir \<noteq> ''.'' \<and> dir \<noteq> []
                         then os_mkdirs (ow_now w) 488 [] (root_parts (Abs (ow_cwd w) dir)) fs
                         else (None, fs))
      in case derr of
           Some e \<Rightarrow> (Some (Wrap ''create database directory: '' (path_error ''mkdir'' dir e) []), fs1)
         | None \<Rightarrow>
             (case ow_open w of
                Some e \<Rightarrow> Some (Wrap ''open database: '' e [])
              | None \<Rightarrow>
                  (case ow_busy w of
                     Some e \<Rightarrow> Some (Wrap ''set busy_timeout: '' e [])
                   | None \<Rightarrow> map_option (\<lambda>e. Wrap ''set journal_mode: '' e []) (ow_wal w)), fs1))"

definition IsPostgresDSN :: "string \<Rightarrow> bool" where
  "IsPostgresDSN dsn \<longleftrightarrow> HasPrefix dsn ''postgres://'' \<or> HasPrefix dsn ''postgresql://''"

text \<open>A database opened by the Postgres driver names the dialect \<open>postgres\<close>, one opened by the other
  does not. The third part of the answer is what happens to the migration lock.\<close>

definition Open :: "open_world \<Rightarrow> string \<Rightarrow> fs \<Rightarrow> gerr option \<times> fs \<times> lock_act list" where
  "Open w dsn fs =
     (if IsPostgresDSN dsn
      then (case openPostgres (ow_open w) of
              Some e \<Rightarrow> (Some e, fs, [])
            | None \<Rightarrow> (let (e, acts) = withMigrationLock (ow_lock w) in (e, fs, acts)))
      else (case openSQLite w dsn fs of
              (Some e, fs1) \<Rightarrow> (Some e, fs1, [])
            | (None, fs1) \<Rightarrow> (migrate (mw_migrate (ow_lock w)), fs1, [LkBegin, LkEnd])))"

section \<open>\<open>logger.go\<close>\<close>

text \<open>How both backends ask the library to log; what a row that is not there means is for the callers.\<close>

datatype log_level = Silent | LogError | LogWarn | LogInfo

record gorm_config =
  gc_SlowThreshold :: int
  gc_LogLevel :: log_level
  gc_IgnoreRecordNotFoundError :: bool

definition gormConfig :: gorm_config where
  "gormConfig = \<lparr>gc_SlowThreshold = 200000000, gc_LogLevel = LogWarn, gc_IgnoreRecordNotFoundError = True\<rparr>"

section \<open>\<open>frontend.go\<close>\<close>

text \<open>Where the assets are served from; \<open>sub\<close> is what taking the embedded directory returns.\<close>

datatype asset_fs = FromDisk string | Embedded

definition frontend_FS :: "bool \<Rightarrow> gerr option \<Rightarrow> asset_fs res" where
  "frontend_FS devel sub =
     (if devel then Inr (FromDisk ''internal/frontend/static'')
      else case sub of Some e \<Rightarrow> Inl e | None \<Rightarrow> Inr Embedded)"

text \<open>The path the file server is asked for; \<open>opens\<close> says which embedded names can be opened.\<close>

definition frontend_Handler :: "bool \<Rightarrow> (string \<Rightarrow> bool) \<Rightarrow> string \<Rightarrow> string" where
  "frontend_Handler devel opens path =
     (if devel then path
      else
        (let p = TrimPrefix path [slash]; fsPath = (if p = [] then ''.'' else p)
         in if opens fsPath then path else [slash]))"

section \<open>Replicas that start together\<close>

record replicas =
  rp_holder :: "nat option"
  rp_rest :: "nat \<Rightarrow> lock_act list"

definition lock_after :: "nat \<Rightarrow> lock_act \<Rightarrow> nat option \<Rightarrow> nat option" where
  "lock_after i act h =
     (case act of
        LkAcquire \<Rightarrow> Some i
      | LkUnlock ok \<Rightarrow> if ok \<and> h = Some i then None else h
      | LkClose \<Rightarrow> if h = Some i then None else h
      | _ \<Rightarrow> h)"

text \<open>A turn of replica \<open>i\<close>: waiting for the lock leaves everything as it is.\<close>

definition lock_turn :: "nat \<Rightarrow> replicas \<Rightarrow> replicas" where
  "lock_turn i s =
     (case rp_rest s i of
        [] \<Rightarrow> s
      | act # acts \<Rightarrow>
          if act = LkAcquire \<and> rp_holder s \<noteq> None then s
          else s\<lparr>rp_holder := lock_after i act (rp_holder s), rp_rest := (rp_rest s)(i := acts)\<rparr>)"

definition replicas_start :: "(nat \<Rightarrow> lock_world) \<Rightarrow> replicas" where
  "replicas_start ws = \<lparr>rp_holder = None, rp_rest = (\<lambda>i. snd (withMigrationLock (ws i)))\<rparr>"

definition migrating :: "replicas \<Rightarrow> nat \<Rightarrow> bool" where
  "migrating s i \<longleftrightarrow> (case rp_rest s i of LkEnd # _ \<Rightarrow> True | _ \<Rightarrow> False)"

text \<open>Where a replica can be, and when it holds the lock.\<close>

definition before_lock :: "lock_act list \<Rightarrow> bool" where
  "before_lock r \<longleftrightarrow> r \<in> {[], [LkClose], [LkCheckout, LkClose]} \<or>
     (\<exists>b. r \<in> {[LkCheckout, LkAcquire, LkBegin, LkEnd, LkUnlock b, LkClose], [LkAcquire, LkBegin, LkEnd, LkUnlock b, LkClose]})"

definition under_lock :: "lock_act list \<Rightarrow> bool" where
  "under_lock r \<longleftrightarrow> (\<exists>b. r \<in> {[LkBegin, LkEnd, LkUnlock b, LkClose], [LkEnd, LkUnlock b, LkClose], [LkUnlock b, LkClose]})"

definition lock_inv :: "replicas \<Rightarrow> bool" where
  "lock_inv s \<longleftrightarrow>
     (\<forall>i. before_lock (rp_rest s i) \<or> under_lock (rp_rest s i)) \<and>
     (\<forall>i. under_lock (rp_rest s i) \<longrightarrow> rp_holder s = Some i) \<and>
     (\<forall>i. rp_holder s = Some i \<longrightarrow> under_lock (rp_rest s i) \<or> rp_rest s i = [LkClose])"

lemma lock_inv_start: "lock_inv (replicas_start ws)"
proof -
  have "before_lock (snd (withMigrationLock w)) \<and> \<not> under_lock (snd (withMigrationLock w))" for w
    by (auto simp: withMigrationLock_def before_lock_def under_lock_def split: option.splits)
  then show ?thesis by (simp add: lock_inv_def replicas_start_def)
qed

lemma lock_inv_turn:
  assumes "lock_inv s" shows "lock_inv (lock_turn i s)"
proof -
  have p: "before_lock (rp_rest s i) \<or> under_lock (rp_rest s i)" using assms by (simp add: lock_inv_def)
  have u: "under_lock (rp_rest s j) \<Longrightarrow> rp_holder s = Some j" for j using assms by (simp add: lock_inv_def)
  have h: "rp_holder s = Some j \<Longrightarrow> under_lock (rp_rest s j) \<or> rp_rest s j = [LkClose]" for j using assms by (simp add: lock_inv_def)
  have o: "before_lock (rp_rest s j) \<or> under_lock (rp_rest s j)" for j using assms by (simp add: lock_inv_def)
  show ?thesis
  proof (cases "rp_rest s i")
    case Nil
    with assms show ?thesis by (simp add: lock_turn_def)
  next
    case (Cons act acts)
    show ?thesis
    proof (cases "act = LkAcquire \<and> rp_holder s \<noteq> None")
      case True
      with Cons assms show ?thesis by (simp add: lock_turn_def)
    next
      case False
      let ?t = "lock_turn i s"
      have t: "rp_rest ?t = (rp_rest s)(i := acts)" "rp_holder ?t = lock_after i act (rp_holder s)"
        using Cons False by (auto simp: lock_turn_def)
      have "before_lock acts \<or> under_lock acts"
        using p unfolding Cons by (auto simp: before_lock_def under_lock_def)
      moreover have "rp_holder ?t = Some i" if "under_lock acts"
        using p u [of i] that False unfolding t Cons by (auto simp: before_lock_def under_lock_def lock_after_def)
      moreover have "under_lock acts \<or> acts = [LkClose]" if "rp_holder ?t = Some i"
        using p h [of i] that False unfolding t Cons by (auto simp: before_lock_def under_lock_def lock_after_def split: if_splits)
      moreover have "rp_holder ?t = Some j" if "j \<noteq> i" "under_lock (rp_rest s j)" for j
        using p u [OF that(2)] u [of i] that(1) False unfolding t Cons
        by (auto simp: before_lock_def under_lock_def lock_after_def split: lock_act.splits)
      moreover have "under_lock (rp_rest s j) \<or> rp_rest s j = [LkClose]" if "j \<noteq> i" "rp_holder ?t = Some j" for j
        using h [of j] that unfolding t by (auto simp: lock_after_def split: lock_act.splits if_splits)
      ultimately show ?thesis using o unfolding lock_inv_def by (auto simp: t(1))
    qed
  qed
qed

lemma lock_inv_run: "lock_inv s \<Longrightarrow> lock_inv (fold lock_turn turns s)"
  by (induction turns arbitrary: s) (simp_all add: lock_inv_turn)

lemma migrating_under: "lock_inv s \<Longrightarrow> migrating s i \<Longrightarrow> rp_holder s = Some i"
proof -
  assume a: "lock_inv s" "migrating s i"
  then have "before_lock (rp_rest s i) \<or> under_lock (rp_rest s i)" by (simp add: lock_inv_def)
  with a(2) have "under_lock (rp_rest s i)" by (auto simp: migrating_def before_lock_def split: list.splits lock_act.splits)
  with a(1) show ?thesis by (simp add: lock_inv_def)
qed

definition held_below :: "nat \<Rightarrow> replicas \<Rightarrow> bool" where
  "held_below n s \<longleftrightarrow> (\<forall>i. rp_holder s = Some i \<longrightarrow> i < n)"

lemma some_replica_moves:
  assumes "lock_inv s" "held_below n s" "i < n" "rp_rest s i \<noteq> []"
  shows "\<exists>j<n. lock_turn j s \<noteq> s"
proof -
  have m: "lock_turn j s \<noteq> s" if "rp_rest s j = act # acts" "act \<noteq> LkAcquire \<or> rp_holder s = None" for j act acts
  proof
    assume "lock_turn j s = s"
    then have "rp_rest (lock_turn j s) j = act # acts" using that(1) by simp
    with that show False by (auto simp: lock_turn_def)
  qed
  show ?thesis
  proof (cases "rp_holder s")
    case None
    with m assms(3,4) show ?thesis by (cases "rp_rest s i") auto
  next
    case (Some j)
    then have "under_lock (rp_rest s j) \<or> rp_rest s j = [LkClose]" using assms(1) by (simp add: lock_inv_def)
    then obtain act acts where "rp_rest s j = act # acts" "act \<noteq> LkAcquire" by (auto simp: under_lock_def)
    moreover have "j < n" using Some assms(2) by (simp add: held_below_def)
    ultimately show ?thesis using m by blast
  qed
qed

text \<open>
  Progress under any scheduler that starves nobody: a round of turns that gives each replica at
  least one takes at least one call off what the replicas have left, as long as anything is left.
\<close>

definition left_to_do :: "nat \<Rightarrow> replicas \<Rightarrow> nat" where
  "left_to_do n s = (\<Sum>i<n. length (rp_rest s i))"

lemma held_below_turn: "held_below n s \<Longrightarrow> i < n \<Longrightarrow> held_below n (lock_turn i s)"
  by (auto simp: held_below_def lock_turn_def lock_after_def split: list.splits lock_act.splits if_splits)

lemma held_below_run: "held_below n s \<Longrightarrow> set turns \<subseteq> {..<n} \<Longrightarrow> held_below n (fold lock_turn turns s)"
  by (induction turns arbitrary: s) (simp_all add: held_below_turn)

lemma turn_works: "lock_turn i s = s \<or> (i < n \<longrightarrow> left_to_do n (lock_turn i s) < left_to_do n s)"
proof (cases "lock_turn i s = s")
  case False
  then obtain act acts where a: "rp_rest s i = act # acts" "rp_rest (lock_turn i s) = (rp_rest s)(i := acts)"
    by (auto simp: lock_turn_def split: list.splits if_splits)
  have "left_to_do n (lock_turn i s) < left_to_do n s" if "i < n"
    unfolding left_to_do_def by (rule sum_strict_mono_ex1) (use a that in auto)
  then show ?thesis by blast
qed simp

lemma turns_work:
  "set turns \<subseteq> {..<n} \<Longrightarrow> (\<forall>i\<in>set turns. lock_turn i s = s) \<and> fold lock_turn turns s = s \<or>
    left_to_do n (fold lock_turn turns s) < left_to_do n s"
proof (induction turns arbitrary: s)
  case (Cons i turns)
  then have i: "i < n" and ih: "fold lock_turn turns t = t \<or> left_to_do n (fold lock_turn turns t) < left_to_do n t" for t by auto
  from turn_works [of i s n] consider (same) "lock_turn i s = s" | (less) "left_to_do n (lock_turn i s) < left_to_do n s" using i by blast
  then show ?case
  proof cases
    case less
    with ih [of "lock_turn i s"] show ?thesis by auto
  next
    case same
    with Cons show ?thesis by auto
  qed
qed simp

lemma round_works:
  assumes "lock_inv s" "held_below n s" "set r = {..<n}" "0 < left_to_do n s"
  shows "left_to_do n (fold lock_turn r s) < left_to_do n s"
proof -
  have "\<exists>i<n. rp_rest s i \<noteq> []"
  proof (rule ccontr)
    assume "\<not> (\<exists>i<n. rp_rest s i \<noteq> [])"
    then have "left_to_do n s = 0" by (simp add: left_to_do_def)
    with assms(4) show False by simp
  qed
  then obtain i where i: "i < n" "rp_rest s i \<noteq> []" by blast
  have "\<exists>j<n. lock_turn j s \<noteq> s" by (rule some_replica_moves [OF assms(1,2) i])
  then show ?thesis using turns_work [of r n s] assms(3) by auto
qed

lemma rounds_finish:
  assumes "lock_inv s" "held_below n s" "\<forall>r\<in>set rounds. set r = {..<n}" "left_to_do n s \<le> length rounds"
  shows "left_to_do n (fold lock_turn (concat rounds) s) = 0"
  using assms
proof (induction rounds arbitrary: s)
  case (Cons r rounds)
  let ?t = "fold lock_turn r s"
  have t: "lock_inv ?t" "held_below n ?t" using Cons.prems by (auto intro: lock_inv_run held_below_run)
  have "left_to_do n ?t \<le> length rounds"
    using round_works [OF Cons.prems(1,2), of r] turns_work [of r n s] Cons.prems(3,4) by (cases "left_to_do n s = 0") auto
  with Cons.IH [OF t] Cons.prems(3) show ?case by simp
qed simp

lemma lock_turns_left: "length (rp_rest (fold lock_turn turns (replicas_start ws)) i) \<le> 6"
proof -
  have t: "length (rp_rest (lock_turn j s) i) \<le> length (rp_rest s i)" for j s
    by (auto simp: lock_turn_def split: list.splits)
  have "length (rp_rest (fold lock_turn turns s) i) \<le> length (rp_rest s i)" for s
  proof (induction turns arbitrary: s)
    case (Cons j turns)
    from order_trans [OF Cons [of "lock_turn j s"] t] show ?case by simp
  qed simp
  moreover have "length (rp_rest (replicas_start ws) i) \<le> 6"
    by (simp add: replicas_start_def withMigrationLock_def split: option.splits)
  ultimately show ?thesis by (rule order_trans)
qed

lemma replicas_finish:
  assumes "set turns \<subseteq> {..<n}" "\<forall>r\<in>set rounds. set r = {..<n}" "6 * n \<le> length rounds" "i < n"
  shows "rp_rest (fold lock_turn (turns @ concat rounds) (replicas_start ws)) i = []"
proof -
  let ?s = "fold lock_turn turns (replicas_start ws)"
  have "held_below n (replicas_start ws)" by (simp add: held_below_def replicas_start_def)
  then have s: "lock_inv ?s" "held_below n ?s"
    using lock_inv_run [OF lock_inv_start] held_below_run [OF _ assms(1)] by simp_all
  have "left_to_do n ?s \<le> (\<Sum>i<n. 6)" unfolding left_to_do_def by (rule sum_mono) (rule lock_turns_left)
  then have "left_to_do n ?s \<le> length rounds" using assms(3) by simp
  from rounds_finish [OF s assms(2) this] assms(4) show ?thesis by (simp add: left_to_do_def)
qed


definition demo_lock :: lock_world where
  "demo_lock = \<lparr>mw_handle = None, mw_conn = None, mw_lock = None, mw_migrate = None, mw_unlock = Some (Plain ''reset'')\<rparr>"


end
