(* ===== verification/Cmd_Start.thy ===== *)
theory Cmd_Start imports Cmd_Executor Startup Worker_Hub begin

text \<open>
  \<open>cmd/executor\<close> from its command line on: the action of the root command, which opens the database
  and then serves, at once or once the database is there, and the process around it. Signals and
  the listener are events; the retries of opening the database are among them.
\<close>

section \<open>\<open>main.go\<close>\<close>

text \<open>No write deadline: a terminal stream stays open.\<close>

record http_server =
  hs_Addr :: string
  hs_ReadHeaderTimeout :: int
  hs_IdleTimeout :: int
  hs_WriteTimeout :: int

definition newServer :: "string \<Rightarrow> http_server" where
  "newServer addr = \<lparr>hs_Addr = addr, hs_ReadHeaderTimeout = 5 * second, hs_IdleTimeout = 120 * second, hs_WriteTimeout = 0\<rparr>"

text \<open>Shutting down waits for requests for five seconds; \<open>drained\<close> is when the last one ends, \<open>closing\<close>
  what closing the listeners returns.\<close>

definition ErrDeadlineExceeded :: gerr where "ErrDeadlineExceeded = Sentinel ''context deadline exceeded''"

definition exec_shutdown :: "int \<Rightarrow> gerr option \<Rightarrow> gerr option" where
  "exec_shutdown drained closing = (if 5 * second < drained then Some ErrDeadlineExceeded else closing)"

record started =
  sd_hub :: Hub
  sd_fs :: fs
  sd_lock :: "lock_act list"
  sd_server :: http_server
  sd_state :: "server_state res"

text \<open>The events after the start; a server that is ready from the start takes only an interruption
  or the end of its listener, the others find nothing to do.\<close>

definition executor_action :: "boot_world \<Rightarrow> open_world \<Rightarrow> exec_flags \<Rightarrow> gerr option \<Rightarrow> serve_event list \<Rightarrow> fs \<Rightarrow> started" where
  "executor_action w ow f ping evs fs =
     (let b = NewBroadcaster (ef_stream_buffer f);
          h = newHub b;
          (err, fs1, acts) = Open ow (ef_db_dsn f) fs
      in \<lparr>sd_hub = h, sd_fs = fs1, sd_lock = acts, sd_server = newServer (ef_listen_addr f),
          sd_state = (case err of
            Some e \<Rightarrow> Inr (serveDegradedUntilReady w f e evs)
          | None \<Rightarrow> map_res (\<lambda>s. fold (serve_step w f) evs s) (serveReady w f ping))\<rparr>)"

text \<open>The status the process exits with; \<open>None\<close> while it runs.\<close>

definition executor_main :: "started \<Rightarrow> nat option" where
  "executor_main d =
     (case sd_state d of
        Inl e \<Rightarrow> Some 1
      | Inr s \<Rightarrow> (case ss_result s of None \<Rightarrow> None | Some None \<Rightarrow> Some 0 | Some (Some e) \<Rightarrow> Some 1))"

section \<open>Properties\<close>

lemma ready_inv:
  assumes "serveReady w f ping = Inr s" shows "boot_inv w f s"
  using assms unfolding serveReady_def boot_inv_def by (auto split: sum.splits) blast

lemma started_inv:
  assumes "sd_state (executor_action w ow f ping evs fs) = Inr s" shows "boot_inv w f s"
proof -
  obtain err fs1 acts where o: "Open ow (ef_db_dsn f) fs = (err, fs1, acts)" by (metis prod.collapse)
  show ?thesis
  proof (cases err)
    case None
    then obtain s0 where "serveReady w f ping = Inr s0" "s = fold (serve_step w f) evs s0"
      using assms o by (cases "serveReady w f ping") (auto simp: executor_action_def Let_def)
    then show ?thesis using boot_inv_run [OF ready_inv] by blast
  next
    case (Some e)
    then have "s = fold (serve_step w f) evs (degraded_start e)"
      using assms o by (simp add: executor_action_def serveDegradedUntilReady_def Let_def)
    then show ?thesis using boot_inv_run degraded_inv by simp
  qed
qed

text \<open>C37: a replica is never sent traffic it cannot serve. However the process was started, whether or
  not its database could be opened then, and in whatever order the retries, the main loop, the
  signals and the probes come: the moment \<open>/readyz\<close> says 200 the database has been opened and every
  route is in place, built from this command line.\<close>

theorem ready_only_with_routes:
  assumes "sd_state (executor_action w ow f ping evs fs) = Inr s" "fst (Readyz (ss_checker s)) = 200"
  shows "ss_opened s \<and> (\<exists>routes ping rc. route_request s = Inr routes \<and> buildAppHandler w f ping = Inr (routes, rc))"
  using started_inv [OF assms(1)] ready_needs_migrations [OF assms(2)] by (auto simp: boot_inv_def route_request_def)

definition dead_database :: open_world where
  "dead_database = \<lparr>ow_cwd = ''/'', ow_now = ''t'', ow_open = Some (Plain ''refused''), ow_busy = None, ow_wal = None, ow_lock = demo_lock\<rparr>"

lemma ready_only_with_routes_witness:
  "\<exists>evs s routes. sd_state (executor_action sample_boot dead_database (sample_exec\<lparr>ef_db_dsn := ''postgres://db''\<rparr>) None evs []) = Inr s \<and>
     fst (Readyz (ss_checker s)) = 200 \<and> route_request s = Inr routes"
proof -
  let ?f = "sample_exec\<lparr>ef_db_dsn := ''postgres://db''\<rparr>" and ?evs = "[OpenFails (Plain ''still down''), OpenSucceeds, TakeDB None, StoreChecker]"
  have "is_ok (buildAppHandler sample_boot ?f None)"
    by (simp add: buildAppHandler_def auth_of_flags_def NewOIDCHandlers_def sample_boot_def sample_exec_def exec_defaults_def)
  then obtain routes rc where b: "buildAppHandler sample_boot ?f None = Inr (routes, rc)" by (cases "buildAppHandler sample_boot ?f None") auto
  then have rc: "rc = \<lparr>rc_Ping = Some None, rc_MigrationsReady = True, rc_OIDCReady = True\<rparr>"
    by (auto simp: buildAppHandler_def split: sum.splits option.splits)
  have "fst (Open dead_database (ef_db_dsn ?f) []) \<noteq> None" by code_simp
  then obtain e fs1 acts where o: "Open dead_database (ef_db_dsn ?f) [] = (Some e, fs1, acts)"
    by (cases "Open dead_database (ef_db_dsn ?f) []") auto
  let ?s = "serveDegradedUntilReady sample_boot ?f e ?evs"
  have s: "sd_state (executor_action sample_boot dead_database ?f None ?evs []) = Inr ?s" using o by (simp add: executor_action_def Let_def)
  have r: "fst (Readyz (ss_checker ?s)) = 200"
    using b rc by (simp add: serveDegradedUntilReady_def degraded_start_def Readyz_def failing_checks_def)
  from ready_only_with_routes [OF s r] s r show ?thesis by blast
qed

text \<open>The process ends only by a signal, the end of its listener or routes that cannot be built: a
  database that cannot be reached keeps it waiting.\<close>

lemma dead_database_keeps_waiting:
  assumes "fst (Open ow (ef_db_dsn f) fs) \<noteq> None" "\<forall>ev\<in>set evs. \<exists>e. ev = OpenFails e"
  shows "executor_main (executor_action w ow f ping evs fs) = None"
proof -
  have "ss_result (fold (serve_step w f) evs s) = ss_result s" for s
    using assms(2) by (induction evs arbitrary: s) auto
  then show ?thesis using assms(1)
    by (auto simp: executor_main_def executor_action_def serveDegradedUntilReady_def degraded_start_def Let_def split: prod.splits option.splits)
qed

end
