(* ===== verification/Worker_Test.thy ===== *)
theory Worker_Test imports Worker_Link Worker_Hub begin

text \<open>
  Package \<open>internal/workertest\<close>: the harness the repository's own tests start a hub with workers in.
  The test server's URL, the temporary directories and what connecting workers make of the hub are arguments.
\<close>

definition harness_Token :: string where "harness_Token = ''test-worker-token''"

record Harness =
  hn_Hub :: Hub
  hn_Roots :: "string list"
  hn_links :: "Link list"

definition harness_workerID :: "nat \<Rightarrow> string" where
  "harness_workerID i = ''worker-'' @ show_nat i"

definition harness_link :: "string \<Rightarrow> string \<Rightarrow> nat \<Rightarrow> string \<Rightarrow> Link res" where
  "harness_link cwd url i root =
     newLink cwd \<lparr>lc_ServerURL = url, lc_Token = harness_Token, lc_WorkerID = harness_workerID i, lc_Version = ''test'', lc_MaxFileBytes = 0\<rparr>
       (DefaultConfig root)"

fun start_links :: "string \<Rightarrow> string \<Rightarrow> nat \<Rightarrow> string list \<Rightarrow> Link list res" where
  "start_links cwd url i [] = Inr []"
| "start_links cwd url i (root # roots) =
     (case harness_link cwd url i root of
        Inl e \<Rightarrow> Inl (Plain (''workerlink.New: '' @ err_text e))
      | Inr l \<Rightarrow> map_res (\<lambda>ls. l # ls) (start_links cwd url (Suc i) roots))"

text \<open>The hub is the one the workers dial while the harness waits: \<open>polls\<close> are its states each time it is asked
  for its workers before the deadline, \<open>late\<close> the one after it. The wait ends in the state that had enough.\<close>

fun waitForWorkers :: "nat \<Rightarrow> Hub list \<Rightarrow> Hub \<Rightarrow> Hub res" where
  "waitForWorkers want [] late =
     Inl (Plain (''only '' @ show_nat (length (Workers late)) @ '' of '' @ show_nat want @ '' workers connected''))"
| "waitForWorkers want (h # polls) late = (if want \<le> length (Workers h) then Inr h else waitForWorkers want polls late)"

definition harness_Start :: "string \<Rightarrow> string \<Rightarrow> int \<Rightarrow> (nat \<Rightarrow> string) \<Rightarrow> (Hub \<Rightarrow> Hub list) \<Rightarrow> (Hub \<Rightarrow> Hub) \<Rightarrow> Harness res" where
  "harness_Start cwd url n dirs polls late =
     (if n < 1 then Inl (Plain (''workers = '' @ show_int n @ '', want at least 1''))
      else
        (let hub = newHub (NewBroadcaster 0);
             roots = map dirs [0..<nat n] in
         case start_links cwd url 0 roots of
           Inl e \<Rightarrow> Inl e
         | Inr ls \<Rightarrow>
             map_res (\<lambda>h. \<lparr>hn_Hub = h, hn_Roots = roots, hn_links = ls\<rparr>) (waitForWorkers (nat n) (polls hub) (late hub))))"

definition harness_StartOne :: "string \<Rightarrow> string \<Rightarrow> (nat \<Rightarrow> string) \<Rightarrow> (Hub \<Rightarrow> Hub list) \<Rightarrow> (Hub \<Rightarrow> Hub) \<Rightarrow> Harness res" where
  "harness_StartOne cwd url dirs polls late = harness_Start cwd url 1 dirs polls late"

section \<open>What a test gets\<close>

text \<open>Reading a number back from its digits; so no worker of a harness displaces another, whatever
  their number.\<close>

lemma digits_val_append: "digits_val a (xs @ ys) = (case digits_val a xs of None \<Rightarrow> None | Some b \<Rightarrow> digits_val b ys)"
  by (induction xs arbitrary: a) (auto split: option.split)

lemma digit_val_digit: "d < 10 \<Longrightarrow> digit_val (char_of (48 + d)) = Some d"
  by (simp add: digit_val_def)

lemma digits_of_show_nat: "digits_val 0 (show_nat n) = Some n"
proof (induction n rule: show_nat.induct)
  case (1 n)
  show ?case
  proof (cases "n < 10")
    case True
    then show ?thesis by (simp add: show_nat.simps [of n] digit_val_digit)
  next
    case False
    then show ?thesis using 1 [OF False] by (simp add: show_nat.simps [of n] digits_val_append digit_val_digit)
  qed
qed

lemma harness_ids_distinct: "harness_workerID i = harness_workerID j \<longleftrightarrow> i = j"
  by (metis harness_workerID_def append_same_eq same_append_eq digits_of_show_nat option.inject)

lemma harness_link_id: "harness_link cwd url i root = Inr l \<Longrightarrow> lc_WorkerID (lk_cfg l) = harness_workerID i"
  by (auto simp: harness_link_def newLink_def Let_def split: if_splits option.splits sum.splits)

lemma start_links_ids:
  "start_links cwd url i roots = Inr ls \<Longrightarrow> map (\<lambda>l. lc_WorkerID (lk_cfg l)) ls = map harness_workerID [i..<i + length roots]"
proof (induction roots arbitrary: i ls)
  case (Cons root roots)
  then obtain l ls' where l: "harness_link cwd url i root = Inr l" "start_links cwd url (Suc i) roots = Inr ls'" "ls = l # ls'"
    by (cases "harness_link cwd url i root"; cases "start_links cwd url (Suc i) roots") auto
  have "[i..<i + length (root # roots)] = i # [Suc i..<Suc i + length roots]"
    using upt_conv_Cons [of i "i + length (root # roots)"] by simp
  with l(3) Cons.IH [OF l(2)] harness_link_id [OF l(1)] show ?case by (metis list.map(2))
qed simp

lemma waitForWorkers_enough: "waitForWorkers want polls late = Inr h \<Longrightarrow> h \<in> set polls \<and> want \<le> length (Workers h)"
  by (induction polls) (auto split: if_splits)

text \<open>A harness that starts has the workers that were asked for, under different names, and a hub that lists
  as many.\<close>

theorem harness_has_its_workers:
  assumes "harness_Start cwd url n dirs polls late = Inr h"
  shows "length (hn_links h) = nat n \<and> distinct (map (\<lambda>l. lc_WorkerID (lk_cfg l)) (hn_links h)) \<and>
    nat n \<le> length (Workers (hn_Hub h))"
proof -
  obtain ls hub where ls: "start_links cwd url 0 (map dirs [0..<nat n]) = Inr ls" "hn_links h = ls"
      "waitForWorkers (nat n) (polls (newHub (NewBroadcaster 0))) (late (newHub (NewBroadcaster 0))) = Inr hub" "hn_Hub h = hub"
    using assms by (cases "waitForWorkers (nat n) (polls (newHub (NewBroadcaster 0))) (late (newHub (NewBroadcaster 0)))")
      (auto simp: harness_Start_def Let_def split: if_splits sum.splits)
  have "map (\<lambda>l. lc_WorkerID (lk_cfg l)) ls = map harness_workerID [0..<nat n]" using start_links_ids [OF ls(1)] by simp
  moreover have "inj harness_workerID" by (rule injI) (simp add: harness_ids_distinct)
  ultimately show ?thesis using ls(2,4) waitForWorkers_enough [OF ls(3)]
    by (metis distinct_map distinct_upt inj_on_subset length_map length_upt minus_nat.diff_0 subset_UNIV)
qed

end
