(* ===== verification/Local_Exec.thy ===== *)
theory Local_Exec imports Sandbox_Exec Worker_Proto "HOL-Library.List_Lexorder" "HOL-Library.Char_ord" begin

text \<open>
  Package \<open>internal/localexec\<close>: the runner of the local helper, which one user starts on their own
  machine. It confines nothing, so its names go through the whole file system: \<open>os_walk\<close> resolves an
  absolute name as the operating system does, links out of any directory included. The runner is
  its configuration; what the operating system and the started command answer are arguments.
\<close>

section \<open>Names of the whole machine\<close>

text \<open>\<open>follow\<close> says whether a link in the last place is followed; a name whose last component is
  missing is the place where a file would be created. Linux follows at most 40 links.\<close>

definition os_links :: nat where "os_links = 40"

function os_walk :: "nat \<Rightarrow> fs \<Rightarrow> bool \<Rightarrow> string list \<Rightarrow> string list \<Rightarrow> string list res" where
  "os_walk links fs follow cur [] = Inr cur"
| "os_walk links fs follow cur (c # cs) =
     (if c = dotdot then os_walk links fs follow (butlast cur) cs
      else case mget fs (cur @ [c]) of
        None \<Rightarrow> if cs = [] then Inr (cur @ [c]) else Inl ErrNotExist
      | Some (FileN _ _ _) \<Rightarrow> if cs = [] then Inr (cur @ [c]) else Inl ErrNotDir
      | Some (DirN _ _ _) \<Rightarrow> os_walk links fs follow (cur @ [c]) cs
      | Some (LinkN t _) \<Rightarrow>
          if cs = [] \<and> \<not> follow then Inr (cur @ [c])
          else (case links of
                  0 \<Rightarrow> Inl ErrLoop
                | Suc n \<Rightarrow> os_walk n fs follow (if IsAbs t then [] else cur) (root_parts t @ cs)))"
  by pat_completeness auto
termination
  by (relation "measures [\<lambda>(links, fs, follow, cur, todo). links, \<lambda>(links, fs, follow, cur, todo). length todo]") auto

definition os_locate :: "fs \<Rightarrow> bool \<Rightarrow> string \<Rightarrow> string list res" where
  "os_locate fs follow path = os_walk os_links fs follow [] (root_parts path)"

definition os_node :: "fs \<Rightarrow> bool \<Rightarrow> string \<Rightarrow> node res" where
  "os_node fs follow path =
     (case os_locate fs follow path of
        Inl e \<Rightarrow> Inl e
      | Inr p \<Rightarrow> (case mget fs p of
                    Some n \<Rightarrow> Inr n
                  | None \<Rightarrow> if p = [] then Inr (DirN 493 [] 0) else Inl ErrNotExist))"

definition os_Stat :: "fs \<Rightarrow> string \<Rightarrow> node res" where
  "os_Stat fs path = (case os_node fs True path of Inl e \<Rightarrow> Inl (path_error ''stat'' path e) | Inr n \<Rightarrow> Inr n)"

definition os_Lstat :: "fs \<Rightarrow> string \<Rightarrow> node res" where
  "os_Lstat fs path = (case os_node fs False path of Inl e \<Rightarrow> Inl (path_error ''lstat'' path e) | Inr n \<Rightarrow> Inr n)"

definition os_Open :: "fs \<Rightarrow> string \<Rightarrow> node res" where
  "os_Open fs path = (case os_node fs True path of Inl e \<Rightarrow> Inl (path_error ''open'' path e) | Inr n \<Rightarrow> Inr n)"

definition os_WriteFile :: "string \<Rightarrow> fs \<Rightarrow> string \<Rightarrow> string \<Rightarrow> nat \<Rightarrow> gerr option \<times> fs" where
  "os_WriteFile now fs path data pm =
     (case os_locate fs True path of
        Inl e \<Rightarrow> (Some (path_error ''open'' path e), fs)
      | Inr p \<Rightarrow>
          if p = [] then (Some (path_error ''open'' path ErrIsDir), fs)
          else (case mget fs p of
                  None \<Rightarrow> (None, mset_key p (FileN data pm now) fs)
                | Some (FileN _ old _) \<Rightarrow> (None, mset_key p (FileN data old now) fs)
                | Some _ \<Rightarrow> (Some (path_error ''open'' path ErrIsDir), fs)))"

text \<open>\<open>os.ReadDir\<close> sorts by name. \<open>os.RemoveAll\<close> takes a missing entry for removed and does not follow
  a link it is given.\<close>

definition os_ReadDir :: "fs \<Rightarrow> string \<Rightarrow> (string \<times> node) list res" where
  "os_ReadDir fs path =
     (case os_locate fs True path of
        Inl e \<Rightarrow> Inl (path_error ''open'' path e)
      | Inr p \<Rightarrow>
          (case mget fs p of
             None \<Rightarrow> if p = [] then Inr (sort_key fst (children fs [])) else Inl (path_error ''open'' path ErrNotExist)
           | Some (DirN _ _ _) \<Rightarrow> Inr (sort_key fst (children fs p))
           | Some _ \<Rightarrow> Inl (path_error ''readdirent'' path ErrNotDir)))"

definition os_RemoveAll :: "fs \<Rightarrow> string \<Rightarrow> gerr option \<times> fs" where
  "os_RemoveAll fs path =
     (case os_locate fs False path of
        Inl e \<Rightarrow> if e = ErrNotExist then (None, fs) else (Some (path_error ''unlinkat'' path e), fs)
      | Inr p \<Rightarrow> (None, remove_tree p fs))"

section \<open>\<open>localexec.go\<close>: configuration\<close>

record LocalConfig =
  lc_Shell :: string
  lc_Dir :: string
  lc_DefaultTimeout :: int
  lc_MaxOutputBytes :: int

definition localDefaultTimeout :: int where "localDefaultTimeout = 120 * second"
definition localDefaultMaxOutputBytes :: int where "localDefaultMaxOutputBytes = 1048576"
definition FallbackShell :: string where "FallbackShell = ''/bin/sh''"

text \<open>\<open>shell\<close> is what \<open>$SHELL\<close> holds and \<open>wd\<close> what \<open>Getwd\<close> answers. \<open>Abs\<close> asks for the working
  directory only for a relative name.\<close>

definition local_New :: "string \<Rightarrow> string res \<Rightarrow> fs \<Rightarrow> LocalConfig \<Rightarrow> LocalConfig res" where
  "local_New shell wd fs cfg =
     (let s1 = (if lc_Shell cfg = [] then shell else lc_Shell cfg);
          s2 = (if s1 = [] then FallbackShell else s1);
          dir = (if lc_Dir cfg = []
                 then (case wd of Inl e \<Rightarrow> Inl (Wrap ''determine the working directory: '' e []) | Inr d \<Rightarrow> Inr d)
                 else Inr (lc_Dir cfg))
      in case dir of
           Inl e \<Rightarrow> Inl e
         | Inr d \<Rightarrow>
             (case (if IsAbs d then Inr (Clean d) else case wd of Inl e \<Rightarrow> Inl e | Inr cwd \<Rightarrow> Inr (Abs cwd d)) of
                Inl e \<Rightarrow> Inl (Wrap (''resolve '' @ quoted d @ '': '') e [])
              | Inr absDir \<Rightarrow>
                  (case os_Stat fs absDir of
                     Inl e \<Rightarrow> Inl (Wrap (''working directory '' @ quoted absDir @ '': '') e [])
                   | Inr info \<Rightarrow>
                       if \<not> is_dir info then Inl (Plain (''working directory '' @ quoted absDir @ '' is not a directory''))
                       else Inr \<lparr>lc_Shell = s2, lc_Dir = absDir,
                              lc_DefaultTimeout = (if lc_DefaultTimeout cfg \<le> 0 then localDefaultTimeout else lc_DefaultTimeout cfg),
                              lc_MaxOutputBytes = (if lc_MaxOutputBytes cfg \<le> 0 then localDefaultMaxOutputBytes
                                                   else lc_MaxOutputBytes cfg)\<rparr>)))"

definition resolvePath :: "LocalConfig \<Rightarrow> string \<Rightarrow> string" where
  "resolvePath cfg path =
     (if path = [] \<or> path = ''.'' then lc_Dir cfg
      else if IsAbs path then Clean path
      else Join [lc_Dir cfg, path])"

section \<open>\<open>localexec.go\<close>: running a command\<close>

text \<open>How \<open>cmd.Run\<close> ends: with nothing, with an \<open>ExitError\<close>, or with any other error, one of starting
  the program among them.\<close>

datatype local_end = LocalOk | LocalExit int | LocalErr gerr

record local_world =
  lr_environ :: "string list"
  lr_stdout :: "string list"
  lr_stderr :: "string list"
  lr_deadline :: bool
  lr_end :: local_end
  lr_ms :: int

record LocalResult =
  lx_Stdout :: string
  lx_Stderr :: string
  lx_ExitCode :: int
  lx_DurationMs :: int
  lx_Truncated :: bool

definition zeroLocalResult :: LocalResult where
  "zeroLocalResult = \<lparr>lx_Stdout = [], lx_Stderr = [], lx_ExitCode = 0, lx_DurationMs = 0, lx_Truncated = False\<rparr>"

text \<open>The command that is handed to the operating system, and the time it is given.\<close>

definition local_command :: "local_world \<Rightarrow> LocalConfig \<Rightarrow> string \<Rightarrow> string list \<Rightarrow> string \<Rightarrow> spawned" where
  "local_command w cfg command args workDir =
     (let (program, argv) = (if args \<noteq> [] then (command, args) else (lc_Shell cfg, [''-c'', command]))
      in \<lparr>sp_path = program, sp_args = argv, sp_dir = resolvePath cfg workDir, sp_env = lr_environ w, sp_attr = Configure None\<rparr>)"

definition local_Run :: "local_world \<Rightarrow> LocalConfig \<Rightarrow> string \<Rightarrow> string list \<Rightarrow> int \<Rightarrow> string \<Rightarrow>
    (LocalResult \<times> gerr option) \<times> (spawned \<times> int) list" where
  "local_Run w cfg command args timeout0 workDir =
     (if command = [] then ((zeroLocalResult, Some (Plain ''command cannot be empty'')), [])
      else
        (let timeout = (if timeout0 \<le> 0 then lc_DefaultTimeout cfg else timeout0);
             cmd = local_command w cfg command args workDir;
             out = write_all (NewCappedBuffer (lc_MaxOutputBytes cfg)) (lr_stdout w);
             err = write_all (NewCappedBuffer (lc_MaxOutputBytes cfg)) (lr_stderr w);
             result = \<lparr>lx_Stdout = String out, lx_Stderr = String err, lx_ExitCode = 0, lx_DurationMs = lr_ms w,
                       lx_Truncated = truncated out \<or> truncated err\<rparr>
         in (if lr_deadline w
             then (result\<lparr>lx_ExitCode := -1, lx_Stderr := lx_Stderr result @ CHR 0x0A # ''[command timed out]''\<rparr>,
                   Some ErrCommandTimeout)
             else (case lr_end w of
                     LocalOk \<Rightarrow> (result, None)
                   | LocalExit c \<Rightarrow> (result\<lparr>lx_ExitCode := c\<rparr>, None)
                   | LocalErr e \<Rightarrow> (result, Some (Wrap ''run command: '' e []))),
             [(cmd, timeout)])))"

section \<open>\<open>files.go\<close>\<close>

text \<open>\<open>int64(MaxOutputBytes)+1\<close>, and what a limited reader hands out. \<open>reads\<close> is how the reads split what
  they deliver and \<open>fails\<close> an error of one of them.\<close>

definition read_limit :: "int \<Rightarrow> int" where
  "read_limit m = sint (word_of_int m + 1 :: u64)"

definition local_ReadFile :: "(string \<Rightarrow> string list) \<Rightarrow> gerr option \<Rightarrow> LocalConfig \<Rightarrow> fs \<Rightarrow> string \<Rightarrow> (string \<times> bool) res" where
  "local_ReadFile reads fails cfg fs path =
     (let absPath = resolvePath cfg path in
      case os_Open fs absPath of
        Inl e \<Rightarrow> Inl e
      | Inr (FileN c _ _) \<Rightarrow>
          (case fails of
             Some e \<Rightarrow> Inl e
           | None \<Rightarrow>
               (let b = write_all (NewCappedBuffer (lc_MaxOutputBytes cfg)) (reads (take (nat (read_limit (lc_MaxOutputBytes cfg))) c))
                in Inr (String b, truncated b)))
      | Inr _ \<Rightarrow> Inl (Plain (absPath @ '' is a directory'')))"

definition local_WriteFile :: "string \<Rightarrow> LocalConfig \<Rightarrow> fs \<Rightarrow> string \<Rightarrow> string \<Rightarrow> gerr option \<times> fs" where
  "local_WriteFile now cfg fs path data =
     (let absPath = resolvePath cfg path;
          dir = Dir absPath;
          (merr, fs1) = (if dir \<noteq> [] then os_MkdirAll now fs dir 488 else (None, fs))
      in case merr of
           Some e \<Rightarrow> (Some (Wrap ''create directory structure: '' e []), fs1)
         | None \<Rightarrow> os_WriteFile now fs1 absPath data 420)"

text \<open>\<open>gone\<close> are the entries that vanished before they were described.\<close>

definition local_info :: "LocalConfig \<Rightarrow> string \<Rightarrow> string \<times> node \<Rightarrow> FileInfo" where
  "local_info cfg absPath entry =
     (case entry of (name, n) \<Rightarrow>
        \<lparr>fi_Name = name,
         fi_Path = (case Rel (lc_Dir cfg) (Join [absPath, name]) of Inr rel \<Rightarrow> rel | Inl e \<Rightarrow> name),
         fi_IsDir = is_dir n, fi_Size = node_size n, fi_ModTime = mtime n\<rparr>)"

definition local_ListDir :: "(string \<Rightarrow> bool) \<Rightarrow> LocalConfig \<Rightarrow> fs \<Rightarrow> string \<Rightarrow> FileInfo list res" where
  "local_ListDir gone cfg fs path =
     (let absPath = resolvePath cfg path in
      case os_ReadDir fs absPath of
        Inl e \<Rightarrow> Inl e
      | Inr entries \<Rightarrow> Inr (map (local_info cfg absPath) (filter (\<lambda>(name, n). \<not> gone name) entries)))"

definition local_DeleteFile :: "LocalConfig \<Rightarrow> fs \<Rightarrow> string \<Rightarrow> DeleteResult res \<times> fs" where
  "local_DeleteFile cfg fs path =
     (let absPath = resolvePath cfg path in
      if absPath = Dir absPath then (Inl (Plain ''refusing to delete the filesystem root''), fs)
      else if absPath = lc_Dir cfg then (Inl (Plain ''refusing to delete the working directory itself''), fs)
      else
        (let result = (case os_Lstat fs absPath of
                         Inr n \<Rightarrow> \<lparr>del_Existed = True, del_WasDirectory = is_dir n\<rparr>
                       | Inl e \<Rightarrow> \<lparr>del_Existed = False, del_WasDirectory = False\<rparr>);
             (err, fs') = os_RemoveAll fs absPath
         in (case err of Some e \<Rightarrow> Inl e | None \<Rightarrow> Inr result, fs')))"

record LocalStatus =
  ls_RootDir :: string
  ls_Shell :: string
  ls_DefaultTimeout :: string
  ls_MaxOutputBytes :: int
  ls_Sandboxed :: bool

definition local_Status :: "LocalConfig \<Rightarrow> LocalStatus" where
  "local_Status cfg =
     \<lparr>ls_RootDir = lc_Dir cfg, ls_Shell = lc_Shell cfg, ls_DefaultTimeout = duration_text (lc_DefaultTimeout cfg),
      ls_MaxOutputBytes = lc_MaxOutputBytes cfg, ls_Sandboxed = False\<rparr>"

end
