(* ===== verification/Local_Mcp.thy ===== *)
theory Local_Mcp imports Local_Exec Tools Worker_Link begin

text \<open>
  Package \<open>internal/localmcp\<close> and \<open>cmd/executor-local\<close>: the six tools of the local helper, over the
  runner of \<open>Local_Exec\<close>, and how the program starts. The inputs have the shapes of the server's
  tools (\<open>tool_input\<close>); the outputs are the helper's own. \<open>local_executor\<close> is no code of the
  repository: it puts the runner behind the interface the server's tools call, to compare the two.
\<close>

section \<open>\<open>tool_exec.go\<close> and \<open>tool_files.go\<close>\<close>

datatype local_output =
    LExec LocalResult
  | LRead string string bool
  | LWrite string int
  | LList string "FileInfo list"
  | LDelete string bool bool
  | LStatus LocalStatus

type_synonym local_ret = "CallToolResult option \<times> local_output \<times> gerr option"

text \<open>What the operating system answers during one call; \<open>lt_after\<close> is what a command does to the files.\<close>

record local_tools =
  lt_run :: local_world
  lt_after :: "fs \<Rightarrow> fs"
  lt_now :: string
  lt_reads :: "string \<Rightarrow> string list"
  lt_read_fails :: "gerr option"
  lt_gone :: "string \<Rightarrow> bool"

definition local_cutShortResult :: "gerr \<Rightarrow> string \<Rightarrow> string \<Rightarrow> CallToolResult" where
  "local_cutShortResult reason out errs =
     (let text = err_text reason;
          more = [CHR 0x0A, CHR 0x0A] @ ''partial output before the command was cut:'' @ [CHR 0x0A] @ ''--- stdout ---'' @ [CHR 0x0A] @ out @
            [CHR 0x0A] @ ''--- stderr ---'' @ [CHR 0x0A] @ errs
      in \<lparr>ct_IsError = True, ct_Text = (if out \<noteq> [] \<or> errs \<noteq> [] then text @ more else text)\<rparr>)"

lemma local_cut_short [simp]: "local_cutShortResult = cutShortResult"
  by (simp add: fun_eq_iff local_cutShortResult_def cutShortResult_def)

definition local_exec_answer :: "LocalResult \<times> gerr option \<Rightarrow> local_ret" where
  "local_exec_answer x =
     (case x of (out, err) \<Rightarrow>
        (case err of
           None \<Rightarrow> (None, LExec out, None)
         | Some e \<Rightarrow> if errors_is e ErrCommandTimeout
                     then (Some (local_cutShortResult e (lx_Stdout out) (lx_Stderr out)), LExec out, None)
                     else (None, LExec out, Some e)))"

definition local_execCommandHandler :: "local_tools \<Rightarrow> LocalConfig \<Rightarrow> string \<Rightarrow> string list option \<Rightarrow> int \<Rightarrow> string \<Rightarrow> fs \<Rightarrow>
    local_ret \<times> fs \<times> (spawned \<times> int) list" where
  "local_execCommandHandler v cfg command args timeoutSec workDir fs =
     (if command = [] then ((None, LExec zeroLocalResult, Some (Plain ''command cannot be empty'')), fs, [])
      else
        (let timeout = exec_timeout timeoutSec;
             (r, trace) = local_Run (lt_run v) cfg command (case args of None \<Rightarrow> [] | Some as \<Rightarrow> as) timeout workDir
         in (local_exec_answer r, lt_after v fs, trace)))"

definition local_readFileHandler :: "local_tools \<Rightarrow> LocalConfig \<Rightarrow> string \<Rightarrow> fs \<Rightarrow> local_ret" where
  "local_readFileHandler v cfg path fs =
     (if path = [] then (None, LRead [] [] False, Some (Plain ''path cannot be empty''))
      else (case local_ReadFile (lt_reads v) (lt_read_fails v) cfg fs path of
              Inl e \<Rightarrow> (None, LRead [] [] False, Some (Wrap ''read file: '' e []))
            | Inr (data, trunc) \<Rightarrow> (None, LRead path data trunc, None)))"

definition local_writeFileHandler :: "local_tools \<Rightarrow> LocalConfig \<Rightarrow> string \<Rightarrow> string \<Rightarrow> fs \<Rightarrow> local_ret \<times> fs" where
  "local_writeFileHandler v cfg path data fs =
     (if path = [] then ((None, LWrite [] 0, Some (Plain ''path cannot be empty'')), fs)
      else (case local_WriteFile (lt_now v) cfg fs path data of
              (Some e, fs') \<Rightarrow> ((None, LWrite [] 0, Some (Wrap ''write file: '' e [])), fs')
            | (None, fs') \<Rightarrow> ((None, LWrite path (int (length data)), None), fs')))"

definition local_listDirHandler :: "local_tools \<Rightarrow> LocalConfig \<Rightarrow> string \<Rightarrow> fs \<Rightarrow> local_ret" where
  "local_listDirHandler v cfg path0 fs =
     (let path = (if path0 = [] then ''.'' else path0) in
      case local_ListDir (lt_gone v) cfg fs path of
        Inl e \<Rightarrow> (None, LList [] [], Some (Wrap ''list directory: '' e []))
      | Inr files \<Rightarrow> (None, LList path files, None))"

definition local_deleteFileHandler :: "LocalConfig \<Rightarrow> string \<Rightarrow> fs \<Rightarrow> local_ret \<times> fs" where
  "local_deleteFileHandler cfg path fs =
     (if path = [] then ((None, LDelete [] False False, Some (Plain ''path cannot be empty'')), fs)
      else (case local_DeleteFile cfg fs path of
              (Inl e, fs') \<Rightarrow> ((None, LDelete [] False False, Some (Wrap ''delete: '' e [])), fs')
            | (Inr r, fs') \<Rightarrow> ((None, LDelete path (del_Existed r) (del_WasDirectory r), None), fs')))"

definition local_sandboxStatusHandler :: "LocalConfig \<Rightarrow> local_ret" where
  "local_sandboxStatusHandler cfg = (None, LStatus (local_Status cfg), None)"

section \<open>\<open>server.go\<close>\<close>

definition local_NewServer :: "string \<Rightarrow> string \<times> string" where
  "local_NewServer version = (''mcp-sandbox-local'', if version = [] then ''dev'' else version)"

text \<open>A call of a registered tool, with the files and the commands started since the helper began.\<close>

type_synonym local_state = "fs \<times> (spawned \<times> int) list"

fun local_RegisterTools :: "local_tools \<Rightarrow> LocalConfig \<Rightarrow> tool_input \<Rightarrow> local_state \<Rightarrow> local_ret \<times> local_state" where
  "local_RegisterTools v cfg (ExecCommandInput c args timeout dir) (fs, tr) =
     (let (r, fs', t) = local_execCommandHandler v cfg c args timeout dir fs in (r, fs', tr @ t))"
| "local_RegisterTools v cfg (ReadFileInput p) (fs, tr) = (local_readFileHandler v cfg p fs, fs, tr)"
| "local_RegisterTools v cfg (WriteFileInput p c) (fs, tr) =
     (let (r, fs') = local_writeFileHandler v cfg p c fs in (r, fs', tr))"
| "local_RegisterTools v cfg (ListDirInput p) (fs, tr) = (local_listDirHandler v cfg p fs, fs, tr)"
| "local_RegisterTools v cfg (DeleteFileInput p) (fs, tr) =
     (let (r, fs') = local_deleteFileHandler cfg p fs in (r, fs', tr))"
| "local_RegisterTools v cfg SandboxStatusInput (fs, tr) = (local_sandboxStatusHandler cfg, fs, tr)"

section \<open>\<open>cmd/executor-local\<close>\<close>

record local_flags =
  lf_dir :: string
  lf_shell :: string
  lf_timeout :: int
  lf_max_output_bytes :: int

definition local_flag_defaults :: local_flags where
  "local_flag_defaults =
     \<lparr>lf_dir = [], lf_shell = [], lf_timeout = localDefaultTimeout, lf_max_output_bytes = localDefaultMaxOutputBytes\<rparr>"

text \<open>The action: the runner that is served, with the name and version it is announced under.\<close>

definition local_action :: "string \<Rightarrow> string res \<Rightarrow> fs \<Rightarrow> string \<Rightarrow> local_flags \<Rightarrow> (LocalConfig \<times> string \<times> string) res" where
  "local_action shell wd fs version f =
     (case local_New shell wd fs \<lparr>lc_Shell = lf_shell f, lc_Dir = lf_dir f, lc_DefaultTimeout = lf_timeout f,
             lc_MaxOutputBytes = lf_max_output_bytes f\<rparr> of
        Inl e \<Rightarrow> Inl e
      | Inr cfg \<Rightarrow> Inr (cfg, local_NewServer version))"

section \<open>The helper answers as the server's tools\<close>

text \<open>The runner behind the interface of the server.\<close>

definition as_response :: "LocalResult \<Rightarrow> ExecResponse" where
  "as_response r = zeroExecResponse\<lparr>ex_Stdout := lx_Stdout r, ex_Stderr := lx_Stderr r, ex_ExitCode := lx_ExitCode r,
     ex_DurationMs := lx_DurationMs r, ex_Truncated := lx_Truncated r\<rparr>"

definition local_executor :: "local_tools \<Rightarrow> LocalConfig \<Rightarrow> local_state Executor" where
  "local_executor v cfg =
     \<lparr>xe_Exec = (\<lambda>a rq (fs, tr).
        (let (r, t) = local_Run (lt_run v) cfg (er_Command rq) (case er_Args rq of None \<Rightarrow> [] | Some as \<Rightarrow> as)
                        (exec_timeout (er_TimeoutSec rq)) (er_WorkDir rq)
         in (Some (as_response (fst r), snd r), if er_Command rq = [] then fs else lt_after v fs, tr @ t))),
      xe_ReadFile = (\<lambda>a p (fs, tr).
        (Some (case local_ReadFile (lt_reads v) (lt_read_fails v) cfg fs p of Inl e \<Rightarrow> ([], Some e) | Inr (c, t) \<Rightarrow> (c, None)), fs, tr)),
      xe_WriteFile = (\<lambda>a p c (fs, tr).
        (let (e, fs') = local_WriteFile (lt_now v) cfg fs p c in (Some (int (length c), e), fs', tr))),
      xe_ListDir = (\<lambda>a p (fs, tr).
        (Some (case local_ListDir (lt_gone v) cfg fs p of Inl e \<Rightarrow> (None, Some e) | Inr l \<Rightarrow> (Some l, None)), fs, tr)),
      xe_DeleteFile = (\<lambda>a p (fs, tr).
        (let (r, fs') = local_DeleteFile cfg fs p
         in (Some (case r of
                     Inl e \<Rightarrow> (\<lparr>dfs_Path = p, dfs_Existed = False, dfs_WasDirectory = False\<rparr>, Some e)
                   | Inr d \<Rightarrow> (\<lparr>dfs_Path = p, dfs_Existed = del_Existed d, dfs_WasDirectory = del_WasDirectory d\<rparr>, None)), fs', tr))),
      xe_Status = (\<lambda>a h. (Some (\<lparr>st_RootDir = lc_Dir cfg, st_DefaultTimeout = duration_text (lc_DefaultTimeout cfg),
        st_MaxOutputBytes = lc_MaxOutputBytes cfg, st_EnvNames = None, st_RunningCommands = 0, st_WorkerID = []\<rparr>, None), h)),
      xe_Kill = (\<lambda>a by why h. (Some (0, None), h)),
      xe_WorkerFor = None\<rparr>"

text \<open>What a client of the server sees of an output: the outcome kept for the journal is not sent.
  \<open>shared\<close> leaves the one field away that only the helper has.\<close>

fun on_wire :: "tool_output \<Rightarrow> tool_output" where
  "on_wire (OExec out) = OExec (out\<lparr>eo_outcome := []\<rparr>)"
| "on_wire out = out"

fun shared :: "local_output \<Rightarrow> tool_output" where
  "shared (LExec r) = OExec \<lparr>eo_Stdout = lx_Stdout r, eo_Stderr = lx_Stderr r, eo_ExitCode = lx_ExitCode r,
     eo_DurationMs = lx_DurationMs r, eo_Truncated = lx_Truncated r, eo_outcome = []\<rparr>"
| "shared (LRead p c t) = ORead p c"
| "shared (LWrite p n) = OWrite p n"
| "shared (LList p fs) = OList p fs"
| "shared (LDelete p e d) = ODelete p e d"
| "shared (LStatus s) = OStatus (Some \<lparr>st_RootDir = ls_RootDir s, st_DefaultTimeout = ls_DefaultTimeout s,
     st_MaxOutputBytes = ls_MaxOutputBytes s, st_EnvNames = None, st_RunningCommands = 0, st_WorkerID = []\<rparr>)"

lemma no_gate: "gated t w (Some a) zero work h None = (case work (ac_ID a) h of (r, h1) \<Rightarrow> (r, h1, None))"
  by (simp add: gated_def agentForCall_def)

lemma no_journal: "audited x w (Some a) action tg handler h None = handler h None"
  by (simp add: audited_def)

lemma stopped_is_not_timeout: "errors_is ErrCommandTimeout ErrCommandStopped = False"
  by (simp add: ErrCommandTimeout_def ErrCommandStopped_def)

text \<open>The error of a run is the time-out or a failure to run; it is never the server's stop.\<close>

lemma local_Run_error:
  assumes "local_Run w cfg c args t d = ((r, Some e), tr)" "\<And>g. lr_end w = LocalErr g \<Longrightarrow> \<not> errors_is g ErrCommandStopped"
  shows "\<not> errors_is e ErrCommandStopped"
  using assms by (auto simp: local_Run_def Let_def stopped_is_not_timeout split: if_splits local_end.splits)

definition wire_ret :: "('h, tool_output) tool_ret \<Rightarrow> (CallToolResult option \<times> tool_output \<times> gerr option) option \<times> 'h" where
  "wire_ret x = (case x of (r, h, db) \<Rightarrow> (map_option (\<lambda>(res, out, err). (res, on_wire out, err)) r, h))"

lemma exec_matches:
  assumes "\<And>g. lr_end (lt_run v) = LocalErr g \<Longrightarrow> \<not> errors_is g ErrCommandStopped"
  shows "wire_ret (call_tool (local_executor v cfg) w (Some a) (ExecCommandInput c args t d) (fs, tr) None) =
    (case local_RegisterTools v cfg (ExecCommandInput c args t d) (fs, tr) of ((res, out, err), st) \<Rightarrow> (Some (res, shared out, err), st))"
proof (cases "c = []")
  case True
  then show ?thesis
    by (simp add: wire_ret_def no_journal execCommandHandler_def no_gate local_executor_def local_execCommandHandler_def local_Run_def
        exec_answer_def exec_output_def as_response_def zeroLocalResult_def zeroExecResponse_def
        ErrCommandTimeout_def ErrCommandStopped_def)
next
  case False
  obtain r e s where run: "local_Run (lt_run v) cfg c (case args of None \<Rightarrow> [] | Some as \<Rightarrow> as) (exec_timeout t) d = ((r, e), s)"
    by (metis prod_cases3 surj_pair)
  have stop: "\<not> errors_is g ErrCommandStopped" if "e = Some g" for g
    using local_Run_error run that assms by metis
  show ?thesis
    using False run stop
    by (cases e) (simp_all add: wire_ret_def no_journal execCommandHandler_def no_gate local_executor_def local_execCommandHandler_def
        exec_answer_def exec_output_def as_response_def zeroExecResponse_def local_exec_answer_def Let_def)
qed

lemma files_match:
  "wire_ret (call_tool (local_executor v cfg) w (Some a) (ReadFileInput p) (fs, tr) None) =
    (case local_RegisterTools v cfg (ReadFileInput p) (fs, tr) of ((res, out, err), st) \<Rightarrow> (Some (res, shared out, err), st))"
  "wire_ret (call_tool (local_executor v cfg) w (Some a) (WriteFileInput p data) (fs, tr) None) =
    (case local_RegisterTools v cfg (WriteFileInput p data) (fs, tr) of ((res, out, err), st) \<Rightarrow> (Some (res, shared out, err), st))"
  "wire_ret (call_tool (local_executor v cfg) w (Some a) (ListDirInput p) (fs, tr) None) =
    (case local_RegisterTools v cfg (ListDirInput p) (fs, tr) of ((res, out, err), st) \<Rightarrow> (Some (res, shared out, err), st))"
  "wire_ret (call_tool (local_executor v cfg) w (Some a) (DeleteFileInput p) (fs, tr) None) =
    (case local_RegisterTools v cfg (DeleteFileInput p) (fs, tr) of ((res, out, err), st) \<Rightarrow> (Some (res, shared out, err), st))"
  "wire_ret (call_tool (local_executor v cfg) w (Some a) SandboxStatusInput (fs, tr) None) =
    (case local_RegisterTools v cfg SandboxStatusInput (fs, tr) of ((res, out, err), st) \<Rightarrow> (Some (res, shared out, err), st))"
  by (auto simp: wire_ret_def no_journal no_gate local_executor_def readFileHandler_def local_readFileHandler_def empty_path_def file_answer_def
      writeFileHandler_def local_writeFileHandler_def listDirHandler_def local_listDirHandler_def deleteFileHandler_def
      local_deleteFileHandler_def sandboxStatusHandler_def local_sandboxStatusHandler_def local_Status_def Let_def
      split: sum.splits prod.splits option.splits)

end
