(* ===== verification/Local_Props.thy ===== *)
theory Local_Props imports Local_Mcp begin

text \<open>
  What the local helper promises: its tools answer as the server's do over the same runner, what it
  writes it reads back and says when it cut it, and a delete removes the entry it was given and
  nothing else.
\<close>

section \<open>Reading and writing\<close>

definition no_dir :: "node option \<Rightarrow> bool" where
  "no_dir n = (case n of None \<Rightarrow> True | Some (FileN _ _ _) \<Rightarrow> True | _ \<Rightarrow> False)"

text \<open>A file put where a walk ends changes no walk to that place.\<close>

lemma os_walk_put:
  assumes "os_walk links fs follow cur todo = Inr p" "no_dir (mget fs p)"
  shows "os_walk links (mset_key p (FileN d m t) fs) follow cur todo = Inr p"
  using assms
proof (induction links fs follow cur todo rule: os_walk.induct)
  case (2 links fs follow cur c cs)
  show ?case
  proof (cases "c = dotdot")
    case True
    with 2 show ?thesis by simp
  next
    case False
    show ?thesis
    proof (cases "no_dir (mget fs (cur @ [c]))")
      case True
      then have "cs = [] \<and> p = cur @ [c]"
        using 2(4) False by (auto simp: no_dir_def split: option.splits node.splits if_splits)
      with False show ?thesis by simp
    next
      case dir: False
      then have ne: "cur @ [c] \<noteq> p" using 2(5) by auto
      show ?thesis
      proof (cases "mget fs (cur @ [c])")
        case None
        with dir show ?thesis by (simp add: no_dir_def)
      next
        case (Some n)
        note ih = "2.IH"(2,3) [OF False Some]
        show ?thesis
        proof (cases n)
          case (FileN c' pm t')
          with dir Some show ?thesis by (simp add: no_dir_def)
        next
          case (DirN pm t' sz)
          with 2(4,5) False Some ih(1) ne show ?thesis by simp
        next
          case (LinkN t' m')
          then have go: "\<not> (cs = [] \<and> \<not> follow)" using 2(4) False Some ne by (auto split: if_splits)
          with LinkN obtain k where "links = Suc k" using 2(4) False Some by (cases links) auto
          with LinkN 2(4,5) False Some ih(2) [OF LinkN go] ne go show ?thesis by (simp add: if_not_P)
        qed
      qed
    qed
  qed
qed simp

lemma os_WriteFile_then_Open:
  assumes "os_WriteFile now fs path d pm = (None, fs')"
  shows "\<exists>m. os_Open fs' path = Inr (FileN d m now)"
proof -
  obtain p where p: "os_locate fs True path = Inr p" "p \<noteq> []"
    using assms by (auto simp: os_WriteFile_def split: sum.splits if_splits)
  have n: "no_dir (mget fs p)" and "\<exists>m. fs' = mset_key p (FileN d m now) fs"
    using assms p by (auto simp: os_WriteFile_def no_dir_def split: option.splits node.splits)
  then obtain m where fs': "fs' = mset_key p (FileN d m now) fs" by blast
  have "os_locate fs' True path = Inr p"
    using p(1) os_walk_put [OF _ n] by (simp add: os_locate_def fs')
  then show ?thesis by (simp add: os_Open_def os_node_def fs')
qed

text \<open>A read of a file, for every cap but the largest.\<close>

lemma read_limit_small: "0 < m \<Longrightarrow> m < 2 ^ 63 - 1 \<Longrightarrow> read_limit m = m + 1"
proof -
  assume m: "0 < m" "m < 2 ^ 63 - 1"
  have w: "word_of_int m + 1 = (word_of_int (m + 1) :: u64)" by simp
  have "sint (word_of_int (m + 1) :: u64) = signed_take_bit 63 (m + 1)" by (simp only: signed_of_int) simp
  also have "\<dots> = m + 1" using m by (intro signed_take_bit_int_eq_self) simp_all
  finally show ?thesis unfolding read_limit_def w .
qed

lemma read_of_file:
  assumes "os_Open fs (resolvePath cfg path) = Inr (FileN c m t)" "0 < lc_MaxOutputBytes cfg" "lc_MaxOutputBytes cfg < 2 ^ 63 - 1"
    and "\<And>d. concat (reads d) = d" "\<And>d p. p \<in> set (reads d) \<Longrightarrow> p \<noteq> []"
  shows "local_ReadFile reads None cfg fs path =
    Inr (if int (length c) \<le> lc_MaxOutputBytes cfg then (c, False)
         else (TrimIncompleteRune (take (nat (lc_MaxOutputBytes cfg)) c), True))"
proof -
  let ?m = "lc_MaxOutputBytes cfg"
  let ?d = "take (nat (?m + 1)) c"
  have "\<forall>p\<in>set (reads ?d). p \<noteq> []" using assms(5) by blast
  note b = write_all_new [OF this, of ?m, unfolded assms(4)]
  show ?thesis
    using assms(1-3) b by (auto simp: local_ReadFile_def Let_def read_limit_small String_def min_def nat_add_distrib)
qed

text \<open>The largest cap wraps the limit of the reader, and every file reads as empty and complete.\<close>

lemma read_under_the_largest_cap:
  assumes "os_Open fs (resolvePath cfg path) = Inr (FileN c m t)" "lc_MaxOutputBytes cfg = 2 ^ 63 - 1" "reads [] = []"
  shows "local_ReadFile reads None cfg fs path = Inr ([], False)"
proof -
  have "read_limit (2 ^ 63 - 1) = - (2 ^ 63)" by code_simp
  with assms show ?thesis by (simp add: local_ReadFile_def Let_def NewCappedBuffer_def String_def)
qed

lemma write_then_read:
  assumes "local_WriteFile now cfg fs path d = (None, fs')" "0 < lc_MaxOutputBytes cfg" "lc_MaxOutputBytes cfg < 2 ^ 63 - 1"
    and "\<And>d. concat (reads d) = d" "\<And>d p. p \<in> set (reads d) \<Longrightarrow> p \<noteq> []"
  shows "local_ReadFile reads None cfg fs' path =
    Inr (if int (length d) \<le> lc_MaxOutputBytes cfg then (d, False)
         else (TrimIncompleteRune (take (nat (lc_MaxOutputBytes cfg)) d), True))"
proof -
  obtain fs1 where "os_WriteFile now fs1 (resolvePath cfg path) d 420 = (None, fs')"
    using assms(1) by (auto simp: local_WriteFile_def Let_def split: prod.splits option.splits if_splits)
  then obtain m where "os_Open fs' (resolvePath cfg path) = Inr (FileN d m now)" using os_WriteFile_then_Open by blast
  then show ?thesis by (rule read_of_file [OF _ assms(2-5)])
qed

section \<open>Deleting\<close>

text \<open>A walk that does not follow the last component ends at an entry of that name.\<close>

lemma os_walk_last:
  "os_walk links fs False cur todo = Inr p \<Longrightarrow> todo \<noteq> [] \<Longrightarrow> last todo \<noteq> dotdot \<Longrightarrow> p \<noteq> [] \<and> last p = last todo"
proof (induction links fs "False" cur todo rule: os_walk.induct)
  case (2 links fs cur c cs)
  show ?case
  proof (cases "cs = []")
    case True
    with 2 show ?thesis by (auto split: option.splits node.splits)
  next
    case False
    with 2 show ?thesis by (auto split: if_splits option.splits node.splits nat.splits)
  qed
qed simp

lemma root_parts_clean:
  assumes "IsAbs p" "Clean p = p"
  shows "root_parts p = comps p"
proof -
  have p: "p = slash # join_with [slash] (comps p)" using assms unfolding Clean_def render_def by simp
  have pl: "\<And>c. c \<in> set (comps p) \<Longrightarrow> plain_comp c" using abs_plain [OF assms(1)] .
  have "split_on slash p = [] # split_on slash (join_with [slash] (comps p))" by (subst p) simp
  moreover have "split_on slash (join_with [slash] (comps p)) = comps p" if "comps p \<noteq> []"
    using that pl by (intro split_on_join) (auto simp: plain_comp_def)
  moreover have "filter (\<lambda>c. c \<noteq> [] \<and> c \<noteq> ''.'') (comps p) = comps p"
    using pl by (simp add: filter_id_conv plain_comp_def)
  ultimately show ?thesis by (cases "comps p = []") (simp_all add: root_parts_def)
qed

lemma root_is_its_own_Dir: "IsAbs p \<Longrightarrow> Clean p = p \<Longrightarrow> comps p = [] \<Longrightarrow> p = Dir p"
proof -
  assume a: "IsAbs p" "Clean p = p" "comps p = []"
  then have p: "p = [slash]" unfolding Clean_def render_def by simp
  show "p = Dir p" unfolding p by code_simp
qed

lemma Join_clean:
  assumes "IsAbs d" shows "IsAbs (Join [d, q])" "Clean (Join [d, q]) = Join [d, q]"
proof -
  have "d \<noteq> []" using assms by (auto simp: IsAbs_def)
  moreover have "IsAbs (d @ slash # q)" using assms by (auto simp: IsAbs_def split: list.splits)
  ultimately show "IsAbs (Join [d, q])" "Clean (Join [d, q]) = Join [d, q]" by simp_all
qed

lemma New_is_clean:
  assumes "local_New shell wd fs0 cfg0 = Inr cfg" "\<And>d. wd = Inr d \<Longrightarrow> IsAbs d"
  shows "IsAbs (lc_Dir cfg)" "Clean (lc_Dir cfg) = lc_Dir cfg"
proof -
  have "(\<exists>d. IsAbs d \<and> lc_Dir cfg = Clean d) \<or> (\<exists>cwd d. wd = Inr cwd \<and> \<not> IsAbs d \<and> lc_Dir cfg = Abs cwd d)"
    using assms(1) unfolding local_New_def Let_def by (auto split: sum.splits if_splits)
  then have "IsAbs (lc_Dir cfg) \<and> Clean (lc_Dir cfg) = lc_Dir cfg"
  proof (elim disjE exE conjE)
    fix cwd d assume a: "wd = Inr cwd" "\<not> IsAbs d" "lc_Dir cfg = Abs cwd d"
    have "Abs cwd d = Join [cwd, d]" using a(2) by (simp add: Abs_def)
    with a(3) Join_clean [OF assms(2) [OF a(1)], of d] show ?thesis by metis
  qed simp
  then show "IsAbs (lc_Dir cfg)" "Clean (lc_Dir cfg) = lc_Dir cfg" by auto
qed

lemma resolvePath_clean:
  assumes "IsAbs (lc_Dir cfg)" "Clean (lc_Dir cfg) = lc_Dir cfg"
  shows "IsAbs (resolvePath cfg path)" "Clean (resolvePath cfg path) = resolvePath cfg path"
  using assms Join_clean [OF assms(1), of path] unfolding resolvePath_def by (auto simp del: Join.simps)

lemma delete_place:
  assumes "IsAbs (lc_Dir cfg)" "Clean (lc_Dir cfg) = lc_Dir cfg" "resolvePath cfg path \<noteq> Dir (resolvePath cfg path)"
    "os_locate fs False (resolvePath cfg path) = Inr q"
  shows "q \<noteq> []"
proof -
  note c = resolvePath_clean [OF assms(1,2), of path]
  have rp: "root_parts (resolvePath cfg path) = comps (resolvePath cfg path)" by (rule root_parts_clean [OF c])
  have ne: "comps (resolvePath cfg path) \<noteq> []" using root_is_its_own_Dir c assms(3) by blast
  then have "plain_comp (last (comps (resolvePath cfg path)))" using abs_plain [OF c(1)] last_in_set by blast
  then have "last (comps (resolvePath cfg path)) \<noteq> dotdot" by (simp add: plain_comp_def)
  with os_walk_last ne assms(4) show ?thesis unfolding os_locate_def rp by blast
qed

lemma delete_exact:
  assumes "IsAbs (lc_Dir cfg)" "Clean (lc_Dir cfg) = lc_Dir cfg" "local_DeleteFile cfg fs path = (out, fs')"
  shows "case out of
      Inl e \<Rightarrow> fs' = fs
    | Inr r \<Rightarrow>
        resolvePath cfg path \<noteq> lc_Dir cfg \<and>
        (case os_locate fs False (resolvePath cfg path) of
           Inl e \<Rightarrow> fs' = fs \<and> \<not> del_Existed r
         | Inr q \<Rightarrow> q \<noteq> [] \<and> (\<forall>x. mget fs' x = (if take (length q) x = q then None else mget fs x)) \<and>
                   (del_Existed r \<longleftrightarrow> mget fs q \<noteq> None) \<and>
                   (del_WasDirectory r \<longleftrightarrow> (\<exists>pm t s. mget fs q = Some (DirN pm t s))))"
proof -
  let ?p = "resolvePath cfg path"
  consider "?p = Dir ?p" | "?p = lc_Dir cfg" | "?p \<noteq> Dir ?p" "?p \<noteq> lc_Dir cfg" by blast
  then show ?thesis
  proof cases
    case 3
    show ?thesis
    proof (cases "os_locate fs False ?p")
      case (Inl e)
      with 3 assms(3) show ?thesis
        by (auto simp: local_DeleteFile_def Let_def os_RemoveAll_def os_Lstat_def os_node_def split: if_splits)
    next
      case (Inr q)
      have q: "q \<noteq> []" by (rule delete_place [OF assms(1,2) 3(1) Inr])
      with Inr 3 assms(3) show ?thesis
        by (cases "mget fs q")
          (auto simp: local_DeleteFile_def Let_def os_RemoveAll_def os_Lstat_def os_node_def remove_tree_mget is_dir_def split: node.splits)
    qed
  qed (use assms(3) in \<open>auto simp: local_DeleteFile_def Let_def split: if_splits\<close>)
qed

text \<open>The refusal of the working directory goes by its name: under another name it is deleted.\<close>

lemma working_directory_has_other_names:
  "\<exists>cfg fs r fs'. local_New ''/bin/sh'' (Inl (Plain [])) fs
       \<lparr>lc_Shell = [], lc_Dir = ''/home/work'', lc_DefaultTimeout = 0, lc_MaxOutputBytes = 0\<rparr> = Inr cfg \<and>
     local_DeleteFile cfg fs ''.'' = (Inl (Plain ''refusing to delete the working directory itself''), fs) \<and>
     local_DeleteFile cfg fs ''/alias/work'' = (Inr r, fs') \<and> mget fs [''home'', ''work''] \<noteq> None \<and> mget fs' [''home'', ''work''] = None"
proof -
  let ?fs = "[([''home''], DirN 493 [] 0), ([''home'', ''work''], DirN 493 [] 0), ([''alias''], LinkN ''/home'' [])]"
  let ?cfg = "\<lparr>lc_Shell = ''/bin/sh'', lc_Dir = ''/home/work'', lc_DefaultTimeout = localDefaultTimeout, lc_MaxOutputBytes = localDefaultMaxOutputBytes\<rparr>"
  have "local_New ''/bin/sh'' (Inl (Plain [])) ?fs \<lparr>lc_Shell = [], lc_Dir = ''/home/work'', lc_DefaultTimeout = 0, lc_MaxOutputBytes = 0\<rparr> = Inr ?cfg"
    by code_simp
  moreover have "local_DeleteFile ?cfg ?fs ''.'' = (Inl (Plain ''refusing to delete the working directory itself''), ?fs)" by code_simp
  moreover have "local_DeleteFile ?cfg ?fs ''/alias/work'' =
      (Inr \<lparr>del_Existed = True, del_WasDirectory = True\<rparr>, [([''home''], DirN 493 [] 0), ([''alias''], LinkN ''/home'' [])])" by code_simp
  moreover have "mget ?fs [''home'', ''work''] \<noteq> None" "mget [([''home''], DirN 493 [] 0), ([''alias''], LinkN ''/home'' [])] [''home'', ''work''] = None"
    by simp_all
  ultimately show ?thesis by blast
qed

section \<open>Properties\<close>

lemma tools_match:
  assumes "\<And>g. lr_end (lt_run v) = LocalErr g \<Longrightarrow> \<not> errors_is g ErrCommandStopped"
  shows "wire_ret (call_tool (local_executor v cfg) w (Some a) inp st None) =
    (case local_RegisterTools v cfg inp st of ((res, out, err), st') \<Rightarrow> (Some (res, shared out, err), st'))"
proof (cases st)
  case (Pair fs tr)
  show ?thesis unfolding Pair by (cases inp) (simp_all only: exec_matches [OF assms] files_match)
qed


definition demo_local :: local_tools where
  "demo_local = \<lparr>lt_run = \<lparr>lr_environ = [''HOME=/root''], lr_stdout = [''bui'', ''ld''], lr_stderr = [], lr_deadline = True,
      lr_end = LocalExit (-1), lr_ms = 1000\<rparr>,
     lt_after = id, lt_now = [], lt_reads = (\<lambda>d. if d = [] then [] else [d]), lt_read_fails = None, lt_gone = (\<lambda>_. False)\<rparr>"

definition demo_cfg :: LocalConfig where
  "demo_cfg = \<lparr>lc_Shell = ''/bin/sh'', lc_Dir = ''/home'', lc_DefaultTimeout = 60 * second, lc_MaxOutputBytes = 64\<rparr>"




end
