(* ===== verification/Spec2Isabelle.thy ===== *)
theory Spec2Isabelle imports Worker_Hub_Drop Link_Files Human_Access Rest_Stream Cmd_Worker Cmd_Start Worker_Test Local_Props begin

text \<open>
  A verification development for \<open>mcp-sandbox\<close>, a service that runs commands and file operations for
  AI agents in confined directories, with a server that people watch and stop them from.

  \<^bold>\<open>The program.\<close> \<open>cmd/executor\<close> is the server. Agents call six tools on its \<open>/mcp\<close> endpoint
  (\<open>internal/mcpserver\<close>, \<open>internal/tools/sandbox\<close>), authenticated by bearer tokens (\<open>internal/auth\<close>);
  every call passes the block gate and is journalled (\<open>internal/storage\<close>). The calls go to an
  executor, the hub (\<open>internal/workerhub\<close>), which routes each agent to one connected worker and sends
  it requests over a WebSocket (\<open>internal/workerproto\<close>). \<open>cmd/worker\<close> is the other end
  (\<open>internal/workerlink\<close>): it dials the hub, and performs requests in the sandboxes of a manager
  (\<open>internal/sandbox\<close>), one per agent, each with a directory, an environment and, where the platform
  allows, a user id of its own; file operations then run in a helper process (\<open>internal/sandboxop\<close>).
  What commands print flows back as events into a broadcaster with a bounded history
  (\<open>internal/stream\<close>), from which browsers follow a terminal (\<open>internal/restapi\<close>). People log in through
  an identity provider (\<open>internal/humanauth\<close>) and use the REST interface to block and release agents
  and to manage tokens. \<open>cmd/executor-local\<close> is a second program: the same tools for one user on their
  own machine, with no confinement (\<open>internal/localexec\<close>, \<open>internal/localmcp\<close>).

  \<^bold>\<open>How Go is modelled.\<close> \<open>Prelude\<close> holds the vocabulary. Strings and byte slices are lists of bytes. A
  \<open>uint64\<close>, a \<open>uint32\<close> and the limits that are multiplied are words, so wrap-around is visible; an
  \<open>int\<close> that only counts is an \<open>int\<close> or \<open>nat\<close>. An \<open>error\<close> is a value of \<open>gerr\<close> (a sentinel, a text, or
  a \<open>%w\<close> wrapping) and a fallible call returns a sum; package-level sentinels are compared by their
  text, and each text is used once, except that \<open>sandbox\<close> and \<open>localexec\<close> have a time-out error of the
  same text. A Go map is an association list, so the order a \<open>range\<close> visits it in is part of the
  state. A panic, and an operation that never returns, are values (\<open>None\<close>), so that their absence is
  a theorem. Code under a mutex is one function of the state. Goroutines interleave at those
  boundaries: in a sequential handler as a function \<open>others i\<close>, what the rest of the program does
  before its \<open>i\<close>-th critical section; in a protocol as an inductive step relation or a list of turns,
  over which the theorems quantify. Time, random ids, the environment, exit statuses and what a
  database statement meets are arguments or fields of \<open>world\<close> records. Libraries outside the repository
  (GORM, the MCP transport, WebSocket framing, OAuth, cryptography) are parameters; a theorem that
  relies on one of them says in its hypotheses what it relies on.

  \<^bold>\<open>Theories, in the order of the code they model.\<close>

  \<^item> \<open>Go_Path\<close>, \<open>Go_Root\<close>, \<open>Go_Json\<close>: what the code uses of \<open>path/filepath\<close>, \<open>os.Root\<close> and
    \<open>encoding/json\<close>. A file system is a map from component lists to files, directories and links, the
    whole machine in one; a name is walked component by component, links spliced in.
  \<^item> \<open>Procexec\<close> (\<open>procexec/\<close>): output capture that never cuts a character, the capped buffer, the
    teardown of a process group, the drop to another user.
  \<^item> \<open>Stream_Ring\<close>, \<open>Stream_Broadcaster\<close>, \<open>Stream_Live\<close> (\<open>stream/\<close>): the retention ring, subscriptions with
    bounded queues, and what a watcher receives over time. The ring is an instance of the locale
    \<open>retention\<close>, the contract the broadcaster relies on; \<open>Event_Sink\<close> has the interface of that name as
    the locales \<open>event_sink\<close> and \<open>numbered_sink\<close>, with the broadcaster and the hub as instances.
  \<^item> \<open>Worker_Proto\<close>, \<open>Worker_Wire\<close> (\<open>workerproto/workerproto.go\<close>): limits, frames and payloads, their JSON,
    the frame size derived from the limits.
  \<^item> \<open>Worker_Hub\<close>, \<open>Worker_Hub_Routes\<close>, \<open>Worker_Hub_Waiters\<close>, \<open>Worker_Hub_Ops\<close>, \<open>Worker_Hub_Drop\<close> (\<open>workerhub/\<close>): the hub's
    state, hello, routing, the loss of a worker, calls and their waiters, the seven operations; the
    step relation over all of them and its invariants, and the loss of a worker as a run of it.
  \<^item> \<open>Sandbox_Config\<close>, \<open>Sandbox_Env\<close> (\<open>env.go\<close>, \<open>lookpath.go\<close>), \<open>Sandbox_Op\<close> (\<open>sandboxop/\<close>), \<open>Sandbox_Files\<close>
    and \<open>Sandbox_Confine\<close> (\<open>sandbox.go\<close>: paths and files; the locale \<open>confinement\<close> is what an accepted
    path means), \<open>Sandbox_Pump\<close>, \<open>Sandbox_Exec\<close> and \<open>Sandbox_Run\<close> (\<open>sandbox.go\<close>, \<open>venv.go\<close>: running a
    command; the pumps rest on the locale \<open>splitter\<close>), \<open>Uid_Pool\<close> and \<open>Uid_Claims\<close> (\<open>uidpool_unix.go\<close>),
    \<open>Sandbox_Manager\<close> (\<open>manager.go\<close>): package \<open>sandbox\<close>.
  \<^item> \<open>Worker_Link\<close>, \<open>Worker_Link_Props\<close> (\<open>workerlink/\<close>): the worker's connection loop, its handlers as
    goroutines, cancels, reconnects. \<open>Link_Ends\<close> composes it with the hub: what a caller on the server
    gets is what the sandbox on the worker answered; \<open>Link_Files\<close> takes a file there and back.
    \<open>Worker_Test\<close> (\<open>workertest/\<close>) is the harness the repository's tests start hub and workers with.
  \<^item> \<open>Storage\<close>, \<open>Storage_Repos\<close>, \<open>Storage_Inv\<close>, \<open>Storage_Props\<close>, \<open>Storage_Calls\<close> (\<open>storage/\<close>, \<open>auth/\<close>): tables
    with their unique indexes, statements that are atomic while calls are not, the invariant of the
    tables, and facts that no statement of any connection can undo (locale \<open>kept_by_statements\<close>).
  \<^item> \<open>Tools\<close>, \<open>Tools_Props\<close> (\<open>tools/sandbox/\<close>): the gate, the six handlers and the journal around them,
    over any \<open>Executor\<close>; the locale \<open>isolated_executor\<close> is what isolation asks of one, and the hub
    is shown to be one.
  \<^item> \<open>Mcp_Server\<close> (\<open>mcpserver/\<close>), \<open>Rest_Api\<close>, \<open>Rest_Props\<close>, \<open>Rest_Access\<close>, \<open>Rest_Stream\<close> (\<open>restapi/\<close>),
    \<open>Human_Auth\<close>, \<open>Human_Props\<close>, \<open>Human_Access\<close> (\<open>humanauth/\<close>): the endpoints, the router with its guards,
    the terminal stream, sessions and roles. The interface \<open>Provider\<close> is the locale \<open>identity_provider\<close>,
    with the stub and the single sign-on as instances.
  \<^item> \<open>Cmd_Worker\<close>, \<open>Cmd_Executor\<close>, \<open>Cmd_Start\<close> (\<open>cmd/\<close>, \<open>health/\<close>) and \<open>Startup\<close> (opening and migrating the
    database, its logger's settings, the web assets): flags, the action of the server's command line,
    starting with and without a database, pruning.
  \<^item> \<open>Local_Exec\<close>, \<open>Local_Mcp\<close>, \<open>Local_Props\<close> (\<open>localexec/\<close>, \<open>localmcp/\<close>, \<open>cmd/executor-local\<close>): the local
    helper.

  \<^bold>\<open>What is shown.\<close> \<^emph>\<open>Streams:\<close> no interleaving panics; a watcher is given, or told the count of, every
  event since the one it names, and a browser's terminal has no hole that is not marked; captured
  output is the longest run of whole characters that fits. \<^emph>\<open>Link:\<close> no call is lost and no goroutine of
  the hub blocks, whatever order workers connect, answer and vanish in; an agent stays with its
  worker; payloads survive the wire; an error comes out of the hub as the error it was in the sandbox;
  a file that was written is read back, from the server to the worker's disk and back.
  \<^emph>\<open>Sandbox:\<close> no file operation changes anything outside the agent's directory, whatever links are laid
  in it, in this process or in the helper; commands run in a group, a directory and an environment of
  their own; two agents never have the same user id. \<^emph>\<open>Server:\<close> the tables stay well formed under any
  connections; blocking is exclusive and holds on every replica from the moment it is answered;
  tokens last until they are revoked; every call leaves its rows; a check that fails lets nothing
  through; only administrators change agents, on claims as fresh as the provider's last word.
  \<^emph>\<open>Start:\<close> readiness is never announced early, replicas migrate one at a time and, scheduled fairly,
  all of them finish. \<^emph>\<open>Local helper:\<close> its tools answer as the server's do; a delete
  removes what it names and nothing else.

  Some theorems and examples show behaviour that is probably not wanted: limits that wrap and are
  accepted, an answer that crosses into the next connection, waits that are never reset, a range of
  user ids that starts at 0 and holds none, a working directory deleted under another name, and a
  read that is empty under the largest cap.

  \<^bold>\<open>Bounds and termination.\<close> No definition carries fuel. Walks through links end because the code bounds
  the links it follows: 255 in \<open>filepath.EvalSymlinks\<close> and \<open>os.Root\<close>, 40 in the kernel. The rest is
  structural recursion or has a measure; loops that run as long as the program does are runs over a
  list of what happens, and theorems about them hold for every list.

  \<^bold>\<open>Not modelled.\<close> Permission bits are stored and not enforced, and modification times are texts.
  Signals other than those of the teardown, resource use, and log lines are left out. Of the platforms
  other than Unix only what \<open>procgroup_other.go\<close> defines is modelled; \<open>applyNetCaps\<close> is an empty function
  that nothing calls. What the HTTP server does with its listener and timeouts, and the bytes of TLS,
  WebSocket and SQL, are the libraries' own.
\<close>

end
